(* ===== verification/Go_Prelude.thy ===== *)
theory Go_Prelude
  imports Main "HOL-Library.Finite_Map" "HOL-Library.Word" "HOL-Library.State_Monad"
begin

text \<open>
  What the components share: Go strings and byte slices as lists of bytes, the functions of
  \<^verbatim>\<open>strings\<close> and \<^verbatim>\<open>bytes\<close> the operator uses, Go maps as finite maps (with nil told
  apart from empty), durations as signed 64-bit words, decimal printing, and the lemma
  collections of the development.
\<close>

named_theorems trace_simps \<open>how one operation changes the recorded effects\<close>
named_theorems frame_simps \<open>what one operation leaves alone\<close>

section \<open>Strings\<close>

type_synonym bytes = string

abbreviation byte :: "char \<Rightarrow> nat" where
  "byte c \<equiv> of_char c"

definition has_prefix :: "string \<Rightarrow> string \<Rightarrow> bool" where
  "has_prefix s p \<longleftrightarrow> take (length p) s = p"

fun str_contains :: "string \<Rightarrow> string \<Rightarrow> bool" where
  "str_contains [] sub \<longleftrightarrow> sub = []"
| "str_contains (c # s) sub \<longleftrightarrow> has_prefix (c # s) sub \<or> str_contains s sub"

definition trim_prefix :: "string \<Rightarrow> string \<Rightarrow> string" where
  "trim_prefix s p = (if has_prefix s p then drop (length p) s else s)"

definition trim_suffix :: "string \<Rightarrow> string \<Rightarrow> string" where
  "trim_suffix s p = (if has_prefix (rev s) (rev p) then take (length s - length p) s else s)"

text \<open>\<^verbatim>\<open>strings.Cut\<close> at a one-byte separator: before, after, found.\<close>

fun str_cut :: "char \<Rightarrow> string \<Rightarrow> string \<times> string \<times> bool" where
  "str_cut sep [] = ([], [], False)"
| "str_cut sep (c # s) =
     (if c = sep then ([], s, True)
      else case str_cut sep s of (a, b, f) \<Rightarrow> (c # a, b, f))"

text \<open>\<^verbatim>\<open>strings.Split\<close> at a one-byte separator.\<close>

fun str_split :: "char \<Rightarrow> string \<Rightarrow> string list" where
  "str_split sep [] = [[]]"
| "str_split sep (c # s) =
     (if c = sep then [] # str_split sep s
      else case str_split sep s of [] \<Rightarrow> [[c]] | w # ws \<Rightarrow> (c # w) # ws)"

lemma has_prefix_append [simp]: "has_prefix (p @ s) p"
  by (simp add: has_prefix_def)

lemma has_prefix_iff: "has_prefix s p \<longleftrightarrow> (\<exists>t. s = p @ t)"
  unfolding has_prefix_def by (metis append_eq_conv_conj append_take_drop_id)

lemma str_contains_iff: "str_contains s sub \<longleftrightarrow> (\<exists>a b. s = a @ sub @ b)"
proof (induction s)
  case Nil
  then show ?case by auto
next
  case (Cons c s)
  have "(\<exists>a b. c # s = a @ sub @ b) \<longleftrightarrow> (\<exists>b. c # s = sub @ b) \<or> (\<exists>a b. s = a @ sub @ b)"
    by (metis append_Cons append_Nil list.inject neq_Nil_conv)
  with Cons show ?case by (auto simp: has_prefix_iff)
qed

lemma str_split_nonempty: "str_split sep s \<noteq> []"
  by (induction s) (auto split: list.split)

lemma str_split_sep_free: "w \<in> set (str_split sep s) \<Longrightarrow> sep \<notin> set w"
proof (induction s arbitrary: w)
  case (Cons c s)
  then show ?case
    by (fastforce split: list.splits if_splits)
qed simp

section \<open>Decimal printing\<close>

definition digit_char :: "nat \<Rightarrow> char" where
  "digit_char d = char_of (48 + d)"

fun dec_nat :: "nat \<Rightarrow> string" where
  "dec_nat n = (if n < 10 then [digit_char n] else dec_nat (n div 10) @ [digit_char (n mod 10)])"

declare dec_nat.simps [simp del]

definition dec_int :: "int \<Rightarrow> string" where
  "dec_int i = (if i < 0 then CHR ''-'' # dec_nat (nat (- i)) else dec_nat (nat i))"

lemma dec_nat_nonempty: "dec_nat n \<noteq> []"
  by (subst dec_nat.simps) simp

section \<open>Maps\<close>

text \<open>
  A Go map is finite and may be nil. Reading or deleting on a nil map is allowed and reads the
  zero value; \<open>None\<close> is the nil map. \<open>go_get\<close> is \<open>m[k]\<close> with the zero value ''''.
\<close>

type_synonym 'v gomap = "(string, 'v) fmap option"

definition go_map :: "'v gomap \<Rightarrow> (string, 'v) fmap" where
  "go_map m = (case m of None \<Rightarrow> fmempty | Some f \<Rightarrow> f)"

definition go_lookup :: "'v gomap \<Rightarrow> string \<Rightarrow> 'v option" where
  "go_lookup m k = fmlookup (go_map m) k"

definition go_get :: "string gomap \<Rightarrow> string \<Rightarrow> string" where
  "go_get m k = (case go_lookup m k of None \<Rightarrow> '''' | Some v \<Rightarrow> v)"

definition go_delete :: "string \<Rightarrow> 'v gomap \<Rightarrow> 'v gomap" where
  "go_delete k m = map_option (fmdrop k) m"

text \<open>The library's congruence rule for filtering keeps the simplifier out of the filtered map.\<close>

declare fmfilter_cong [cong del]

lemma go_map_simps [simp]: "go_map None = fmempty" "go_map (Some f) = f"
  by (simp_all add: go_map_def)

lemma go_lookup_simps [simp]: "go_lookup None k = None" "go_lookup (Some f) k = fmlookup f k"
  by (simp_all add: go_lookup_def)

lemma go_lookup_delete [simp]:
  "go_lookup (go_delete k m) k' = (if k' = k then None else go_lookup m k')"
  by (cases m) (auto simp: go_delete_def)

lemma go_get_delete [simp]:
  "go_get (go_delete k m) k' = (if k' = k then '''' else go_get m k')"
  by (simp add: go_get_def)

section \<open>Durations\<close>

text \<open>\<^verbatim>\<open>time.Duration\<close> is an int64 count of nanoseconds.\<close>

type_synonym duration = "64 word"

definition millisecond :: duration where "millisecond = 1000000"
definition second :: duration where "second = 1000 * millisecond"
definition minute :: duration where "minute = 60 * second"

lemma duration_values [simp]:
  "millisecond = 1000000" "second = 1000000000" "minute = 60000000000"
  by (simp_all add: millisecond_def second_def minute_def)

text \<open>Waiting for a non-positive duration returns at once.\<close>

definition dur_ns :: "duration \<Rightarrow> nat" where
  "dur_ns d = nat (sint d)"

end
