(* ===== verification/Url.thy ===== *)
theory Url
  imports Go_Prelude "HOL-Library.List_Lexorder" "HOL-Library.Char_ord"
begin

text \<open>
  The part of \<^verbatim>\<open>net/url\<close> and \<^verbatim>\<open>path\<close> that the Dataplane client uses:
  percent-encoding, query values (kept sorted by key, the order of \<^verbatim>\<open>Values.Encode\<close>),
  \<^verbatim>\<open>path.Clean\<close> and \<^verbatim>\<open>path.Join\<close>, and the rendering of a URL; then
  \<^verbatim>\<open>addOrReplaceQuery\<close> and \<^verbatim>\<open>resolveURL\<close> of
  \<^verbatim>\<open>internal/haproxy/dataplane_client.go\<close>.
\<close>

section \<open>Escaping\<close>

definition is_unreserved :: "char \<Rightarrow> bool" where
  "is_unreserved c \<longleftrightarrow>
    (let b = byte c in (48 \<le> b \<and> b \<le> 57) \<or> (65 \<le> b \<and> b \<le> 90) \<or> (97 \<le> b \<and> b \<le> 122))
     \<or> c \<in> set ''-_.~''"

definition keeps_in_path :: "char \<Rightarrow> bool" where
  "keeps_in_path c \<longleftrightarrow> is_unreserved c \<or> c \<in> set ''$&+,/:;=@''"

definition keeps_in_segment :: "char \<Rightarrow> bool" where
  "keeps_in_segment c \<longleftrightarrow> is_unreserved c \<or> c \<in> set ''$&+:=@''"

definition upper_hex :: "nat \<Rightarrow> char" where
  "upper_hex n = ''0123456789ABCDEF'' ! n"

definition percent :: "char \<Rightarrow> string" where
  "percent c = [CHR ''%'', upper_hex (byte c div 16), upper_hex (byte c mod 16)]"

definition escape_with :: "(char \<Rightarrow> bool) \<Rightarrow> string \<Rightarrow> string" where
  "escape_with keep s = concat (map (\<lambda>c. if keep c then [c] else percent c) s)"

definition path_escape :: "string \<Rightarrow> string" where
  "path_escape = escape_with keeps_in_segment"

definition query_escape :: "string \<Rightarrow> string" where
  "query_escape s =
    concat (map (\<lambda>c. if is_unreserved c then [c] else if c = CHR '' '' then ''+'' else percent c) s)"

definition hex_value :: "char \<Rightarrow> nat option" where
  "hex_value c =
    (let b = byte c in
     if 48 \<le> b \<and> b \<le> 57 then Some (b - 48)
     else if 97 \<le> b \<and> b \<le> 102 then Some (b - 87)
     else if 65 \<le> b \<and> b \<le> 70 then Some (b - 55)
     else None)"

fun query_unescape :: "string \<Rightarrow> string option" where
  "query_unescape [] = Some []"
| "query_unescape (c # s) =
    (if c = CHR ''%'' then
       (case s of
          a # b # s' \<Rightarrow>
            (case (hex_value a, hex_value b) of
               (Some x, Some y) \<Rightarrow> map_option (Cons (char_of (x * 16 + y))) (query_unescape s')
             | _ \<Rightarrow> None)
        | _ \<Rightarrow> None)
     else map_option (Cons (if c = CHR ''+'' then CHR '' '' else c)) (query_unescape s))"

section \<open>Query values\<close>

type_synonym query_values = "(string \<times> string list) list"

fun values_add :: "string \<Rightarrow> string \<Rightarrow> query_values \<Rightarrow> query_values" where
  "values_add k v [] = [(k, [v])]"
| "values_add k v ((k', vs) # q) =
    (if k < k' then (k, [v]) # (k', vs) # q
     else if k = k' then (k', vs @ [v]) # q
     else (k', vs) # values_add k v q)"

fun values_set :: "string \<Rightarrow> string \<Rightarrow> query_values \<Rightarrow> query_values" where
  "values_set k v [] = [(k, [v])]"
| "values_set k v ((k', vs) # q) =
    (if k < k' then (k, [v]) # (k', vs) # q
     else if k = k' then (k', [v]) # q
     else (k', vs) # values_set k v q)"

text \<open>Pairs that do not parse are dropped: the caller ignores the error.\<close>

definition parse_pair :: "query_values \<Rightarrow> string \<Rightarrow> query_values" where
  "parse_pair q seg =
    (if CHR '';'' \<in> set seg \<or> seg = [] then q
     else case str_cut (CHR ''='') seg of (k, v, _) \<Rightarrow>
       (case (query_unescape k, query_unescape v) of
          (Some k', Some v') \<Rightarrow> values_add k' v' q
        | _ \<Rightarrow> q))"

definition parse_query :: "string \<Rightarrow> query_values" where
  "parse_query s = foldl parse_pair [] (str_split (CHR ''&'') s)"

definition join_with :: "char \<Rightarrow> string list \<Rightarrow> string" where
  "join_with sep ws = concat (case ws of [] \<Rightarrow> [] | w # ws \<Rightarrow> w # map (Cons sep) ws)"

definition values_encode :: "query_values \<Rightarrow> string" where
  "values_encode q =
    join_with (CHR ''&'')
      (concat (map (\<lambda>(k, vs). map (\<lambda>v. query_escape k @ ''='' @ query_escape v) vs) q))"

definition addOrReplaceQuery :: "string \<Rightarrow> string \<Rightarrow> string \<Rightarrow> string" where
  "addOrReplaceQuery p key v =
    (case str_cut (CHR ''?'') p of (base, q, _) \<Rightarrow>
       base @ ''?'' @ values_encode (values_set key v (parse_query q)))"

section \<open>Paths\<close>

definition clean_step :: "bool \<Rightarrow> string list \<Rightarrow> string \<Rightarrow> string list" where
  "clean_step rooted st seg =
    (if seg = [] \<or> seg = ''.'' then st
     else if seg = ''..'' then
       (case st of
          [] \<Rightarrow> if rooted then [] else [seg]
        | t # ts \<Rightarrow> if t = ''..'' then seg # st else ts)
     else seg # st)"

definition path_clean :: "string \<Rightarrow> string" where
  "path_clean p =
    (let rooted = has_prefix p ''/'';
         body = join_with (CHR ''/'') (rev (foldl (clean_step rooted) [] (str_split (CHR ''/'') p)))
     in if rooted then CHR ''/'' # body else if body = [] then ''.'' else body)"

definition path_join :: "string list \<Rightarrow> string" where
  "path_join ws =
    (case filter (\<lambda>w. w \<noteq> []) ws of [] \<Rightarrow> [] | ws' \<Rightarrow> path_clean (join_with (CHR ''/'') ws'))"

section \<open>URLs\<close>

text \<open>The authority (user info, host and port) is kept as one string.\<close>

record url =
  u_scheme :: string
  u_host :: string
  u_path :: string
  u_query :: string

definition url_string :: "url \<Rightarrow> string" where
  "url_string u =
    u_scheme u @ ''://'' @ u_host u
      @ (if u_host u \<noteq> [] \<and> u_path u \<noteq> [] \<and> \<not> has_prefix (u_path u) ''/'' then ''/'' else [])
      @ escape_with keeps_in_path (u_path u)
      @ (if u_query u = [] then [] else CHR ''?'' # u_query u)"

definition resolveURL :: "url \<Rightarrow> string \<Rightarrow> url" where
  "resolveURL base p =
    (case str_cut (CHR ''?'') p of (rel, query, _) \<Rightarrow>
       base\<lparr>u_path := path_join [trim_suffix (u_path base) ''/'', trim_prefix rel ''/''],
            u_query := query\<rparr>)"

section \<open>Round trips of the query part\<close>

lemma hex_round: "n < 16 \<Longrightarrow> hex_value (upper_hex n) = Some n"
proof -
  assume "n < 16"
  moreover have "list_all (\<lambda>n. hex_value (upper_hex n) = Some n) [0..<16]" by code_simp
  ultimately show ?thesis by (simp add: list_all_iff)
qed

lemma upper_hex_plain: "n < 16 \<Longrightarrow> is_unreserved (upper_hex n)"
proof -
  assume "n < 16"
  moreover have "list_all (\<lambda>n. is_unreserved (upper_hex n)) [0..<16]" by code_simp
  ultimately show ?thesis by (simp add: list_all_iff)
qed

lemma byte_lt: "byte c < 256"
  using of_char_mod_256 [of c, where 'a = nat] by (metis mod_less_divisor zero_less_numeral)

lemma percent_simps: "percent c = [CHR ''%'', upper_hex (byte c div 16), upper_hex (byte c mod 16)]"
  "byte c div 16 < 16" "byte c mod 16 < 16" "char_of (byte c div 16 * 16 + byte c mod 16) = c"
proof -
  have "byte c < 256" by (rule byte_lt)
  then show "byte c div 16 < 16" by linarith
qed (simp_all add: percent_def)

lemma reserved_marks [simp]: "\<not> is_unreserved CHR ''%''" "\<not> is_unreserved CHR ''+''"
  "\<not> is_unreserved CHR ''&''" "\<not> is_unreserved CHR ''=''" "\<not> is_unreserved CHR '';''"
  "\<not> is_unreserved CHR ''?''" "\<not> is_unreserved CHR ''/''"
  by code_simp+

lemma query_unescape_escape: "query_unescape (query_escape s) = Some s"
proof (induction s)
  case Nil
  show ?case by (simp add: query_escape_def)
next
  case (Cons c s)
  have IH: "query_unescape
      (concat (map (\<lambda>c. if is_unreserved c then [c] else if c = CHR '' '' then ''+'' else percent c) s))
      = Some s"
    using Cons by (simp add: query_escape_def)
  consider "is_unreserved c" | "\<not> is_unreserved c" "c = CHR '' ''" | "\<not> is_unreserved c" "c \<noteq> CHR '' ''"
    by blast
  then show ?case
  proof cases
    case 1
    then have "c \<noteq> CHR ''%''" "c \<noteq> CHR ''+''" by auto
    with 1 IH show ?thesis by (simp add: query_escape_def)
  next
    case 2
    then show ?thesis using IH by (simp add: query_escape_def)
  next
    case 3
    then show ?thesis
      using IH by (simp add: query_escape_def percent_simps hex_round)
  qed
qed

definition is_query_char :: "char \<Rightarrow> bool" where
  "is_query_char c \<longleftrightarrow> is_unreserved c \<or> c = CHR ''%'' \<or> c = CHR ''+''"

lemma query_escape_chars: "list_all is_query_char (query_escape s)"
  by (induction s)
    (auto simp: query_escape_def is_query_char_def percent_simps upper_hex_plain)

lemma query_escape_free:
  "CHR ''&'' \<notin> set (query_escape s)" "CHR ''='' \<notin> set (query_escape s)"
  "CHR '';'' \<notin> set (query_escape s)"
  using query_escape_chars [of s] by (auto simp: list_all_iff is_query_char_def)

lemma query_escape_plain: "list_all is_unreserved s \<Longrightarrow> query_escape s = s"
  by (induction s) (simp_all add: query_escape_def)

lemma str_cut_free: "sep \<notin> set a \<Longrightarrow> str_cut sep (a @ sep # b) = (a, b, True)"
  by (induction a) auto

lemma str_cut_none: "sep \<notin> set a \<Longrightarrow> str_cut sep a = (a, [], False)"
  by (induction a) auto

lemma str_split_free: "sep \<notin> set a \<Longrightarrow> str_split sep a = [a]"
  by (induction a) auto

lemma str_split_append: "sep \<notin> set a \<Longrightarrow> str_split sep (a @ sep # s) = a # str_split sep s"
  by (induction a) auto

lemma str_split_join:
  "ws \<noteq> [] \<Longrightarrow> \<forall>w\<in>set ws. sep \<notin> set w \<Longrightarrow> str_split sep (join_with sep ws) = ws"
proof (induction ws)
  case (Cons w ws)
  then show ?case
    by (cases ws) (simp_all add: join_with_def str_split_free str_split_append)
qed simp

definition encode_pair :: "string \<times> string \<Rightarrow> string" where
  "encode_pair kv = query_escape (fst kv) @ ''='' @ query_escape (snd kv)"

lemma parse_pair_encode: "parse_pair q (encode_pair (k, v)) = values_add k v q"
  using str_cut_free [OF query_escape_free(2), of k "query_escape v"]
  by (simp add: parse_pair_def encode_pair_def query_unescape_escape query_escape_free)

lemma foldl_parse_encode:
  "foldl parse_pair q (map encode_pair kvs) = foldl (\<lambda>q (k, v). values_add k v q) q kvs"
  by (induction kvs arbitrary: q) (auto simp: parse_pair_encode)

definition flat_values :: "query_values \<Rightarrow> (string \<times> string) list" where
  "flat_values q = concat (map (\<lambda>(k, vs). map (Pair k) vs) q)"

lemma values_encode_flat: "values_encode q = join_with (CHR ''&'') (map encode_pair (flat_values q))"
  by (simp add: values_encode_def flat_values_def map_concat comp_def case_prod_unfold
      encode_pair_def)

lemma parse_encode_flat:
  "parse_query (values_encode q) = foldl (\<lambda>q (k, v). values_add k v q) [] (flat_values q)"
proof (cases "flat_values q = []")
  case True
  then show ?thesis
    by (simp add: parse_query_def values_encode_flat join_with_def parse_pair_def)
next
  case False
  have "\<forall>w\<in>set (map encode_pair (flat_values q)). CHR ''&'' \<notin> set w"
    by (auto simp: encode_pair_def query_escape_free)
  with False have "str_split (CHR ''&'') (values_encode q) = map encode_pair (flat_values q)"
    unfolding values_encode_flat by (intro str_split_join) simp_all
  then show ?thesis by (simp add: parse_query_def foldl_parse_encode)
qed

text \<open>Values as \<open>parse_query\<close> and \<open>values_set\<close> build them: keys strictly ascending, no key
  without a value.\<close>

definition wf_values :: "query_values \<Rightarrow> bool" where
  "wf_values q \<longleftrightarrow> sorted_wrt (<) (map fst q) \<and> list_all (\<lambda>(k, vs). vs \<noteq> []) q"

lemma values_add_last:
  "list_all (\<lambda>(k', _). k' < k) q \<Longrightarrow> values_add k v q = q @ [(k, [v])]"
proof (induction q)
  case (Cons p q)
  then show ?case by (cases p) auto
qed simp

lemma values_add_same:
  "list_all (\<lambda>(k', _). k' < k) q \<Longrightarrow> values_add k v (q @ [(k, vs)]) = q @ [(k, vs @ [v])]"
proof (induction q)
  case (Cons p q)
  then show ?case by (cases p) auto
qed simp

lemma foldl_values_add_key:
  assumes "list_all (\<lambda>(k', _). k' < k) q"
  shows "foldl (\<lambda>q (k, v). values_add k v q) (q @ [(k, us)]) (map (Pair k) vs) = q @ [(k, us @ vs)]"
  using assms by (induction vs arbitrary: us) (simp_all add: values_add_same)

lemma foldl_values_add_flat:
  assumes "wf_values q" "\<forall>(k, _)\<in>set p. \<forall>(k', _)\<in>set q. k < k'"
  shows "foldl (\<lambda>q (k, v). values_add k v q) p (flat_values q) = p @ q"
  using assms
proof (induction q arbitrary: p)
  case Nil
  then show ?case by (simp add: flat_values_def)
next
  case (Cons kv q)
  obtain k vs where kv: "kv = (k, vs)" by (cases kv)
  from Cons.prems kv obtain v vs' where vs: "vs = v # vs'"
    by (cases vs) (auto simp: wf_values_def)
  have below: "list_all (\<lambda>(k', _). k' < k) p" using Cons.prems(2) kv by (auto simp: list_all_iff)
  have "foldl (\<lambda>q (k, v). values_add k v q) p (map (Pair k) vs) = p @ [(k, vs)]"
    using foldl_values_add_key [OF below, of "[v]" vs'] by (simp add: vs values_add_last [OF below])
  moreover have "wf_values q" using Cons.prems(1) by (simp add: wf_values_def)
  moreover have "\<forall>(k, _)\<in>set (p @ [(k, vs)]). \<forall>(k', _)\<in>set q. k < k'"
    using Cons.prems kv by (auto simp: wf_values_def)
  ultimately show ?case
    using Cons.IH [of "p @ [(k, vs)]"] by (simp add: flat_values_def kv)
qed

lemma parse_values_encode: "wf_values q \<Longrightarrow> parse_query (values_encode q) = q"
  using foldl_values_add_flat [of q "[]"] by (simp add: parse_encode_flat)

lemma values_set_keys: "fst ` set (values_set k v q) = insert k (fst ` set q)"
proof (induction q)
  case (Cons p q)
  then show ?case by (cases p) auto
qed simp

lemma wf_values_set: "wf_values q \<Longrightarrow> wf_values (values_set k v q)"
proof (induction q)
  case (Cons p q)
  obtain k' vs where p: "p = (k', vs)" by (cases p)
  from Cons p values_set_keys [of k v q] show ?case
    by (auto simp: wf_values_def list_all_iff)
qed (simp add: wf_values_def)

lemma values_set_set: "wf_values q \<Longrightarrow> values_set k v (values_set k w q) = values_set k v q"
  by (induction q) (auto simp: wf_values_def)

lemma addOrReplaceQuery_bare:
  "CHR ''?'' \<notin> set p \<Longrightarrow>
   addOrReplaceQuery p k v = p @ ''?'' @ query_escape k @ ''='' @ query_escape v"
  by (simp add: addOrReplaceQuery_def str_cut_none parse_query_def parse_pair_def
      values_encode_def join_with_def)

lemma addOrReplaceQuery_encoded:
  "CHR ''?'' \<notin> set p \<Longrightarrow> wf_values q \<Longrightarrow>
   addOrReplaceQuery (p @ ''?'' @ values_encode q) k v = p @ ''?'' @ values_encode (values_set k v q)"
  by (simp add: addOrReplaceQuery_def str_cut_free parse_values_encode)

text \<open>Adding or replacing a parameter is an update of the query's values: any encoded query is
  read back exactly, the key gets the one new value, and every other parameter is kept.\<close>

theorem addOrReplaceQuery_update:
  assumes "CHR ''?'' \<notin> set p" "wf_values q"
  shows "addOrReplaceQuery (p @ ''?'' @ values_encode q) k v =
      p @ ''?'' @ values_encode (values_set k v q)
    \<and> parse_query (values_encode (values_set k v q)) = values_set k v q
    \<and> map_of (values_set k v q) = (map_of q)(k \<mapsto> [v])"
proof -
  have "map_of (values_set k v q) = (map_of q)(k \<mapsto> [v])"
    using assms(2)
  proof (induction q)
    case (Cons p q)
    then show ?case
      by (cases p) (auto simp: wf_values_def fun_eq_iff map_of_eq_None_iff)
  qed simp
  moreover have "parse_query (values_encode (values_set k v q)) = values_set k v q"
    by (rule parse_values_encode [OF wf_values_set [OF assms(2)]])
  ultimately show ?thesis
    using addOrReplaceQuery_encoded [OF assms] by blast
qed

theorem addOrReplaceQuery_update_witness:
  "addOrReplaceQuery ''/raw?version=1'' ''only_validate'' ''true''
     = ''/raw?only_validate=true&version=1''
   \<and> parse_query ''only_validate=true&version=1'' = [(''only_validate'', [''true'']), (''version'', [''1''])]"
proof -
  have "wf_values [(''version'', [''1''])]" by (simp add: wf_values_def)
  moreover have "CHR ''?'' \<notin> set ''/raw''" by simp
  ultimately have "addOrReplaceQuery (''/raw'' @ ''?'' @ values_encode [(''version'', [''1''])])
      ''only_validate'' ''true'' =
      ''/raw'' @ ''?'' @ values_encode (values_set ''only_validate'' ''true'' [(''version'', [''1''])])
    \<and> parse_query (values_encode (values_set ''only_validate'' ''true'' [(''version'', [''1''])])) =
        values_set ''only_validate'' ''true'' [(''version'', [''1''])]"
    using addOrReplaceQuery_update by blast
  moreover have "values_encode [(''version'', [''1''])] = ''version=1''" by code_simp
  moreover have "values_set ''only_validate'' ''true'' [(''version'', [''1''])] =
      [(''only_validate'', [''true'']), (''version'', [''1''])]" by code_simp
  moreover have "values_encode [(''only_validate'', [''true'']), (''version'', [''1''])] =
      ''only_validate=true&version=1''" by code_simp
  ultimately show ?thesis by simp
qed

end
