(* ===== verification/Utf8.thy ===== *)
theory Utf8
  imports Go_Prelude
begin

text \<open>
  Go's iteration over a string (\<^verbatim>\<open>for _, r := range s\<close>): UTF-8 decoding in which a byte
  that starts no well-formed sequence yields U+FFFD and is one byte wide; and the encoding that
  \<^verbatim>\<open>strings.Builder.WriteRune\<close> appends. Both are the language's own semantics.
\<close>

definition rune_error :: nat where "rune_error = 0xFFFD"

definition is_cont :: "nat \<Rightarrow> bool" where
  "is_cont b \<longleftrightarrow> 0x80 \<le> b \<and> b \<le> 0xBF"

definition decode2 :: "nat \<Rightarrow> nat \<Rightarrow> (nat \<times> nat) option" where
  "decode2 a b = (if 0xC2 \<le> a \<and> a \<le> 0xDF \<and> is_cont b
     then Some ((a - 0xC0) * 64 + (b - 0x80), 2) else None)"

definition decode3 :: "nat \<Rightarrow> nat \<Rightarrow> nat \<Rightarrow> (nat \<times> nat) option" where
  "decode3 a b c = (if 0xE0 \<le> a \<and> a \<le> 0xEF \<and> is_cont b \<and> is_cont c
       \<and> (a = 0xE0 \<longrightarrow> 0xA0 \<le> b) \<and> (a = 0xED \<longrightarrow> b \<le> 0x9F)
     then Some ((a - 0xE0) * 4096 + (b - 0x80) * 64 + (c - 0x80), 3) else None)"

definition decode4 :: "nat \<Rightarrow> nat \<Rightarrow> nat \<Rightarrow> nat \<Rightarrow> (nat \<times> nat) option" where
  "decode4 a b c d = (if 0xF0 \<le> a \<and> a \<le> 0xF4 \<and> is_cont b \<and> is_cont c \<and> is_cont d
       \<and> (a = 0xF0 \<longrightarrow> 0x90 \<le> b) \<and> (a = 0xF4 \<longrightarrow> b \<le> 0x8F)
     then Some ((a - 0xF0) * 262144 + (b - 0x80) * 4096 + (c - 0x80) * 64 + (d - 0x80), 4)
     else None)"

text \<open>The rune at the front of a non-empty string and its width in bytes.\<close>

definition or_else :: "'a option \<Rightarrow> 'a option \<Rightarrow> 'a option" where
  "or_else x y = (case x of None \<Rightarrow> y | Some a \<Rightarrow> Some a)"

fun decode_seq :: "string \<Rightarrow> (nat \<times> nat) option" where
  "decode_seq (a # b # c # d # s) =
     or_else (if byte a < 0x80 then Some (byte a, 1) else None)
      (or_else (decode2 (byte a) (byte b))
        (or_else (decode3 (byte a) (byte b) (byte c)) (decode4 (byte a) (byte b) (byte c) (byte d))))"
| "decode_seq [a, b, c] =
     or_else (if byte a < 0x80 then Some (byte a, 1) else None)
      (or_else (decode2 (byte a) (byte b)) (decode3 (byte a) (byte b) (byte c)))"
| "decode_seq [a, b] =
     or_else (if byte a < 0x80 then Some (byte a, 1) else None) (decode2 (byte a) (byte b))"
| "decode_seq [a] = (if byte a < 0x80 then Some (byte a, 1) else None)"
| "decode_seq [] = None"

definition decode_rune :: "string \<Rightarrow> nat \<times> nat" where
  "decode_rune s = (case decode_seq s of Some rw \<Rightarrow> rw | None \<Rightarrow> (rune_error, 1))"

lemma decode_seq_width: "decode_seq s = Some (r, w) \<Longrightarrow> 1 \<le> w \<and> w \<le> length s"
  by (induction s rule: decode_seq.induct)
    (auto simp: or_else_def decode2_def decode3_def decode4_def split: if_splits option.splits)

lemma decode_rune_width: "1 \<le> snd (decode_rune s)"
  by (auto simp: decode_rune_def dest: decode_seq_width split: option.splits)

function runes :: "string \<Rightarrow> nat list" where
  "runes s = (if s = [] then [] else fst (decode_rune s) # runes (drop (snd (decode_rune s)) s))"
  by pat_completeness auto
termination
proof (relation "measure length")
  fix s :: string
  assume "s \<noteq> []"
  then show "(drop (snd (decode_rune s)) s, s) \<in> measure length"
    using decode_rune_width [of s] by (cases s) auto
qed simp

declare runes.simps [simp del]

lemma runes_Nil [simp]: "runes [] = []"
  by (simp add: runes.simps)

lemma runes_Cons: "s \<noteq> [] \<Longrightarrow>
  runes s = fst (decode_rune s) # runes (drop (snd (decode_rune s)) s)"
  by (subst runes.simps) simp

text \<open>\<^verbatim>\<open>utf8.AppendRune\<close>: surrogates and out-of-range runes are written as U+FFFD.\<close>

definition is_scalar :: "nat \<Rightarrow> bool" where
  "is_scalar r \<longleftrightarrow> r \<le> 0x10FFFF \<and> \<not> (0xD800 \<le> r \<and> r \<le> 0xDFFF)"

definition encode_scalar :: "nat \<Rightarrow> nat list" where
  "encode_scalar r =
    (if r < 0x80 then [r]
     else if r < 0x800 then [0xC0 + r div 64, 0x80 + r mod 64]
     else if r < 0x10000 then [0xE0 + r div 4096, 0x80 + r div 64 mod 64, 0x80 + r mod 64]
     else [0xF0 + r div 262144, 0x80 + r div 4096 mod 64, 0x80 + r div 64 mod 64, 0x80 + r mod 64])"

definition encode_rune :: "nat \<Rightarrow> string" where
  "encode_rune r = map char_of (encode_scalar (if is_scalar r then r else rune_error))"

text \<open>Well-formed UTF-8: every position of the iteration starts a sequence.\<close>

function valid_utf8 :: "string \<Rightarrow> bool" where
  "valid_utf8 s \<longleftrightarrow> s = [] \<or>
     (case decode_seq s of None \<Rightarrow> False | Some (r, w) \<Rightarrow> valid_utf8 (drop w s))"
  by pat_completeness auto
termination
  by (relation "measure length") (auto dest: decode_seq_width)

declare valid_utf8.simps [simp del]

section \<open>Round trips\<close>

lemma is_scalar_rune_error [simp]: "is_scalar rune_error"
  by (simp add: is_scalar_def rune_error_def)

lemma byte_char_of [simp]: "n < 256 \<Longrightarrow> byte (char_of n) = (n :: nat)"
  by simp

lemma encode_scalar_lt: "r \<le> 0x10FFFF \<Longrightarrow> b \<in> set (encode_scalar r) \<Longrightarrow> b < 256"
  by (auto simp: encode_scalar_def split: if_splits)

lemma decode2_split:
  assumes "0x80 \<le> r" "r < 0x800"
  shows "decode2 (0xC0 + r div 64) (0x80 + r mod 64) = Some (r, 2)"
proof -
  have "2 \<le> r div 64" "r div 64 \<le> 31" "r mod 64 < 64" using assms by auto
  moreover have "r div 64 * 64 + r mod 64 = r" by simp
  ultimately show ?thesis by (simp add: decode2_def is_cont_def)
qed

lemma decode3_split:
  assumes "0x800 \<le> r" "r < 0x10000" "\<not> (0xD800 \<le> r \<and> r \<le> 0xDFFF)"
  shows "decode3 (0xE0 + r div 4096) (0x80 + r div 64 mod 64) (0x80 + r mod 64) = Some (r, 3)"
proof -
  define q where "q = r div 64"
  define m where "m = r mod 64"
  have r: "r = q * 64 + m" "m < 64" by (simp_all add: q_def m_def)
  have q: "r div 4096 = q div 64" by (simp add: q_def div_mult2_eq [symmetric])
  have qb: "32 \<le> q" "q < 1024" "\<not> (864 \<le> q \<and> q \<le> 895)" using assms r by auto
  define h where "h = q div 64"
  define l where "l = q mod 64"
  have hl: "q = h * 64 + l" "l < 64" by (simp_all add: h_def l_def)
  have "h \<le> 15" "h = 0 \<longrightarrow> 32 \<le> l" "h = 13 \<longrightarrow> l \<le> 31" using qb hl by auto
  with r hl show ?thesis
    unfolding q q_def [symmetric] m_def [symmetric] h_def [symmetric] l_def [symmetric]
    by (simp add: decode3_def is_cont_def)
qed

lemma decode4_split:
  assumes "0x10000 \<le> r" "r \<le> 0x10FFFF"
  shows "decode4 (0xF0 + r div 262144) (0x80 + r div 4096 mod 64) (0x80 + r div 64 mod 64)
    (0x80 + r mod 64) = Some (r, 4)"
proof -
  define q where "q = r div 64"
  define m where "m = r mod 64"
  have r: "r = q * 64 + m" "m < 64" by (simp_all add: q_def m_def)
  define p where "p = q div 64"
  define n where "n = q mod 64"
  have q: "q = p * 64 + n" "n < 64" by (simp_all add: p_def n_def)
  define h where "h = p div 64"
  define l where "l = p mod 64"
  have p: "p = h * 64 + l" "l < 64" by (simp_all add: h_def l_def)
  have d: "r div 4096 = p" "r div 262144 = h"
    by (simp_all add: p_def h_def q_def div_mult2_eq [symmetric])
  have "16 \<le> p" "p \<le> 271" using assms r q by auto
  then have "h \<le> 4" "h = 0 \<longrightarrow> 16 \<le> l" "h = 4 \<longrightarrow> l \<le> 15" using p by auto
  with r q p show ?thesis
    unfolding d q_def [symmetric] m_def [symmetric] n_def [symmetric] l_def [symmetric]
    by (simp add: decode4_def is_cont_def)
qed

text \<open>Decoding what was encoded returns the rune, whatever follows it.\<close>

lemma decode_seq_one: "byte a < 0x80 \<Longrightarrow> decode_seq (a # s) = Some (byte a, 1)"
  by (cases "a # s" rule: decode_seq.cases) (auto simp: or_else_def)

lemma decode_seq_two: "0x80 \<le> byte a \<Longrightarrow> decode2 (byte a) (byte b) = Some x \<Longrightarrow>
  decode_seq (a # b # s) = Some x"
  by (cases "a # b # s" rule: decode_seq.cases) (auto simp: or_else_def)

lemma decode2_None: "0xE0 \<le> a \<Longrightarrow> decode2 a b = None"
  by (simp add: decode2_def)

lemma decode3_None: "0xF0 \<le> a \<Longrightarrow> decode3 a b c = None"
  by (simp add: decode3_def)

lemma decode_seq_three: "0xE0 \<le> byte a \<Longrightarrow> decode3 (byte a) (byte b) (byte c) = Some x \<Longrightarrow>
  decode_seq (a # b # c # s) = Some x"
  by (cases "a # b # c # s" rule: decode_seq.cases) (auto simp: or_else_def decode2_None)

lemma decode_seq_four: "0xF0 \<le> byte a \<Longrightarrow>
  decode4 (byte a) (byte b) (byte c) (byte d) = Some x \<Longrightarrow>
  decode_seq (a # b # c # d # s) = Some x"
  by (simp add: or_else_def decode2_None decode3_None)

lemma decode_encode:
  assumes "is_scalar r"
  shows "decode_seq (encode_rune r @ s) = Some (r, length (encode_rune r))"
proof -
  have le: "r \<le> 0x10FFFF" and ns: "\<not> (0xD800 \<le> r \<and> r \<le> 0xDFFF)"
    using assms by (simp_all add: is_scalar_def)
  consider "r < 0x80" | "0x80 \<le> r" "r < 0x800" | "0x800 \<le> r" "r < 0x10000" | "0x10000 \<le> r"
    by linarith
  then show ?thesis
  proof cases
    case 1
    then show ?thesis using assms by (simp add: encode_rune_def encode_scalar_def decode_seq_one)
  next
    case 2
    then have "r div 64 < 32" by simp
    with 2 decode2_split [of r] assms show ?thesis
      by (simp add: encode_rune_def encode_scalar_def decode_seq_two)
  next
    case 3
    then have "r div 4096 < 16" by simp
    with 3 decode3_split [of r] ns assms show ?thesis
      by (simp add: encode_rune_def encode_scalar_def decode_seq_three)
  next
    case 4
    then have "r div 262144 \<le> 4" using le by simp
    with 4 decode4_split [of r] le assms show ?thesis
      by (simp add: encode_rune_def encode_scalar_def decode_seq_four del: decode_seq.simps)
  qed
qed

lemma encode_rune_nonempty [simp]: "encode_rune r \<noteq> []"
  by (simp add: encode_rune_def encode_scalar_def)

lemma runes_encode_append: "is_scalar r \<Longrightarrow> runes (encode_rune r @ s) = r # runes s"
  using decode_encode [of r s] by (subst runes_Cons) (simp_all add: decode_rune_def)

lemma valid_utf8_encode_append: "is_scalar r \<Longrightarrow> valid_utf8 (encode_rune r @ s) = valid_utf8 s"
  using decode_encode [of r s] by (subst valid_utf8.simps) simp

lemma valid_utf8_Nil [simp]: "valid_utf8 []"
  by (subst valid_utf8.simps) simp

lemma encode_rune_surrogate: "encode_rune r = encode_rune (if is_scalar r then r else rune_error)"
  by (simp add: encode_rune_def)

lemma valid_utf8_concat_encode: "valid_utf8 (concat (map encode_rune rs))"
proof (induction rs)
  case (Cons r rs)
  have "is_scalar (if is_scalar r then r else rune_error)" by simp
  from valid_utf8_encode_append [OF this] Cons show ?case
    by (simp add: encode_rune_surrogate [of r])
qed simp

lemma runes_concat_encode:
  "list_all is_scalar rs \<Longrightarrow> runes (concat (map encode_rune rs)) = rs"
  by (induction rs) (simp_all add: runes_encode_append)

text \<open>Encoding what was decoded returns the bytes that were read.\<close>

lemma encode_decode2:
  assumes "decode2 a b = Some (r, w)"
  shows "encode_scalar r = [a, b] \<and> w = 2"
proof -
  define h l where "h = a - 0xC0" and "l = b - 0x80"
  have "r = h * 64 + l" "a = 0xC0 + h" "b = 0x80 + l" "2 \<le> h" "h < 32" "l < 64" "w = 2"
    using assms by (auto simp: decode2_def is_cont_def h_def l_def split: if_splits)
  then show ?thesis by (auto simp: encode_scalar_def)
qed

lemma encode_decode3:
  assumes "decode3 a b c = Some (r, w)"
  shows "encode_scalar r = [a, b, c] \<and> w = 3"
proof -
  define h l m where "h = a - 0xE0" and "l = b - 0x80" and "m = c - 0x80"
  have e: "a = 0xE0 + h" "b = 0x80 + l" "c = 0x80 + m" "h < 16" "l < 64" "m < 64"
    "h = 0 \<longrightarrow> 32 \<le> l" "w = 3" and r0: "r = h * 4096 + l * 64 + m"
    using assms by (auto simp: decode3_def is_cont_def h_def l_def m_def split: if_splits)
  define q where "q = h * 64 + l"
  have r: "r = q * 64 + m" using r0 by (simp add: q_def)
  have "r div 64 = q" "r mod 64 = m" using e unfolding r by simp_all
  moreover have "q div 64 = h" "q mod 64 = l" using e unfolding q_def by simp_all
  moreover have "r div 4096 = r div 64 div 64" by (simp add: div_mult2_eq [symmetric])
  moreover have "0x800 \<le> r" "r < 0x10000" using e r0 by auto
  ultimately show ?thesis using e by (simp add: encode_scalar_def)
qed

lemma encode_decode4:
  assumes "decode4 a b c d = Some (r, w)"
  shows "encode_scalar r = [a, b, c, d] \<and> w = 4"
proof -
  define h l m n where "h = a - 0xF0" and "l = b - 0x80" and "m = c - 0x80" and "n = d - 0x80"
  have e: "a = 0xF0 + h" "b = 0x80 + l" "c = 0x80 + m" "d = 0x80 + n"
    "h < 5" "l < 64" "m < 64" "n < 64" "h = 0 \<longrightarrow> 16 \<le> l" "w = 4"
    and r0: "r = h * 262144 + l * 4096 + m * 64 + n"
    using assms
    by (auto simp: decode4_def is_cont_def h_def l_def m_def n_def split: if_splits)
  define p where "p = h * 64 + l"
  define q where "q = p * 64 + m"
  have r: "r = q * 64 + n" using r0 by (simp add: q_def p_def)
  have "r div 64 = q" "r mod 64 = n" using e unfolding r by simp_all
  moreover have "q div 64 = p" "q mod 64 = m" using e unfolding q_def by simp_all
  moreover have "p div 64 = h" "p mod 64 = l" using e unfolding p_def by simp_all
  moreover have "r div 4096 = r div 64 div 64" "r div 262144 = r div 64 div 64 div 64"
    by (simp_all add: div_mult2_eq [symmetric])
  moreover have "0x10000 \<le> r" using e r0 by auto
  ultimately show ?thesis using e by (simp add: encode_scalar_def)
qed

text \<open>Every byte of an encoding is below 0x80 only for the rune it is itself.\<close>

lemma encode_rune_bytes:
  assumes "c \<in> set (encode_rune r)"
  shows "byte c = r \<or> 0x80 \<le> byte c"
proof -
  let ?r = "if is_scalar r then r else rune_error"
  have le: "?r \<le> 0x10FFFF" by (auto simp: is_scalar_def rune_error_def)
  from assms obtain b where b: "b \<in> set (encode_scalar ?r)" and c: "c = char_of b"
    by (auto simp: encode_rune_def)
  have "b < 256" by (rule encode_scalar_lt [OF le b])
  moreover have "b = ?r \<or> 0x80 \<le> b"
    using b by (auto simp: encode_scalar_def split: if_splits)
  moreover have "\<not> is_scalar r \<Longrightarrow> 0x80 \<le> ?r" by (simp add: rune_error_def)
  ultimately show ?thesis using c by (auto split: if_splits)
qed

end
