(* ===== verification/Status.thy ===== *)
theory Status
  imports Utf8
begin

text \<open>
  \<^verbatim>\<open>internal/status/reporter.go\<close>: the Event reasons, the Warning table, the sanitiser
  every Event message and status annotation goes through, and the Event that is built from them.
  The lemmas show what the sanitiser guarantees (printable, bounded, well-formed unless it
  truncates) and where it does not (a cut inside a multi-byte rune).
\<close>

section \<open>Reasons\<close>

definition ValidationPassed :: string where "ValidationPassed = ''ValidationPassed''"
definition ValidationFailed :: string where "ValidationFailed = ''ValidationFailed''"
definition ConfigRejected :: string where "ConfigRejected = ''ConfigRejected''"
definition ApplySucceeded :: string where "ApplySucceeded = ''ApplySucceeded''"
definition ApplyFailed :: string where "ApplyFailed = ''ApplyFailed''"
definition AuthError :: string where "AuthError = ''AuthError''"
definition TLSConnectionErr :: string where "TLSConnectionErr = ''TLSConnectionError''"
definition ConnectionError :: string where "ConnectionError = ''ConnectionError''"
definition ConflictError :: string where "ConflictError = ''ConflictError''"
definition TransientError :: string where "TransientError = ''TransientError''"
definition ConfigUnchanged :: string where "ConfigUnchanged = ''ConfigUnchanged''"
definition CertSynced :: string where "CertSynced = ''CertSynced''"
definition CertSyncFailed :: string where "CertSyncFailed = ''CertSyncFailed''"
definition ConfigDriftReason :: string where "ConfigDriftReason = ''ConfigDrift''"

lemmas reason_defs = ValidationPassed_def ValidationFailed_def ConfigRejected_def
  ApplySucceeded_def ApplyFailed_def AuthError_def TLSConnectionErr_def ConnectionError_def
  ConflictError_def TransientError_def ConfigUnchanged_def CertSynced_def CertSyncFailed_def
  ConfigDriftReason_def

definition warningReasons :: "string list" where
  "warningReasons = [ConfigRejected, ValidationFailed, ApplyFailed, AuthError, TLSConnectionErr,
     ConnectionError, ConflictError, TransientError, CertSyncFailed, ConfigDriftReason]"

section \<open>SanitizeMessage\<close>

definition maxEventMessage :: nat where "maxEventMessage = 512"

text \<open>The three UTF-8 bytes of the horizontal ellipsis U+2026.\<close>

definition ellipsis :: string where
  "ellipsis = [char_of (0xE2 :: nat), char_of (0x80 :: nat), char_of (0xA6 :: nat)]"

definition sanitize_rune :: "nat \<Rightarrow> string" where
  "sanitize_rune r =
    (if r = 10 \<or> r = 13 then '' | ''
     else if r < 0x20 \<or> r = 0x7F then []
     else encode_rune r)"

definition SanitizeMessage :: "string \<Rightarrow> string" where
  "SanitizeMessage msg =
    (let out = concat (map sanitize_rune (runes msg))
     in if maxEventMessage < length out then take maxEventMessage out @ ellipsis else out)"

section \<open>EmitEvent\<close>

record event =
  ev_object :: "string \<times> string"
  ev_warning :: bool
  ev_reason :: string
  ev_message :: string

text \<open>The Event handed to the recorder, if there is a recorder.\<close>

definition EmitEvent :: "bool \<Rightarrow> string \<times> string \<Rightarrow> string \<Rightarrow> string \<Rightarrow> event option" where
  "EmitEvent recorder obj reason message =
    (if \<not> recorder then None
     else Some \<lparr>ev_object = obj, ev_warning = reason \<in> set warningReasons, ev_reason = reason,
       ev_message = SanitizeMessage (if message = [] then reason else message)\<rparr>)"

section \<open>What a message may look like\<close>

definition printable :: "char \<Rightarrow> bool" where
  "printable c \<longleftrightarrow> 0x20 \<le> byte c \<and> byte c \<noteq> 0x7F"

definition safe_message :: "string \<Rightarrow> bool" where
  "safe_message m \<longleftrightarrow> length m \<le> maxEventMessage + 3 \<and> list_all printable m"

lemma encode_rune_printable:
  assumes "\<not> (r < 0x20 \<or> r = 0x7F)"
  shows "list_all printable (encode_rune r)"
proof -
  have "printable c" if "c \<in> set (encode_rune r)" for c
    using encode_rune_bytes [OF that] assms by (auto simp: printable_def)
  then show ?thesis by (simp add: list_all_iff)
qed

lemma sanitize_rune_printable: "list_all printable (sanitize_rune r)"
  by (simp add: sanitize_rune_def encode_rune_printable) (simp add: printable_def)

lemma list_all_concat_map:
  "(\<And>x. list_all P (f x)) \<Longrightarrow> list_all P (concat (map f xs))"
  by (induction xs) simp_all

lemma printable_ellipsis: "list_all printable ellipsis"
  by (simp add: ellipsis_def printable_def)

lemma list_all_take: "list_all P xs \<Longrightarrow> list_all P (take n xs)"
  by (auto simp: list_all_iff dest: in_set_takeD)

lemma SanitizeMessage_printable: "list_all printable (SanitizeMessage m)"
  by (simp add: SanitizeMessage_def Let_def list_all_concat_map sanitize_rune_printable
      printable_ellipsis list_all_take)

lemma SanitizeMessage_length: "length (SanitizeMessage m) \<le> maxEventMessage + 3"
  by (simp add: SanitizeMessage_def Let_def ellipsis_def)

text \<open>The contract the callers rely on.\<close>

locale message_sink =
  fixes clean :: "string \<Rightarrow> string"
  assumes clean_bounded: "length (clean m) \<le> maxEventMessage + 3"
    and clean_printable: "list_all printable (clean m)"
begin

lemma clean_safe: "safe_message (clean m)"
  by (simp add: safe_message_def clean_bounded clean_printable)

lemma clean_no_newline: "CHR 0x0A \<notin> set (clean m) \<and> CHR 0x0D \<notin> set (clean m)"
  using clean_printable [of m] by (auto simp: list_all_iff printable_def)

end

interpretation sink: message_sink SanitizeMessage
  by unfold_locales (simp_all add: SanitizeMessage_length SanitizeMessage_printable)

text \<open>Runes that the sanitiser keeps, and messages it does not change.\<close>

lemma decode2_scalar: "decode2 a b = Some (r, w) \<Longrightarrow> is_scalar r"
  by (auto simp: decode2_def is_scalar_def is_cont_def split: if_splits)

lemma decode3_scalar:
  assumes "decode3 a b c = Some (r, w)"
  shows "is_scalar r"
proof -
  define h l m where "h = a - 0xE0" and "l = b - 0x80" and "m = c - 0x80"
  have r: "r = h * 4096 + l * 64 + m" and b: "h \<le> 15" "l \<le> 63" "m \<le> 63"
    and s: "h = 13 \<longrightarrow> l \<le> 31"
    using assms by (auto simp: decode3_def is_cont_def h_def l_def m_def split: if_splits)
  consider "h \<le> 12" | "h = 13" | "14 \<le> h" by linarith
  then show ?thesis using r b s by cases (auto simp: is_scalar_def)
qed

lemma decode4_scalar:
  assumes "decode4 a b c d = Some (r, w)"
  shows "is_scalar r"
proof -
  define h l m n where "h = a - 0xF0" and "l = b - 0x80" and "m = c - 0x80" and "n = d - 0x80"
  have r: "r = h * 262144 + l * 4096 + m * 64 + n" and b: "h \<le> 4" "l \<le> 63" "m \<le> 63" "n \<le> 63"
    and s: "h = 0 \<longrightarrow> 16 \<le> l" "h = 4 \<longrightarrow> l \<le> 15"
    using assms
    by (auto simp: decode4_def is_cont_def h_def l_def m_def n_def split: if_splits)
  consider "h = 0" | "1 \<le> h" "h \<le> 3" | "h = 4" using b by linarith
  then show ?thesis using r b s by cases (auto simp: is_scalar_def)
qed

lemma decode_seq_scalar: "decode_seq s = Some (r, w) \<Longrightarrow> is_scalar r"
  by (induction s rule: decode_seq.induct)
    (auto simp: or_else_def is_scalar_def [of "byte _"] dest: decode2_scalar decode3_scalar
      decode4_scalar split: if_splits option.splits)

lemma runes_scalar: "list_all is_scalar (runes s)"
proof (induction s rule: runes.induct)
  case (1 s)
  show ?case
  proof (cases "s = []")
    case False
    moreover have "is_scalar (fst (decode_rune s))"
      using is_scalar_rune_error
      by (auto simp: decode_rune_def dest: decode_seq_scalar split: option.splits)
    ultimately show ?thesis using "1.IH" by (simp add: runes_Cons)
  qed simp
qed

definition kept_rune :: "nat \<Rightarrow> bool" where
  "kept_rune r \<longleftrightarrow> is_scalar r \<and> \<not> (r < 0x20 \<or> r = 0x7F)"

lemma sanitize_rune_kept: "kept_rune r \<Longrightarrow> sanitize_rune r = encode_rune r"
  by (auto simp: kept_rune_def sanitize_rune_def)

lemma SanitizeMessage_kept:
  assumes "list_all kept_rune rs"
  shows "SanitizeMessage (concat (map encode_rune rs)) =
    (let m = concat (map encode_rune rs)
     in if maxEventMessage < length m then take maxEventMessage m @ ellipsis else m)"
proof -
  have "list_all is_scalar rs" using assms by (auto simp: list_all_iff kept_rune_def)
  moreover have "map sanitize_rune rs = map encode_rune rs"
    using assms by (simp add: list_all_iff sanitize_rune_kept cong: map_cong)
  ultimately show ?thesis
    unfolding SanitizeMessage_def by (simp only: runes_concat_encode)
qed

definition sanitized_runes :: "nat list \<Rightarrow> nat list" where
  "sanitized_runes rs =
    concat (map (\<lambda>r. if r = 10 \<or> r = 13 then [32, 124, 32]
      else if r < 0x20 \<or> r = 0x7F then [] else [r]) rs)"

lemma encode_scalar_ascii: "r < 0x80 \<Longrightarrow> encode_scalar r = [r]"
  by (simp add: encode_scalar_def)

lemma char_of_a: "char_of (97::nat) = CHR ''a''"
  by code_simp

lemma encode_ascii: "r < 0x80 \<Longrightarrow> encode_rune r = [char_of r]"
  by (simp add: encode_rune_def encode_scalar_def is_scalar_def)

lemma sanitize_rune_eq:
  "sanitize_rune r = concat (map encode_rune (sanitized_runes [r]))"
proof -
  have "char_of (32::nat) = CHR '' ''" "char_of (124::nat) = CHR ''|''" by code_simp+
  then show ?thesis by (auto simp: sanitize_rune_def sanitized_runes_def encode_ascii)
qed

lemma sanitized_runes_eq:
  "concat (map sanitize_rune rs) = concat (map encode_rune (sanitized_runes rs))"
proof (induction rs)
  case (Cons r rs)
  then show ?case
    using sanitize_rune_eq [of r] by (simp add: sanitized_runes_def)
qed (simp add: sanitized_runes_def)

lemma sanitized_runes_kept: "list_all is_scalar rs \<Longrightarrow> list_all kept_rune (sanitized_runes rs)"
  by (induction rs) (auto simp: sanitized_runes_def kept_rune_def is_scalar_def)

section \<open>Well-formed messages are fixed points\<close>

lemma encode_decode_seq:
  assumes "decode_seq s = Some (r, w)"
  shows "encode_rune r = take w s"
proof -
  have sc: "is_scalar r" by (rule decode_seq_scalar [OF assms])
  have "encode_scalar r = map byte (take w s)"
    using assms
    by (cases s rule: decode_seq.cases)
      (auto simp: or_else_def encode_scalar_ascii
        dest: encode_decode2 encode_decode3 encode_decode4 split: if_splits option.splits)
  with sc show ?thesis by (simp add: encode_rune_def comp_def)
qed

lemma concat_encode_runes: "valid_utf8 s \<Longrightarrow> concat (map encode_rune (runes s)) = s"
proof (induction s rule: runes.induct)
  case (1 s)
  show ?case
  proof (cases "s = []")
    case False
    with "1.prems" obtain r w where d: "decode_seq s = Some (r, w)" and v: "valid_utf8 (drop w s)"
      by (subst (asm) valid_utf8.simps) (auto split: option.splits)
    then have "decode_rune s = (r, w)" by (simp add: decode_rune_def)
    with "1.IH" [OF False] v have "concat (map encode_rune (runes (drop w s))) = drop w s" by simp
    with encode_decode_seq [OF d] \<open>decode_rune s = (r, w)\<close> show ?thesis
      by (subst runes_Cons [OF False]) simp
  qed simp
qed

lemma printable_runes_kept:
  assumes "valid_utf8 s" "list_all printable s"
  shows "list_all kept_rune (runes s)"
proof -
  have "\<not> (r < 0x20 \<or> r = 0x7F)" if "r \<in> set (runes s)" for r
  proof
    assume c: "r < 0x20 \<or> r = 0x7F"
    then have "encode_rune r = [char_of r]" by (intro encode_ascii) auto
    moreover have "set (encode_rune r) \<subseteq> set (concat (map encode_rune (runes s)))"
      using that by auto
    ultimately have "char_of r \<in> set s"
      unfolding concat_encode_runes [OF assms(1)] by simp
    then have "printable (char_of r)" using assms(2) by (auto simp: list_all_iff)
    with c show False by (auto simp: printable_def)
  qed
  then show ?thesis using runes_scalar [of s] by (auto simp: list_all_iff kept_rune_def)
qed

text \<open>Every message the operator writes into an Event or annotation is printable and short.\<close>

theorem sanitize_message_safe: "safe_message (SanitizeMessage m)"
  by (rule sink.clean_safe)

text \<open>A message that is not truncated keeps its runes in order, with line breaks turned into
  separators and other control characters dropped, and is well-formed UTF-8.\<close>

theorem sanitize_message_runes:
  assumes "length (concat (map sanitize_rune (runes m))) \<le> maxEventMessage"
  shows "runes (SanitizeMessage m) = sanitized_runes (runes m) \<and> valid_utf8 (SanitizeMessage m)"
proof -
  have "SanitizeMessage m = concat (map encode_rune (sanitized_runes (runes m)))"
    using assms by (simp add: SanitizeMessage_def Let_def sanitized_runes_eq)
  moreover have "list_all is_scalar (sanitized_runes (runes m))"
    using sanitized_runes_kept [OF runes_scalar] by (auto simp: list_all_iff kept_rune_def)
  ultimately show ?thesis by (simp add: runes_concat_encode valid_utf8_concat_encode)
qed

text \<open>Two lines with a bell between them.\<close>

definition two_lines :: string where
  "two_lines = ''ab'' @ [CHR 0x0A, CHR 0x07] @ ''c''"

lemma two_lines_runes: "runes two_lines = [97, 98, 10, 7, 99]"
proof -
  have "char_of (97::nat) = CHR ''a''" "char_of (98::nat) = CHR ''b''" "char_of (99::nat) = CHR ''c''"
    "char_of (10::nat) = CHR 0x0A" "char_of (7::nat) = CHR 0x07" by code_simp+
  then have e: "two_lines = concat (map encode_rune [97, 98, 10, 7, 99])"
    by (simp add: two_lines_def encode_ascii)
  show ?thesis
    unfolding e by (rule runes_concat_encode) (simp add: is_scalar_def)
qed

lemma two_lines_short: "length (concat (map sanitize_rune (runes two_lines))) \<le> maxEventMessage"
  by (simp add: two_lines_runes sanitize_rune_def encode_ascii maxEventMessage_def)

lemma two_lines_wellformed: "valid_utf8 (SanitizeMessage two_lines)"
proof -
  have "SanitizeMessage two_lines = concat (map encode_rune (sanitized_runes (runes two_lines)))"
    using two_lines_short by (simp add: SanitizeMessage_def Let_def sanitized_runes_eq)
  moreover have "list_all is_scalar (sanitized_runes (runes two_lines))"
    by (simp add: two_lines_runes sanitized_runes_def is_scalar_def)
  ultimately show ?thesis by (simp only: valid_utf8_concat_encode)
qed

theorem sanitize_message_runes_witness:
  "runes (SanitizeMessage two_lines) = sanitized_runes (runes two_lines) \<and> valid_utf8 (SanitizeMessage two_lines)"
  by (rule sanitize_message_runes [OF two_lines_short])

text \<open>Sanitising twice is sanitising once, as long as the result is well-formed.\<close>

theorem sanitize_message_idem:
  assumes "valid_utf8 (SanitizeMessage m)"
  shows "SanitizeMessage (SanitizeMessage m) = SanitizeMessage m"
proof -
  let ?o = "SanitizeMessage m"
  have "SanitizeMessage ?o = (if maxEventMessage < length ?o then take maxEventMessage ?o @ ellipsis else ?o)"
    using SanitizeMessage_kept [OF printable_runes_kept [OF assms SanitizeMessage_printable]]
    by (simp add: concat_encode_runes [OF assms])
  then show ?thesis
    by (auto simp: SanitizeMessage_def Let_def)
qed

theorem sanitize_message_idem_witness:
  "SanitizeMessage (SanitizeMessage two_lines) = SanitizeMessage two_lines"
  by (rule sanitize_message_idem [OF two_lines_wellformed])

definition cut_message :: string where
  "cut_message = replicate 511 CHR ''a'' @ encode_rune 0xE9"

lemma cut_message_runes: "cut_message = concat (map encode_rune (replicate 511 97 @ [0xE9]))"
proof -
  have "concat (replicate n (encode_rune 97)) = replicate n CHR ''a''" for n
    by (induction n) (simp_all add: encode_ascii char_of_a)
  then show ?thesis by (simp add: cut_message_def del: replicate.simps)
qed

lemma valid_utf8_replicate: "valid_utf8 (replicate n CHR ''a'' @ s) = valid_utf8 s"
proof (induction n)
  case (Suc n)
  have "is_scalar 97" by (simp add: is_scalar_def)
  from valid_utf8_encode_append [OF this, of "replicate n CHR ''a'' @ s"] Suc show ?case
    by (simp add: encode_ascii char_of_a)
qed simp

text \<open>C40: truncation counts bytes, so a well-formed message can come out malformed.\<close>

theorem sanitize_message_splits_rune:
  "valid_utf8 cut_message \<and> \<not> valid_utf8 (SanitizeMessage cut_message)"
proof
  show "valid_utf8 cut_message"
    by (simp only: cut_message_runes valid_utf8_concat_encode)
  have e: "encode_rune 0xE9 = [char_of (0xC3::nat), char_of (0xA9::nat)]"
    by (simp add: encode_rune_def encode_scalar_def is_scalar_def)
  have "list_all kept_rune (replicate 511 97 @ [0xE9])"
    by (simp add: list_all_iff kept_rune_def is_scalar_def)
  from SanitizeMessage_kept [OF this]
  have "SanitizeMessage cut_message =
      (if maxEventMessage < length cut_message then take maxEventMessage cut_message @ ellipsis
       else cut_message)"
    by (simp only: cut_message_runes [symmetric] Let_def)
  also have "\<dots> = replicate 511 CHR ''a'' @ [char_of (0xC3::nat)] @ ellipsis"
    by (simp add: cut_message_def e maxEventMessage_def del: replicate.simps)
  finally have o: "SanitizeMessage cut_message =
    replicate 511 CHR ''a'' @ [char_of (0xC3::nat)] @ ellipsis" .
  have "\<not> valid_utf8 ([char_of (0xC3::nat)] @ ellipsis)"
    by (subst valid_utf8.simps)
      (simp add: ellipsis_def or_else_def decode2_def decode3_def decode4_def is_cont_def)
  then show "\<not> valid_utf8 (SanitizeMessage cut_message)"
    by (simp only: o valid_utf8_replicate not_False_eq_True)
qed

end
