(* ===== verification/Errors.thy ===== *)
theory Errors
  imports Status
begin

text \<open>
  \<^verbatim>\<open>internal/haproxy/errors.go\<close>: the error values that reach the operator, the walk of
  \<^verbatim>\<open>errors.Is\<close> and \<^verbatim>\<open>errors.As\<close> along the \<^verbatim>\<open>Unwrap\<close> chain, and the
  classification that decides between suppressing a configuration and retrying it.
  The lemmas give the exact condition for a rejection and show that no failure of the
  configuration-version read can be one.
\<close>

section \<open>Error values\<close>

text \<open>
  One constructor per error type the code tells apart. \<open>Wrap\<close> is \<^verbatim>\<open>fmt.Errorf\<close> with one
  \<^verbatim>\<open>%w\<close> (text before, error, text after). \<open>URLError\<close> and \<open>OpError\<close> carry their header
  text; \<open>NetError\<close> is any other value of the interface \<^verbatim>\<open>net.Error\<close>. \<open>KubeError\<close> is an
  API-server status error with the two reasons the controller asks for.
\<close>

datatype x509_kind = CertificateInvalid | HostnameMismatch | UnknownAuthority | SystemRoots

datatype kube_reason = KNotFound | KConflict | KOther

datatype goerr =
    ErrLocalRejection
  | PlainError string
  | Wrap string goerr string
  | VersionCheckError goerr
  | APIError int string
  | URLError string "goerr option"
  | OpError string goerr
  | NetError string bool
  | DNSError string bool
  | TLSRecordHeaderError string
  | X509Error x509_kind string
  | DeadlineExceeded
  | Canceled
  | KubeError kube_reason string

fun unwrap :: "goerr \<Rightarrow> goerr option" where
  "unwrap (Wrap _ e _) = Some e"
| "unwrap (VersionCheckError e) = Some e"
| "unwrap (URLError _ e) = e"
| "unwrap (OpError _ e) = Some e"
| "unwrap _ = None"

text \<open>The \<^verbatim>\<open>Error()\<close> text.\<close>

fun error_text :: "goerr \<Rightarrow> string" where
  "error_text ErrLocalRejection = ''configuration rejected locally''"
| "error_text (PlainError t) = t"
| "error_text (Wrap p e q) = p @ error_text e @ q"
| "error_text (VersionCheckError e) = ''config version check: '' @ error_text e"
| "error_text (APIError code msg) =
     ''dataplane api error (status '' @ dec_int code @ ''): '' @ msg"
| "error_text (URLError h None) = h @ '': %!s(<nil>)''"
| "error_text (URLError h (Some e)) = h @ '': '' @ error_text e"
| "error_text (OpError h e) = h @ '': '' @ error_text e"
| "error_text (NetError t _) = t"
| "error_text (DNSError t _) = t"
| "error_text (TLSRecordHeaderError t) = t"
| "error_text (X509Error _ t) = t"
| "error_text DeadlineExceeded = ''context deadline exceeded''"
| "error_text Canceled = ''context canceled''"
| "error_text (KubeError _ t) = t"

text \<open>The error and everything it wraps, outermost first.\<close>

fun chain :: "goerr \<Rightarrow> goerr list" where
  "chain (Wrap p e q) = Wrap p e q # chain e"
| "chain (VersionCheckError e) = VersionCheckError e # chain e"
| "chain (URLError h (Some e)) = URLError h (Some e) # chain e"
| "chain (OpError h e) = OpError h e # chain e"
| "chain e = [e]"

lemma chain_unwrap:
  "chain e = e # (case unwrap e of None \<Rightarrow> [] | Some e' \<Rightarrow> chain e')"
  by (induction e rule: chain.induct) simp_all

text \<open>\<^verbatim>\<open>errors.As\<close>: the first error of the chain that has the wanted type.\<close>

definition errors_as :: "(goerr \<Rightarrow> 'a option) \<Rightarrow> goerr \<Rightarrow> 'a option" where
  "errors_as f e = (case List.map_filter f (chain e) of [] \<Rightarrow> None | x # _ \<Rightarrow> Some x)"

definition errors_is :: "goerr \<Rightarrow> goerr \<Rightarrow> bool" where
  "errors_is e target \<longleftrightarrow> target \<in> set (chain e)"

fun as_vce :: "goerr \<Rightarrow> goerr option" where
  "as_vce (VersionCheckError e) = Some e" | "as_vce _ = None"

fun as_api :: "goerr \<Rightarrow> (int \<times> string) option" where
  "as_api (APIError c m) = Some (c, m)" | "as_api _ = None"

fun as_url :: "goerr \<Rightarrow> (goerr option) option" where
  "as_url (URLError _ e) = Some e" | "as_url _ = None"

fun as_dns :: "goerr \<Rightarrow> unit option" where
  "as_dns (DNSError _ _) = Some ()" | "as_dns _ = None"

fun as_tls :: "goerr \<Rightarrow> unit option" where
  "as_tls (TLSRecordHeaderError _) = Some ()"
| "as_tls (X509Error _ _) = Some ()"
| "as_tls _ = None"

fun as_kube :: "goerr \<Rightarrow> kube_reason option" where
  "as_kube (KubeError r _) = Some r" | "as_kube _ = None"

text \<open>
  The \<^verbatim>\<open>Timeout()\<close> of an error that has the method (False stands for a missing method too,
  as the callers treat both alike), and the values of the interface \<^verbatim>\<open>net.Error\<close>.
\<close>

fun timeout_method :: "goerr \<Rightarrow> bool" where
  "timeout_method (URLError _ (Some e)) = timeout_method e"
| "timeout_method (OpError _ e) = timeout_method e"
| "timeout_method (NetError _ t) = t"
| "timeout_method (DNSError _ t) = t"
| "timeout_method DeadlineExceeded = True"
| "timeout_method _ = False"

fun as_net :: "goerr \<Rightarrow> goerr option" where
  "as_net (URLError h e) = Some (URLError h e)"
| "as_net (OpError h e) = Some (OpError h e)"
| "as_net (NetError t b) = Some (NetError t b)"
| "as_net (DNSError t b) = Some (DNSError t b)"
| "as_net DeadlineExceeded = Some DeadlineExceeded"
| "as_net _ = None"

section \<open>Classes\<close>

datatype error_class =
    ClassNone | ClassConfigRejected | ClassAuth | ClassTLS | ClassConnection | ClassConflict
  | ClassRateLimited | ClassServer | ClassUnknown

instantiation error_class :: enum
begin

definition enum_error_class :: "error_class list" where
  "enum_error_class = [ClassNone, ClassConfigRejected, ClassAuth, ClassTLS, ClassConnection,
     ClassConflict, ClassRateLimited, ClassServer, ClassUnknown]"

definition enum_all_error_class :: "(error_class \<Rightarrow> bool) \<Rightarrow> bool" where
  "enum_all_error_class P \<longleftrightarrow> list_all P Enum.enum"

definition enum_ex_error_class :: "(error_class \<Rightarrow> bool) \<Rightarrow> bool" where
  "enum_ex_error_class P \<longleftrightarrow> list_ex P Enum.enum"

instance
proof
  have all: "x \<in> set Enum.enum" for x :: error_class
    by (cases x) (simp_all add: enum_error_class_def)
  then show "(UNIV :: error_class set) = set Enum.enum" by blast
  show "distinct (Enum.enum :: error_class list)" by (simp add: enum_error_class_def)
  fix P :: "error_class \<Rightarrow> bool"
  show "Enum.enum_all P \<longleftrightarrow> Ball UNIV P"
    using all by (auto simp: enum_all_error_class_def list_all_iff)
  show "Enum.enum_ex P \<longleftrightarrow> Bex UNIV P"
    using all by (auto simp: enum_ex_error_class_def list_ex_iff)
qed

end

text \<open>The string behind the class: label value of the metrics and status annotation.\<close>

fun StatusValue :: "error_class \<Rightarrow> string" where
  "StatusValue ClassNone = ''''"
| "StatusValue ClassConfigRejected = ''ConfigRejected''"
| "StatusValue ClassAuth = ''AuthError''"
| "StatusValue ClassTLS = ''TLSConnectionError''"
| "StatusValue ClassConnection = ''ConnectionError''"
| "StatusValue ClassConflict = ''ConflictError''"
| "StatusValue ClassRateLimited = ''RateLimited''"
| "StatusValue ClassServer = ''DataplaneServerError''"
| "StatusValue ClassUnknown = ''UnknownError''"

definition Transient :: "error_class \<Rightarrow> bool" where
  "Transient c \<longleftrightarrow> c \<noteq> ClassConfigRejected"

definition classifyHTTPStatus :: "int \<Rightarrow> error_class" where
  "classifyHTTPStatus code =
    (if code = 400 \<or> code = 422 then ClassConfigRejected
     else if code = 401 \<or> code = 403 then ClassAuth
     else if code = 409 then ClassConflict
     else if code = 429 then ClassRateLimited
     else if 500 \<le> code \<and> code < 600 then ClassServer
     else ClassUnknown)"

definition isTLSError :: "goerr \<Rightarrow> bool" where
  "isTLSError e \<longleftrightarrow> errors_as as_tls e \<noteq> None
     \<or> str_contains (error_text e) ''tls:'' \<or> str_contains (error_text e) ''x509:''"

definition isTimeout :: "goerr \<Rightarrow> bool" where
  "isTimeout e \<longleftrightarrow> (case errors_as as_net e of Some n \<Rightarrow> timeout_method n | None \<Rightarrow> False)
     \<or> errors_is e DeadlineExceeded"

definition isConnRefused :: "goerr \<Rightarrow> bool" where
  "isConnRefused e \<longleftrightarrow> str_contains (error_text e) ''connection refused''"

definition isDNSError :: "goerr \<Rightarrow> bool" where
  "isDNSError e \<longleftrightarrow> errors_as as_dns e \<noteq> None"

text \<open>The checks of the transport errors, from the \<^verbatim>\<open>url.Error\<close> test to the end.\<close>

definition classify_transport :: "goerr \<Rightarrow> error_class" where
  "classify_transport e =
    (let tail =
       (if isTLSError e then ClassTLS
        else if isTimeout e \<or> isConnRefused e \<or> isDNSError e then ClassConnection
        else if errors_as as_net e \<noteq> None then ClassConnection
        else ClassUnknown)
     in case errors_as as_url e of
          Some (Some u) \<Rightarrow>
            (if isTLSError u then ClassTLS
             else if isTimeout u \<or> isConnRefused u \<or> isDNSError u then ClassConnection
             else tail)
        | _ \<Rightarrow> tail)"

lemma as_vce_smaller: "errors_as as_vce e = Some i \<Longrightarrow> size i < size e"
proof (induction e rule: chain.induct)
  case (1 p e q)
  then show ?case by (auto simp: errors_as_def split: list.splits)
next
  case (3 h e)
  then show ?case by (auto simp: errors_as_def split: list.splits)
next
  case (4 h e)
  then show ?case by (auto simp: errors_as_def split: list.splits)
qed (auto simp: errors_as_def)

function classify_err :: "goerr \<Rightarrow> error_class" where
  "classify_err e =
    (if errors_is e ErrLocalRejection then ClassConfigRejected
     else case errors_as as_vce e of
       Some i \<Rightarrow>
         (let inner = classify_err i
          in if inner = ClassConfigRejected then ClassUnknown else inner)
     | None \<Rightarrow>
         (case errors_as as_api e of
            Some (code, msg) \<Rightarrow> classifyHTTPStatus code
          | None \<Rightarrow> classify_transport e))"
  by pat_completeness auto
termination
  by (relation "measure size") (auto dest: as_vce_smaller)

declare classify_err.simps [simp del]

text \<open>\<^verbatim>\<open>Classify\<close> also takes the nil error.\<close>

definition Classify :: "goerr option \<Rightarrow> error_class" where
  "Classify e = (case e of None \<Rightarrow> ClassNone | Some e \<Rightarrow> classify_err e)"

section \<open>What is rejected\<close>

lemma errors_as_simps [simp]:
  "errors_as f (Wrap p e q) = (case f (Wrap p e q) of Some x \<Rightarrow> Some x | None \<Rightarrow> errors_as f e)"
  "errors_as f (VersionCheckError e) =
     (case f (VersionCheckError e) of Some x \<Rightarrow> Some x | None \<Rightarrow> errors_as f e)"
  "errors_as f (OpError h e) = (case f (OpError h e) of Some x \<Rightarrow> Some x | None \<Rightarrow> errors_as f e)"
  "errors_as f (URLError h (Some e)) =
     (case f (URLError h (Some e)) of Some x \<Rightarrow> Some x | None \<Rightarrow> errors_as f e)"
  "errors_as f (URLError h None) = f (URLError h None)"
  "errors_as f ErrLocalRejection = f ErrLocalRejection"
  "errors_as f (PlainError t) = f (PlainError t)"
  "errors_as f (APIError c t) = f (APIError c t)"
  "errors_as f (NetError t b) = f (NetError t b)"
  "errors_as f (DNSError t b) = f (DNSError t b)"
  "errors_as f (TLSRecordHeaderError t) = f (TLSRecordHeaderError t)"
  "errors_as f (X509Error k t) = f (X509Error k t)"
  "errors_as f DeadlineExceeded = f DeadlineExceeded"
  "errors_as f Canceled = f Canceled"
  "errors_as f (KubeError r t) = f (KubeError r t)"
  by (simp_all add: errors_as_def split: option.split)

lemma errors_is_simps [simp]:
  "errors_is (Wrap p e q) t \<longleftrightarrow> t = Wrap p e q \<or> errors_is e t"
  "errors_is (VersionCheckError e) t \<longleftrightarrow> t = VersionCheckError e \<or> errors_is e t"
  "errors_is (OpError h e) t \<longleftrightarrow> t = OpError h e \<or> errors_is e t"
  "errors_is (URLError h (Some e)) t \<longleftrightarrow> t = URLError h (Some e) \<or> errors_is e t"
  "errors_is (URLError h None) t \<longleftrightarrow> t = URLError h None"
  "errors_is ErrLocalRejection t \<longleftrightarrow> t = ErrLocalRejection"
  "errors_is (PlainError x) t \<longleftrightarrow> t = PlainError x"
  "errors_is (APIError c x) t \<longleftrightarrow> t = APIError c x"
  "errors_is (NetError x b) t \<longleftrightarrow> t = NetError x b"
  "errors_is (DNSError x b) t \<longleftrightarrow> t = DNSError x b"
  "errors_is (TLSRecordHeaderError x) t \<longleftrightarrow> t = TLSRecordHeaderError x"
  "errors_is (X509Error k x) t \<longleftrightarrow> t = X509Error k x"
  "errors_is DeadlineExceeded t \<longleftrightarrow> t = DeadlineExceeded"
  "errors_is Canceled t \<longleftrightarrow> t = Canceled"
  "errors_is (KubeError r x) t \<longleftrightarrow> t = KubeError r x"
  by (auto simp: errors_is_def)

lemma classify_transport_not_rejected: "classify_transport e \<noteq> ClassConfigRejected"
  by (simp add: classify_transport_def Let_def split: option.split)

lemma classifyHTTPStatus_rejected_iff:
  "classifyHTTPStatus code = ClassConfigRejected \<longleftrightarrow> code = 400 \<or> code = 422"
  by (simp add: classifyHTTPStatus_def)

definition rejecting_status :: "goerr \<Rightarrow> bool" where
  "rejecting_status e \<longleftrightarrow>
     (case errors_as as_api e of Some (code, msg) \<Rightarrow> code = 400 \<or> code = 422 | None \<Rightarrow> False)"

lemma classify_err_rejected_iff:
  "classify_err e = ClassConfigRejected \<longleftrightarrow>
     errors_is e ErrLocalRejection \<or> errors_as as_vce e = None \<and> rejecting_status e"
  by (simp add: rejecting_status_def classify_err.simps [of e] Let_def
      classify_transport_not_rejected classifyHTTPStatus_rejected_iff split: option.split)

text \<open>C23: an error is a deterministic rejection exactly when it wraps the local rejection, or its
  first API error is a 400 or 422 and no failed version read is inside.\<close>

theorem classify_rejected_iff:
  "Classify (Some e) = ClassConfigRejected \<longleftrightarrow>
     errors_is e ErrLocalRejection \<or> errors_as as_vce e = None \<and> rejecting_status e"
  by (simp add: Classify_def classify_err_rejected_iff)

text \<open>A failed version read never suppresses a configuration, whatever it wraps and however
  it is wrapped, as long as no local rejection is inside; otherwise it keeps its own class.\<close>

theorem classify_version_check:
  assumes "errors_as as_vce e = Some i" "\<not> errors_is e ErrLocalRejection"
  shows "Classify (Some e) =
    (if Classify (Some i) = ClassConfigRejected then ClassUnknown else Classify (Some i))"
  using assms by (simp add: Classify_def classify_err.simps [of e] Let_def)

theorem classify_version_check_witness:
  "Classify (Some (Wrap ''apply: '' (VersionCheckError (APIError 400 ''x'')) [])) = ClassUnknown"
  using classify_version_check
      [of "Wrap ''apply: '' (VersionCheckError (APIError 400 ''x'')) []" "APIError 400 ''x''"]
  by (simp add: Classify_def classify_err.simps [of "APIError 400 ''x''"] classifyHTTPStatus_def)

text \<open>Wrapping with fmt.Errorf never turns a retryable error into a rejection or back.\<close>

theorem classify_wrap_transient:
  "Transient (Classify (Some (Wrap p e q))) = Transient (Classify (Some e))"
  by (simp add: Transient_def Classify_def classify_err_rejected_iff rejecting_status_def)

text \<open>An HTTP answer is classified by its status code alone; only 400 and 422 are final.\<close>

theorem classify_api_error:
  "Classify (Some (APIError code msg)) = classifyHTTPStatus code
   \<and> Transient (Classify (Some (APIError code msg))) = (code \<notin> {400, 422})"
  by (simp add: Classify_def classify_err.simps [of "APIError code msg"] Transient_def
      classifyHTTPStatus_rejected_iff)

end
