(* ===== verification/World.thy ===== *)
theory World
  imports Errors Url
begin

text \<open>
  The state the operator runs in and the effects it has. Everything outside the repository is a
  field of \<open>ext\<close>: the HTTP transport and the gateway behind it, the Kubernetes API server, the
  clock, the mounted files, SPIRE, PEM and X.509 parsing. A call takes the environment's state
  and returns its answer and the next state, so a theorem that quantifies over \<open>ext\<close> holds for
  every behaviour of the gateway and of the API server. Every call is appended to a trace.
\<close>

section \<open>Objects\<close>

text \<open>The parts of a Kubernetes Secret the operator reads or writes. A nil map is \<open>None\<close>.\<close>

record secret =
  s_namespace :: string
  s_name :: string
  s_version :: string
  s_labels :: "string gomap"
  s_annotations :: "string gomap"
  s_data :: "bytes gomap"

abbreviation annotation :: "secret \<Rightarrow> string \<Rightarrow> string" where
  "annotation s k \<equiv> go_get (s_annotations s) k"

type_synonym object_key = "string \<times> string"

definition key_of :: "secret \<Rightarrow> object_key" where
  "key_of s = (s_namespace s, s_name s)"

record http_request =
  rq_method :: string
  rq_url :: url
  rq_content_type :: string
  rq_auth :: "(string \<times> string) option"
  rq_body :: "bytes option"

text \<open>A response: status, the body bytes that arrive, the error that ends the body early if any,
  and the expiry of the leaf certificate when the connection was TLS.\<close>

record http_response =
  rs_status :: int
  rs_body :: bytes
  rs_read_error :: "goerr option"
  rs_leaf :: "int option"

type_synonym http_outcome = "goerr + http_response"

record api_config =
  BaseURL :: string
  Insecure :: bool
  CACertPath :: string
  ClientCertPath :: string
  ClientKeyPath :: string
  Username :: string
  Password :: string

text \<open>What the code reads of a parsed certificate, with the bytes it came from.\<close>

record x509_certificate =
  cert_raw :: bytes
  cert_serial :: string
  cert_not_after :: int

section \<open>The environment\<close>

record 'e ext =
  x_http :: "http_request \<Rightarrow> 'e \<Rightarrow> http_outcome \<times> nat \<times> 'e"
  x_new_request :: "http_request \<Rightarrow> goerr option"
  x_wait :: "nat \<Rightarrow> 'e \<Rightarrow> goerr option \<times> nat \<times> 'e"
  x_get :: "object_key \<Rightarrow> 'e \<Rightarrow> (goerr + secret) \<times> 'e"
  x_patch :: "secret \<Rightarrow> secret \<Rightarrow> 'e \<Rightarrow> (goerr + secret) \<times> 'e"
  x_format_time :: "nat \<Rightarrow> string"
  x_url_parse :: "string \<Rightarrow> goerr + url"
  x_read_file :: "string \<Rightarrow> 'e \<Rightarrow> (goerr + bytes) \<times> 'e"
  x_has_certs :: "bytes \<Rightarrow> bool"
  x_load_pair :: "string \<Rightarrow> string \<Rightarrow> 'e \<Rightarrow> goerr option \<times> 'e"
  x_spire_source :: "string \<Rightarrow> 'e \<Rightarrow> goerr option \<times> 'e"
  x_pem_decode :: "bytes \<Rightarrow> (string \<times> bytes \<times> bytes) option"
  x_parse_cert :: "bytes \<Rightarrow> goerr + x509_certificate"
  x_boundary :: "'e \<Rightarrow> string \<times> 'e"
  x_json_text :: "bytes \<Rightarrow> string"

section \<open>The operator's own state\<close>

text \<open>How the client checks the server: the default transport, a TLS transport with its three
  settings, or the transport the SPIRE integration supplies.\<close>

datatype transport =
    DefaultTransport
  | HTTPTransport (skip_verify: bool) (verify_peer: bool) (client_cert: bool)
  | SpireTransport

record client =
  c_config :: api_config
  c_base :: url
  c_transport :: transport

record reconciler =
  haproxyClient :: "client option"
  spireSource :: bool
  transientFailures :: int
  lastDesiredHash :: string
  lastMetricHash :: string
  lastMetricState :: string
  certSyncHashes :: "(string, string) fmap"

record metrics =
  ReconcileAttempts :: "string \<Rightarrow> nat"
  ReconcileResults :: "string \<Rightarrow> nat"
  TransientErrors :: "string \<Rightarrow> nat"
  ConfigHash :: "(string \<times> string, int) fmap"
  LastSuccessfulApply :: nat
  ServerCertExpiry :: "(string, int) fmap"
  ClientCertExpiry :: int
  ConfigDrift :: "string \<Rightarrow> nat"
  ConfigInSync :: "(string, int) fmap"
  DataplaneInsecure :: int

text \<open>The zero values the operator starts with.\<close>

definition initial_reconciler :: reconciler where
  "initial_reconciler = \<lparr>haproxyClient = None, spireSource = False, transientFailures = 0,
     lastDesiredHash = [], lastMetricHash = [], lastMetricState = [], certSyncHashes = fmempty\<rparr>"

definition initial_metrics :: metrics where
  "initial_metrics = \<lparr>ReconcileAttempts = (\<lambda>_. 0), ReconcileResults = (\<lambda>_. 0),
     TransientErrors = (\<lambda>_. 0), ConfigHash = fmempty, LastSuccessfulApply = 0,
     ServerCertExpiry = fmempty, ClientCertExpiry = 0, ConfigDrift = (\<lambda>_. 0), ConfigInSync = fmempty,
     DataplaneInsecure = 0\<rparr>"

definition inc :: "string \<Rightarrow> (string \<Rightarrow> nat) \<Rightarrow> string \<Rightarrow> nat" where
  "inc k f = f(k := Suc (f k))"

datatype effect =
    HttpCall http_request http_outcome
  | KubeGet object_key "goerr + secret"
  | KubePatch secret secret "goerr + secret"
  | Recorded event

record 'e world =
  w_env :: 'e
  w_now :: nat
  w_trace :: "effect list"
  w_metrics :: metrics
  w_rec :: reconciler

definition initial_world :: "'e \<Rightarrow> 'e world" where
  "initial_world e = \<lparr>w_env = e, w_now = 0, w_trace = [], w_metrics = initial_metrics,
     w_rec = initial_reconciler\<rparr>"

type_synonym ('e, 'a) go = "('e world, 'a) state"

section \<open>Calls\<close>

abbreviation ret :: "'a \<Rightarrow> ('e, 'a) go" where
  "ret \<equiv> State_Monad.return"

definition gets :: "('e world \<Rightarrow> 'a) \<Rightarrow> ('e, 'a) go" where
  "gets f = State (\<lambda>w. (f w, w))"

definition modify_rec :: "(reconciler \<Rightarrow> reconciler) \<Rightarrow> ('e, unit) go" where
  "modify_rec f = State (\<lambda>w. ((), w\<lparr>w_rec := f (w_rec w)\<rparr>))"

definition modify_metrics :: "(metrics \<Rightarrow> metrics) \<Rightarrow> ('e, unit) go" where
  "modify_metrics f = State (\<lambda>w. ((), w\<lparr>w_metrics := f (w_metrics w)\<rparr>))"

definition do_http :: "'e ext \<Rightarrow> http_request \<Rightarrow> ('e, http_outcome) go" where
  "do_http x rq = State (\<lambda>w.
    case x_http x rq (w_env w) of (out, dt, e) \<Rightarrow>
      (out, w\<lparr>w_env := e, w_now := w_now w + dt, w_trace := w_trace w @ [HttpCall rq out]\<rparr>))"

text \<open>\<^verbatim>\<open>select\<close> between the context's end and a timer: the timer never fires early.\<close>

definition select_after :: "'e ext \<Rightarrow> nat \<Rightarrow> ('e, goerr option) go" where
  "select_after x d = State (\<lambda>w.
    case x_wait x d (w_env w) of (done, dt, e) \<Rightarrow>
      (done, w\<lparr>w_env := e, w_now := w_now w + (case done of None \<Rightarrow> d + dt | Some _ \<Rightarrow> dt)\<rparr>))"

definition kube_get :: "'e ext \<Rightarrow> object_key \<Rightarrow> ('e, goerr + secret) go" where
  "kube_get x k = State (\<lambda>w.
    case x_get x k (w_env w) of (r, e) \<Rightarrow>
      (r, w\<lparr>w_env := e, w_trace := w_trace w @ [KubeGet k r]\<rparr>))"

definition kube_patch :: "'e ext \<Rightarrow> secret \<Rightarrow> secret \<Rightarrow> ('e, goerr + secret) go" where
  "kube_patch x orig new = State (\<lambda>w.
    case x_patch x orig new (w_env w) of (r, e) \<Rightarrow>
      (r, w\<lparr>w_env := e, w_trace := w_trace w @ [KubePatch orig new r]\<rparr>))"

definition emit :: "bool \<Rightarrow> object_key \<Rightarrow> string \<Rightarrow> string \<Rightarrow> ('e, unit) go" where
  "emit recorder obj reason message = State (\<lambda>w.
    ((), case EmitEvent recorder obj reason message of
           None \<Rightarrow> w
         | Some ev \<Rightarrow> w\<lparr>w_trace := w_trace w @ [Recorded ev]\<rparr>))"

text \<open>A call into the environment that leaves no entry in the trace (files, SPIRE, randomness).\<close>

definition env_call :: "('e \<Rightarrow> 'a \<times> 'e) \<Rightarrow> ('e, 'a) go" where
  "env_call f = State (\<lambda>w. case f (w_env w) of (a, e) \<Rightarrow> (a, w\<lparr>w_env := e\<rparr>))"

lemma run_simps [simp]:
  "run_state (gets f) w = (f w, w)"
  "run_state (modify_rec g) w = ((), w\<lparr>w_rec := g (w_rec w)\<rparr>)"
  "run_state (modify_metrics h) w = ((), w\<lparr>w_metrics := h (w_metrics w)\<rparr>)"
  by (simp_all add: gets_def modify_rec_def modify_metrics_def)

section \<open>Reasoning about calls\<close>

definition wp :: "('s, 'a) state \<Rightarrow> ('a \<Rightarrow> 's \<Rightarrow> bool) \<Rightarrow> 's \<Rightarrow> bool" where
  "wp m Q s = (case run_state m s of (a, s') \<Rightarrow> Q a s')"

lemma wp_bind [simp]: "wp (State_Monad.bind m f) Q s = wp m (\<lambda>a. wp (f a) Q) s"
  by (simp add: wp_def split: prod.split)

lemma wp_return [simp]: "wp (State_Monad.return a) Q s = Q a s"
  by (simp add: wp_def)

lemma wp_gets [simp]: "wp (gets f) Q w = Q (f w) w"
  by (simp add: wp_def gets_def)

lemma wp_modify_rec [simp]: "wp (modify_rec f) Q w = Q () (w\<lparr>w_rec := f (w_rec w)\<rparr>)"
  by (simp add: wp_def modify_rec_def)

lemma wp_modify_metrics [simp]:
  "wp (modify_metrics f) Q w = Q () (w\<lparr>w_metrics := f (w_metrics w)\<rparr>)"
  by (simp add: wp_def modify_metrics_def)

lemma wp_mono: "wp m P s \<Longrightarrow> (\<And>a s'. P a s' \<Longrightarrow> Q a s') \<Longrightarrow> wp m Q s"
  by (auto simp: wp_def split: prod.splits)

lemma wp_run: "wp m Q s = Q (fst (run_state m s)) (snd (run_state m s))"
  by (simp add: wp_def split: prod.split)

text \<open>A relation between the world before and after, for every result: how a component is
  summarised for its callers.\<close>

definition rel :: "('e world \<Rightarrow> 'e world \<Rightarrow> bool) \<Rightarrow> ('e, 'a) go \<Rightarrow> bool" where
  "rel R m \<longleftrightarrow> (\<forall>w. R w (snd (run_state m w)))"

lemma relD: "rel R m \<Longrightarrow> R w (snd (run_state m w))"
  by (simp add: rel_def)

lemma rel_wp: "rel R m \<longleftrightarrow> (\<forall>w. wp m (\<lambda>_. R w) w)"
  by (simp add: rel_def wp_run)

lemma wp_rel: "rel R m \<Longrightarrow> (\<And>a w'. R w w' \<Longrightarrow> Q a w') \<Longrightarrow> wp m Q w"
  by (simp add: rel_def wp_run)

text \<open>The shape every summary has: reflexive, transitive, and kept by each call the component
  makes. The lemmas push it through the control structure of the code.\<close>

locale world_rel =
  fixes R :: "'e world \<Rightarrow> 'e world \<Rightarrow> bool"
  assumes R_refl: "R w w"
    and R_trans: "R a b \<Longrightarrow> R b c \<Longrightarrow> R a c"
begin

lemma rel_return: "rel R (State_Monad.return a)"
  by (simp add: rel_def R_refl)

lemma rel_gets: "rel R (gets f)"
  by (simp add: rel_def gets_def R_refl)

lemma rel_bind: "rel R m \<Longrightarrow> (\<And>a. rel R (f a)) \<Longrightarrow> rel R (State_Monad.bind m f)"
  unfolding rel_wp wp_bind
proof (intro allI)
  fix w
  assume m: "\<forall>w. wp m (\<lambda>_. R w) w" and f: "\<And>a. \<forall>w. wp (f a) (\<lambda>_. R w) w"
  from m have "wp m (\<lambda>_. R w) w" by blast
  then show "wp m (\<lambda>a. wp (f a) (\<lambda>_. R w)) w"
  proof (rule wp_mono)
    fix a w'
    assume "R w w'"
    moreover have "wp (f a) (\<lambda>_. R w') w'" using f by blast
    ultimately show "wp (f a) (\<lambda>_. R w) w'" by (blast intro: wp_mono R_trans)
  qed
qed

lemma rel_if: "(b \<Longrightarrow> rel R m) \<Longrightarrow> (\<not> b \<Longrightarrow> rel R n) \<Longrightarrow> rel R (if b then m else n)"
  by simp

lemma rel_option:
  "(v = None \<Longrightarrow> rel R m) \<Longrightarrow> (\<And>a. v = Some a \<Longrightarrow> rel R (f a)) \<Longrightarrow> rel R (case v of None \<Rightarrow> m | Some a \<Rightarrow> f a)"
  by (cases v) simp_all

lemma rel_sum:
  "(\<And>e. v = Inl e \<Longrightarrow> rel R (f e)) \<Longrightarrow> (\<And>a. v = Inr a \<Longrightarrow> rel R (g a)) \<Longrightarrow>
   rel R (case v of Inl e \<Rightarrow> f e | Inr a \<Rightarrow> g a)"
  by (cases v) simp_all

lemma rel_prod: "(\<And>a b. v = (a, b) \<Longrightarrow> rel R (f a b)) \<Longrightarrow> rel R (case v of (a, b) \<Rightarrow> f a b)"
  by (cases v) simp

lemma rel_let: "rel R (f v) \<Longrightarrow> rel R (let a = v in f a)"
  by simp

lemmas rel_control = rel_return rel_gets rel_bind rel_if rel_option rel_sum rel_prod rel_let

end

section \<open>Summaries\<close>

text \<open>
  \<open>calls P\<close> is what the gateway client may do: append effects that satisfy \<open>P\<close>, let time pass,
  move the environment and the expiry gauge, and leave the reconciler alone. \<open>emits P\<close> is the
  weaker summary of the reconciler's own operations.
\<close>

definition emits :: "(effect \<Rightarrow> bool) \<Rightarrow> 'e world \<Rightarrow> 'e world \<Rightarrow> bool" where
  "emits P w w' \<longleftrightarrow> (\<exists>es. w_trace w' = w_trace w @ es \<and> list_all P es)"

definition calls :: "(effect \<Rightarrow> bool) \<Rightarrow> 'e world \<Rightarrow> 'e world \<Rightarrow> bool" where
  "calls P w w' \<longleftrightarrow> emits P w w' \<and> w_rec w' = w_rec w \<and> w_now w \<le> w_now w'
     \<and> (w_metrics w')\<lparr>ServerCertExpiry := ServerCertExpiry (w_metrics w)\<rparr> = w_metrics w"

text \<open>An effect that is a request of some kind, and one that is a request with an answer.\<close>

definition sends :: "(http_request \<Rightarrow> bool) \<Rightarrow> effect \<Rightarrow> bool" where
  "sends P e = (case e of HttpCall rq _ \<Rightarrow> P rq | _ \<Rightarrow> False)"

definition answered :: "(http_request \<Rightarrow> bool) \<Rightarrow> (int \<Rightarrow> bool) \<Rightarrow> effect \<Rightarrow> bool" where
  "answered P Q e =
    (case e of HttpCall rq out \<Rightarrow> (case out of Inr resp \<Rightarrow> P rq \<and> Q (rs_status resp) | Inl _ \<Rightarrow> False)
     | _ \<Rightarrow> False)"

lemma sends_simps [simp]:
  "sends P (HttpCall rq out) = P rq" "\<not> sends P (KubeGet k r)" "\<not> sends P (KubePatch a b rr)"
  "\<not> sends P (Recorded ev)"
  by (simp_all add: sends_def)

lemma answered_simps [simp]:
  "answered P Q (HttpCall rq (Inr resp)) = (P rq \<and> Q (rs_status resp))"
  "\<not> answered P Q (HttpCall rq (Inl err))" "\<not> answered P Q (KubeGet k r)"
  "\<not> answered P Q (KubePatch a b rr)" "\<not> answered P Q (Recorded ev)"
  by (simp_all add: answered_def)

lemma answered_sends: "answered P Q e \<Longrightarrow> sends P e"
  by (auto simp: answered_def sends_def split: effect.splits sum.splits)

lemma emits_refl: "emits P w w"
  by (simp add: emits_def)

lemma emits_trans: "emits P a b \<Longrightarrow> emits P b c \<Longrightarrow> emits P a c"
  by (auto simp: emits_def)

lemma emits_mono: "emits P w w' \<Longrightarrow> (\<And>e. P e \<Longrightarrow> Q e) \<Longrightarrow> emits Q w w'"
  by (auto simp: emits_def list_all_iff)

interpretation emits: world_rel "emits P" for P
  by unfold_locales (auto intro: emits_refl emits_trans)

interpretation calls: world_rel "calls P" for P
proof unfold_locales
  fix a b c :: "'a world"
  show "calls P a a" by (simp add: calls_def emits_refl)
  assume ab: "calls P a b" and bc: "calls P b c"
  have "(w_metrics c)\<lparr>ServerCertExpiry := ServerCertExpiry (w_metrics a)\<rparr> =
      ((w_metrics c)\<lparr>ServerCertExpiry := ServerCertExpiry (w_metrics b)\<rparr>)
        \<lparr>ServerCertExpiry := ServerCertExpiry (w_metrics a)\<rparr>" by simp
  with ab bc show "calls P a c"
    by (auto simp: calls_def intro: emits_trans simp del: metrics.update_convs)
qed

lemma calls_emits: "calls P w w' \<Longrightarrow> emits P w w'"
  by (simp add: calls_def)

lemma calls_mono: "calls P w w' \<Longrightarrow> (\<And>e. P e \<Longrightarrow> Q e) \<Longrightarrow> calls Q w w'"
  by (auto simp: calls_def intro: emits_mono)

lemma rel_mono: "rel R m \<Longrightarrow> (\<And>w w'. R w w' \<Longrightarrow> S w w') \<Longrightarrow> rel S m"
  by (auto simp: rel_def)

lemma rel_calls_emits: "rel (calls P) m \<Longrightarrow> rel (emits P) m"
  by (auto simp: rel_def calls_def)

lemma rel_calls_mono: "rel (calls P) m \<Longrightarrow> (\<And>e. P e \<Longrightarrow> Q e) \<Longrightarrow> rel (calls Q) m"
  by (erule rel_mono) (blast intro: calls_mono)

lemma do_http_calls: "(\<And>out. P (HttpCall rq out)) \<Longrightarrow> rel (calls P) (do_http x rq)"
  by (auto simp: rel_def do_http_def calls_def emits_def split: prod.splits)

lemma select_after_calls: "rel (calls P) (select_after x d)"
  by (auto simp: rel_def select_after_def calls_def emits_def split: prod.splits option.splits)

lemma env_call_calls: "rel (calls P) (env_call f)"
  by (auto simp: rel_def env_call_def calls_def emits_def split: prod.splits)

lemma kube_get_emits: "(\<And>r. P (KubeGet k r)) \<Longrightarrow> rel (emits P) (kube_get x k)"
  by (auto simp: rel_def kube_get_def emits_def split: prod.splits)

lemma kube_patch_emits: "(\<And>r. P (KubePatch a b r)) \<Longrightarrow> rel (emits P) (kube_patch x a b)"
  by (auto simp: rel_def kube_patch_def emits_def split: prod.splits)

lemma emit_emits: "(\<And>ev. EmitEvent rc obj reason m = Some ev \<Longrightarrow> P (Recorded ev)) \<Longrightarrow> rel (emits P) (emit rc obj reason m)"
  by (auto simp: rel_def emit_def emits_def split: option.splits)

lemma modify_rec_emits: "rel (emits P) (modify_rec f)"
  by (auto simp: rel_def modify_rec_def emits_def)

lemma modify_metrics_emits: "rel (emits P) (modify_metrics f)"
  by (auto simp: rel_def modify_metrics_def emits_def)

lemmas effect_emits = kube_get_emits kube_patch_emits emit_emits modify_rec_emits modify_metrics_emits

end
