(* ===== verification/Json.thy ===== *)
theory Json
  imports Utf8 "HOL-Library.List_Lexorder" "HOL-Library.Char_ord"
begin

text \<open>
  What the operator uses of \<^verbatim>\<open>encoding/json\<close>: a parser of one JSON value with the
  package's grammar, nesting limit and treatment of malformed UTF-8; decoding into an int, into
  the metadata of a stored certificate and into string fields of a struct; and the encoding of
  strings with HTML escaping. Errors are \<open>None\<close>: their texts are not modelled.
\<close>

section \<open>Lexing\<close>

definition is_ws :: "char \<Rightarrow> bool" where
  "is_ws c \<longleftrightarrow> c \<in> {CHR '' '', CHR 0x09, CHR 0x0A, CHR 0x0D}"

definition skip_ws :: "string \<Rightarrow> string" where
  "skip_ws s = dropWhile is_ws s"

definition is_digit :: "char \<Rightarrow> bool" where
  "is_digit c \<longleftrightarrow> 48 \<le> byte c \<and> byte c \<le> 57"

definition is_hex_char :: "char \<Rightarrow> bool" where
  "is_hex_char c \<longleftrightarrow> is_digit c \<or> (97 \<le> byte c \<and> byte c \<le> 102) \<or> (65 \<le> byte c \<and> byte c \<le> 70)"

text \<open>The raw text of a string literal up to its closing quote.\<close>

fun scan_string :: "string \<Rightarrow> (string \<times> string) option" where
  "scan_string [] = None"
| "scan_string (c # s) =
    (if c = CHR 0x22 then Some ([], s)
     else if c = CHR 0x5C then
       (case s of
          [] \<Rightarrow> None
        | e # s1 \<Rightarrow>
            (if e \<in> set ''bfnrt/'' \<or> e = CHR 0x5C \<or> e = CHR 0x22 then
               map_option (map_prod (\<lambda>r. c # e # r) id) (scan_string s1)
             else if e = CHR ''u'' then
               (case s1 of
                  h1 # h2 # h3 # h4 # s2 \<Rightarrow>
                    (if list_all is_hex_char [h1, h2, h3, h4] then
                       map_option (map_prod (\<lambda>r. c # e # h1 # h2 # h3 # h4 # r) id) (scan_string s2)
                     else None)
                | _ \<Rightarrow> None)
             else None))
     else if byte c < 0x20 then None
     else map_option (map_prod (Cons c) id) (scan_string s))"

definition hex_val :: "char \<Rightarrow> nat" where
  "hex_val c = (let b = byte c in
     if b \<le> 57 then b - 48 else if b \<le> 70 then b - 55 else b - 87)"

definition hex4 :: "string \<Rightarrow> nat" where
  "hex4 hs = foldl (\<lambda>n h. n * 16 + hex_val h) 0 hs"

definition escape_rune :: "char \<Rightarrow> nat" where
  "escape_rune e =
    (if e = CHR ''b'' then 8 else if e = CHR ''f'' then 12 else if e = CHR ''n'' then 10
     else if e = CHR ''r'' then 13 else if e = CHR ''t'' then 9 else byte e)"

text \<open>The runes of a string literal; a lone surrogate is U+FFFD.\<close>

definition is_high :: "nat \<Rightarrow> bool" where "is_high r \<longleftrightarrow> 0xD800 \<le> r \<and> r < 0xDC00"
definition is_low :: "nat \<Rightarrow> bool" where "is_low r \<longleftrightarrow> 0xDC00 \<le> r \<and> r < 0xE000"

definition low_escape :: "string \<Rightarrow> nat option" where
  "low_escape s =
    (case s of
       b # u # h1 # h2 # h3 # h4 # _ \<Rightarrow>
         (if b = CHR 0x5C \<and> u = CHR ''u'' \<and> is_low (hex4 [h1, h2, h3, h4])
          then Some (hex4 [h1, h2, h3, h4]) else None)
     | _ \<Rightarrow> None)"

definition next_rune :: "string \<Rightarrow> nat \<times> nat" where
  "next_rune s =
    (if s = [] then (rune_error, 1)
     else if hd s = CHR 0x5C then
       (case tl s of
          [] \<Rightarrow> (rune_error, 1)
        | e # s1 \<Rightarrow>
            (if e = CHR ''u'' then
               (let r = hex4 (take 4 s1) in
                if is_high r then
                  (case low_escape (drop 4 s1) of
                     Some l \<Rightarrow> (0x10000 + (r - 0xD800) * 0x400 + (l - 0xDC00), 12)
                   | None \<Rightarrow> (rune_error, 6))
                else if is_low r then (rune_error, 6) else (r, 6))
             else (escape_rune e, 2)))
     else decode_rune s)"

function unquote_runes :: "string \<Rightarrow> nat list" where
  "unquote_runes s =
    (if s = [] then [] else fst (next_rune s) # unquote_runes (drop (max 1 (snd (next_rune s))) s))"
  by pat_completeness auto
termination
  by (relation "measure length") auto

declare unquote_runes.simps [simp del]

definition unquote :: "string \<Rightarrow> string" where
  "unquote raw = concat (map encode_rune (unquote_runes raw))"

text \<open>A number: optional minus, integer part without leading zeros, fraction, exponent.\<close>

definition take_digits :: "string \<Rightarrow> string \<times> string" where
  "take_digits s = (takeWhile is_digit s, dropWhile is_digit s)"

definition scan_int :: "string \<Rightarrow> (string \<times> string) option" where
  "scan_int s =
    (case s of
       [] \<Rightarrow> None
     | c # s' \<Rightarrow>
         (if c = CHR ''0'' then Some ([c], s')
          else if is_digit c then Some (take_digits s)
          else None))"

definition scan_frac :: "string \<Rightarrow> (string \<times> string) option" where
  "scan_frac s =
    (case s of
       c # s' \<Rightarrow>
         (if c = CHR ''.'' then
            (case take_digits s' of (ds, r) \<Rightarrow> if ds = [] then None else Some (c # ds, r))
          else Some ([], s))
     | [] \<Rightarrow> Some ([], []))"

definition scan_exp :: "string \<Rightarrow> (string \<times> string) option" where
  "scan_exp s =
    (case s of
       c # s' \<Rightarrow>
         (if c = CHR ''e'' \<or> c = CHR ''E'' then
            (let (sg, s1) = (case s' of
                 d # s2 \<Rightarrow> if d = CHR ''+'' \<or> d = CHR ''-'' then ([d], s2) else ([], s')
               | [] \<Rightarrow> ([], []));
                 (ds, r) = take_digits s1
             in if ds = [] then None else Some (c # sg @ ds, r))
          else Some ([], s))
     | [] \<Rightarrow> Some ([], []))"

definition scan_number :: "string \<Rightarrow> (string \<times> string) option" where
  "scan_number s =
    (let (sg, s0) = (case s of
         c # s' \<Rightarrow> if c = CHR ''-'' then ([c], s') else ([], s)
       | [] \<Rightarrow> ([], []))
     in case scan_int s0 of
          None \<Rightarrow> None
        | Some (i, s1) \<Rightarrow>
            (case scan_frac s1 of
               None \<Rightarrow> None
             | Some (f, s2) \<Rightarrow>
                 (case scan_exp s2 of
                    None \<Rightarrow> None
                  | Some (e, s3) \<Rightarrow> Some (sg @ i @ f @ e, s3))))"

section \<open>Values\<close>

datatype json =
    JNull
  | JBool bool
  | JNum string
  | JStr string
  | JArr "json list"
  | JObj "(string \<times> json) list"

definition maxNestingDepth :: nat where "maxNestingDepth = 10000"

text \<open>
  One value at the front of the input (white space skipped), and the rest. The first argument is
  fuel, one unit per call; the second the nesting still allowed.
\<close>

definition keep :: "('a \<Rightarrow> 'b) \<Rightarrow> ('a \<times> string) option \<Rightarrow> ('b \<times> string) option" where
  "keep f r = map_option (map_prod f id) r"

text \<open>After an element: the closing character ends the sequence, a comma continues it.\<close>

definition after_item :: "char \<Rightarrow> 'a \<Rightarrow> (string \<Rightarrow> ('a list \<times> string) option) \<Rightarrow> string \<Rightarrow> ('a list \<times> string) option" where
  "after_item close v more s =
    (case skip_ws s of
       [] \<Rightarrow> None
     | c # s2 \<Rightarrow>
         (if c = close then Some ([v], s2)
          else if c = CHR '','' then keep (Cons v) (more s2)
          else None))"

text \<open>A bracketed sequence, whose opening character is already read: empty, or items.\<close>

definition bracketed :: "char \<Rightarrow> ('a list \<Rightarrow> json) \<Rightarrow> nat \<Rightarrow> (string \<Rightarrow> ('a list \<times> string) option) \<Rightarrow> string \<Rightarrow> (json \<times> string) option" where
  "bracketed close f d items s =
    (if d = 0 then None
     else (case skip_ws s of
       [] \<Rightarrow> None
     | c # r \<Rightarrow> if c = close then Some (f [], r) else keep f (items s)))"

definition scalar_value :: "string \<Rightarrow> (json \<times> string) option" where
  "scalar_value s =
    (if has_prefix s ''null'' then Some (JNull, drop 4 s)
     else if has_prefix s ''true'' then Some (JBool True, drop 4 s)
     else if has_prefix s ''false'' then Some (JBool False, drop 5 s)
     else if hd s = CHR 0x22 then keep (\<lambda>raw. JStr (unquote raw)) (scan_string (tl s))
     else keep JNum (scan_number s))"

text \<open>The name of a member and what follows its colon.\<close>

definition member_name :: "string \<Rightarrow> (string \<times> string) option" where
  "member_name s =
    (case skip_ws s of
       [] \<Rightarrow> None
     | q # s0 \<Rightarrow>
         (if q \<noteq> CHR 0x22 then None
          else (case scan_string s0 of
             None \<Rightarrow> None
           | Some (raw, s1) \<Rightarrow>
               (case skip_ws s1 of
                  [] \<Rightarrow> None
                | c # s2 \<Rightarrow> if c = CHR '':'' then Some (unquote raw, s2) else None))))"

definition value_body ::
  "(nat \<Rightarrow> string \<Rightarrow> (json list \<times> string) option) \<Rightarrow>
   (nat \<Rightarrow> string \<Rightarrow> ((string \<times> json) list \<times> string) option) \<Rightarrow> nat \<Rightarrow> string \<Rightarrow> (json \<times> string) option" where
  "value_body elems members d s =
    (case skip_ws s of
       [] \<Rightarrow> None
     | c # r \<Rightarrow>
         (if c = CHR ''['' then bracketed (CHR '']'') JArr d (elems (d - 1)) r
          else if c = CHR ''{'' then bracketed (CHR ''}'') JObj d (members (d - 1)) r
          else scalar_value (c # r)))"

fun parse_value :: "nat \<Rightarrow> nat \<Rightarrow> string \<Rightarrow> (json \<times> string) option"
  and parse_elems :: "nat \<Rightarrow> nat \<Rightarrow> string \<Rightarrow> (json list \<times> string) option"
  and parse_members :: "nat \<Rightarrow> nat \<Rightarrow> string \<Rightarrow> ((string \<times> json) list \<times> string) option"
where
  "parse_value 0 = (\<lambda>d s. None)"
| "parse_value (Suc n) = value_body (parse_elems n) (parse_members n)"
| "parse_elems 0 = (\<lambda>d s. None)"
| "parse_elems (Suc n) = (\<lambda>d s.
    case parse_value n d s of
      None \<Rightarrow> None
    | Some (v, s1) \<Rightarrow> after_item (CHR '']'') v (parse_elems n d) s1)"
| "parse_members 0 = (\<lambda>d s. None)"
| "parse_members (Suc n) = (\<lambda>d s.
    case member_name s of
      None \<Rightarrow> None
    | Some (k, s1) \<Rightarrow>
        (case parse_value n d s1 of
           None \<Rightarrow> None
         | Some (v, s2) \<Rightarrow> after_item (CHR ''}'') (k, v) (parse_members n d) s2))"

text \<open>\<^verbatim>\<open>Decoder.Decode\<close> reads one value and ignores what follows;
  \<^verbatim>\<open>Unmarshal\<close> wants nothing but white space after it.\<close>

definition decode_first :: "string \<Rightarrow> json option" where
  "decode_first s = map_option fst (parse_value (2 * length s + 2) maxNestingDepth s)"

definition decode_all :: "string \<Rightarrow> json option" where
  "decode_all s =
    (case parse_value (2 * length s + 2) maxNestingDepth s of
       Some (v, rest) \<Rightarrow> if skip_ws rest = [] then Some v else None
     | None \<Rightarrow> None)"

section \<open>Decoding into Go values\<close>

text \<open>\<^verbatim>\<open>strconv.ParseInt(s, 10, 64)\<close> on a JSON number.\<close>

definition digits_value :: "string \<Rightarrow> int" where
  "digits_value s = foldl (\<lambda>n c. n * 10 + int (byte c - 48)) 0 s"

definition parse_int64 :: "string \<Rightarrow> int option" where
  "parse_int64 s =
    (let (neg, ds) = (case s of c # s' \<Rightarrow> if c = CHR ''-'' then (True, s') else (False, s) | [] \<Rightarrow> (False, []));
         v = (if neg then - digits_value ds else digits_value ds)
     in if ds \<noteq> [] \<and> list_all is_digit ds \<and> - (2 ^ 63) \<le> v \<and> v < 2 ^ 63 then Some v else None)"

text \<open>Into an \<^verbatim>\<open>int\<close> that starts at zero: null leaves it alone.\<close>

definition decode_int :: "string \<Rightarrow> int option" where
  "decode_int s =
    (case decode_first s of
       Some (JNum n) \<Rightarrow> parse_int64 n
     | Some JNull \<Rightarrow> Some 0
     | _ \<Rightarrow> None)"

text \<open>Field names match exactly or after case folding (two non-ASCII runes fold to ASCII).\<close>

definition fold_rune :: "nat \<Rightarrow> nat" where
  "fold_rune r =
    (if 97 \<le> r \<and> r \<le> 122 then r - 32
     else if r = 0x17F then 83 else if r = 0x212A then 75 else r)"

definition fold_name :: "string \<Rightarrow> nat list" where
  "fold_name s = map fold_rune (runes s)"

definition field_of :: "string list \<Rightarrow> string \<Rightarrow> string option" where
  "field_of names k =
    (if k \<in> set names then Some k
     else List.find (\<lambda>n. fold_name n = fold_name k) names)"

text \<open>Encoding of a string: quotes, HTML-sensitive bytes, control characters, U+2028/9 and
  malformed UTF-8 are escaped.\<close>

definition lower_hex :: "nat \<Rightarrow> char" where
  "lower_hex n = ''0123456789abcdef'' ! n"

definition u_escape :: "nat \<Rightarrow> string" where
  "u_escape r = [CHR 0x5C, CHR ''u'', lower_hex (r div 4096 mod 16), lower_hex (r div 256 mod 16),
     lower_hex (r div 16 mod 16), lower_hex (r mod 16)]"

definition json_rune :: "nat \<Rightarrow> string" where
  "json_rune r =
    (if r = 0x22 \<or> r = 0x5C then [CHR 0x5C, char_of r]
     else if r = 8 then [CHR 0x5C, CHR ''b''] else if r = 12 then [CHR 0x5C, CHR ''f'']
     else if r = 10 then [CHR 0x5C, CHR ''n''] else if r = 13 then [CHR 0x5C, CHR ''r'']
     else if r = 9 then [CHR 0x5C, CHR ''t'']
     else if r < 0x20 \<or> r \<in> {0x3C, 0x3E, 0x26} \<or> r = 0x2028 \<or> r = 0x2029 then u_escape r
     else encode_rune r)"

text \<open>A byte that starts no sequence is written as an escape; a decoded U+FFFD is copied.\<close>

function json_body :: "string \<Rightarrow> string" where
  "json_body s =
    (if s = [] then []
     else (case decode_seq s of
        None \<Rightarrow> u_escape rune_error @ json_body (tl s)
      | Some (r, w) \<Rightarrow> json_rune r @ json_body (drop (max 1 w) s)))"
  by pat_completeness auto
termination
  by (relation "measure length") auto

declare json_body.simps [simp del]

definition json_string :: "string \<Rightarrow> string" where
  "json_string s = CHR 0x22 # json_body s @ [CHR 0x22]"

end
