(* ===== verification/Dataplane.thy ===== *)
theory Dataplane
  imports World Json
begin

text \<open>
  \<^verbatim>\<open>internal/haproxy/dataplane_client.go\<close>: building the client, the shared request
  lifecycle, the version read, validation, apply, the live read, the readiness loop and the
  certificate storage, with the wire formats they read and write. The lemmas here summarise the
  request lifecycle; what the operations promise is in the theories that follow.
\<close>

section \<open>Building the client\<close>

definition defaultHTTPTimeout :: nat where "defaultHTTPTimeout = dur_ns (30 * second)"
definition dataplaneReadyTimeout :: nat where "dataplaneReadyTimeout = dur_ns (10 * second)"
definition readyPollInterval :: nat where "readyPollInterval = dur_ns (250 * millisecond)"

lemma timeout_values [simp]:
  "defaultHTTPTimeout = 30000000000" "dataplaneReadyTimeout = 10000000000"
  "readyPollInterval = 250000000"
  by (simp_all add: defaultHTTPTimeout_def dataplaneReadyTimeout_def readyPollInterval_def dur_ns_def)

definition newClient :: "api_config \<Rightarrow> url \<Rightarrow> transport \<Rightarrow> client" where
  "newClient cfg u t = \<lparr>c_config = cfg, c_base = u, c_transport = t\<rparr>"

definition tls_error :: "string \<Rightarrow> goerr" where
  "tls_error scheme = PlainError
    (''dataplane url must use http or https scheme, got '' @ [CHR 0x22] @ scheme @ [CHR 0x22])"

text \<open>\<^verbatim>\<open>loadCAPool\<close>; a pool is the PEM text it was filled from.\<close>

definition loadCAPool :: "'e ext \<Rightarrow> string \<Rightarrow> ('e, goerr + bytes) go" where
  "loadCAPool x p = do {
     r \<leftarrow> env_call (x_read_file x p);
     ret (case r of
            Inl err \<Rightarrow> Inl (Wrap ''read dataplane CA: '' err [])
          | Inr pem \<Rightarrow> if \<not> x_has_certs x pem then Inl (PlainError ''append dataplane CA: failed to parse PEM'')
                       else Inr pem)
   }"

definition NewClient :: "'e ext \<Rightarrow> api_config \<Rightarrow> ('e, goerr + client) go" where
  "NewClient x cfg =
    (case x_url_parse x (BaseURL cfg) of
       Inl err \<Rightarrow> ret (Inl err)
     | Inr u \<Rightarrow>
         if u_scheme u \<noteq> ''http'' \<and> u_scheme u \<noteq> ''https'' then ret (Inl (tls_error (u_scheme u)))
         else
           (let requiresTLS = (u_scheme u = ''https'') in
            if requiresTLS \<and> \<not> Insecure cfg
               \<and> (CACertPath cfg = [] \<or> ClientCertPath cfg = [] \<or> ClientKeyPath cfg = [])
            then ret (Inl (PlainError (''mTLS is required for https dataplane url; '' @
                   ''set CA, client cert, and client key paths'')))
            else
              (let useTLS = (requiresTLS \<or> CACertPath cfg \<noteq> [] \<or> ClientCertPath cfg \<noteq> []
                     \<or> ClientKeyPath cfg \<noteq> [] \<or> Insecure cfg) in
               if \<not> useTLS then ret (Inr (newClient cfg u DefaultTransport))
               else do {
                 ca \<leftarrow> (if CACertPath cfg \<noteq> [] then loadCAPool x (CACertPath cfg) else ret (Inr []));
                 (case ca of
                    Inl err \<Rightarrow> ret (Inl err)
                  | Inr _ \<Rightarrow>
                      (let verify = (CACertPath cfg \<noteq> [] \<and> \<not> Insecure cfg);
                           skip = (Insecure cfg \<or> verify);
                           pair = (ClientCertPath cfg \<noteq> [] \<or> ClientKeyPath cfg \<noteq> []) in do {
                         kp \<leftarrow> (if pair then env_call (x_load_pair x (ClientCertPath cfg) (ClientKeyPath cfg))
                                else ret None);
                         (case kp of
                            Some err \<Rightarrow> ret (Inl (Wrap ''load dataplane client cert/key: '' err []))
                          | None \<Rightarrow> ret (Inr (newClient cfg u (HTTPTransport skip verify pair))))
                       }))
               })))"

definition NewClientWithTransport :: "'e ext \<Rightarrow> api_config \<Rightarrow> transport \<Rightarrow> goerr + client" where
  "NewClientWithTransport x cfg t =
    (case x_url_parse x (BaseURL cfg) of Inl err \<Rightarrow> Inl err | Inr u \<Rightarrow> Inr (newClient cfg u t))"

section \<open>The request lifecycle\<close>

definition maxAPIErrorBody :: nat where "maxAPIErrorBody = 4096"

text \<open>\<^verbatim>\<open>io.LimitReader\<close> stops before a read error that lies beyond the limit.\<close>

definition newAPIError :: "http_response \<Rightarrow> goerr" where
  "newAPIError resp =
    (let msg = take maxAPIErrorBody (rs_body resp);
         err = (if length (rs_body resp) < maxAPIErrorBody then rs_read_error resp else None)
     in APIError (rs_status resp)
          (case err of
             None \<Rightarrow> msg
           | Some e \<Rightarrow> msg @ '' (error reading response body: '' @ error_text e @ '')''))"

definition isNotFound :: "goerr \<Rightarrow> bool" where
  "isNotFound err \<longleftrightarrow> (case errors_as as_api err of Some (code, _) \<Rightarrow> code = 404 | None \<Rightarrow> False)"

text \<open>The host without user info and port (\<^verbatim>\<open>URL.Hostname\<close>).\<close>

definition hostname :: "url \<Rightarrow> string" where
  "hostname u =
    (let h = rev (takeWhile (\<lambda>c. c \<noteq> CHR ''@'') (rev (u_host u))) in
     if CHR '':'' \<notin> set h then h
     else if CHR '']'' \<in> set h then trim_prefix (takeWhile (\<lambda>c. c \<noteq> CHR '']'') h) ''[''
     else takeWhile (\<lambda>c. c \<noteq> CHR '':'') h)"

text \<open>\<^verbatim>\<open>ServerCertObserver\<close>, which the process entry point sets to
  \<^verbatim>\<open>metrics.ObserveDataplaneServerCert\<close>.\<close>

definition ObserveDataplaneServerCert :: "string \<Rightarrow> int \<Rightarrow> ('e, unit) go" where
  [simp]: "ObserveDataplaneServerCert gateway notAfter =
     modify_metrics (\<lambda>m. m\<lparr>ServerCertExpiry := fmupd gateway notAfter (ServerCertExpiry m)\<rparr>)"

definition observe_leaf :: "client \<Rightarrow> http_response \<Rightarrow> ('e, unit) go" where
  "observe_leaf c resp =
    (case rs_leaf resp of
       None \<Rightarrow> ret ()
     | Some t \<Rightarrow> ObserveDataplaneServerCert (hostname (c_base c)) t)"

definition make_request :: "client \<Rightarrow> string \<Rightarrow> string \<Rightarrow> bytes option \<Rightarrow> string \<Rightarrow> http_request" where
  "make_request c meth p body content_type =
    \<lparr>rq_method = meth, rq_url = resolveURL (c_base c) p, rq_content_type = content_type,
     rq_auth = (if Username (c_config c) \<noteq> [] then Some (Username (c_config c), Password (c_config c))
                else None),
     rq_body = body\<rparr>"

text \<open>\<^verbatim>\<open>do\<close> without the decoding step, which depends on the result the caller asks for.\<close>

definition do_request ::
  "'e ext \<Rightarrow> client \<Rightarrow> string \<Rightarrow> string \<Rightarrow> bytes option \<Rightarrow> string \<Rightarrow> ('e, goerr + http_response) go" where
  "do_request x c meth p body content_type =
    (let rq = make_request c meth p body content_type in
     case x_new_request x rq of
       Some err \<Rightarrow> ret (Inl err)
     | None \<Rightarrow> do {
         out \<leftarrow> do_http x rq;
         (case out of
            Inl err \<Rightarrow> ret (Inl err)
          | Inr resp \<Rightarrow> do {
              observe_leaf c resp;
              ret (if rs_status resp < 200 \<or> 300 \<le> rs_status resp then Inl (newAPIError resp)
                   else Inr resp)
            })
       })"

text \<open>The three ways the code uses the response: not at all, as text, as JSON.\<close>

definition no_result :: "goerr + http_response \<Rightarrow> goerr option" where
  "no_result r = (case r of Inl err \<Rightarrow> Some err | Inr _ \<Rightarrow> None)"

definition string_result :: "goerr + http_response \<Rightarrow> goerr + string" where
  "string_result r =
    (case r of
       Inl err \<Rightarrow> Inl err
     | Inr resp \<Rightarrow>
         if rs_status resp = 204 then Inr []
         else (case rs_read_error resp of Some err \<Rightarrow> Inl err | None \<Rightarrow> Inr (rs_body resp)))"

text \<open>A decoder sees a read error only while the value is still incomplete: an object or array
  ends itself, any other value ends at the byte after it.\<close>

definition self_delimiting :: "json \<Rightarrow> bool" where
  "self_delimiting v = (case v of JArr _ \<Rightarrow> True | JObj _ \<Rightarrow> True | _ \<Rightarrow> False)"

definition decode_stream :: "'e ext \<Rightarrow> http_response \<Rightarrow> goerr + json" where
  "decode_stream x resp =
    (case parse_value (2 * length (rs_body resp) + 2) maxNestingDepth (rs_body resp) of
       None \<Rightarrow> Inl (case rs_read_error resp of
                 Some e \<Rightarrow> e | None \<Rightarrow> PlainError (x_json_text x (rs_body resp)))
     | Some (v, rest) \<Rightarrow>
         (case rs_read_error resp of
            Some e \<Rightarrow> if rest = [] \<and> \<not> self_delimiting v then Inl e else Inr v
          | None \<Rightarrow> Inr v))"

definition json_result :: "'e ext \<Rightarrow> 'a \<Rightarrow> (json \<Rightarrow> 'a option) \<Rightarrow> goerr + http_response \<Rightarrow> goerr + 'a" where
  "json_result x zero dec r =
    (case r of
       Inl err \<Rightarrow> Inl err
     | Inr resp \<Rightarrow>
         if rs_status resp = 204 then Inr zero
         else (case decode_stream x resp of
                 Inl err \<Rightarrow> Inl err
               | Inr v \<Rightarrow> (case dec v of
                    None \<Rightarrow> Inl (PlainError (x_json_text x (rs_body resp)))
                  | Some a \<Rightarrow> Inr a)))"

definition int_of_json :: "json \<Rightarrow> int option" where
  "int_of_json v = (case v of JNum n \<Rightarrow> parse_int64 n | JNull \<Rightarrow> Some 0 | _ \<Rightarrow> None)"

text \<open>\<^verbatim>\<open>doRequestPlain\<close>: an empty body is sent as no body.\<close>

definition doRequestPlain ::
  "'e ext \<Rightarrow> client \<Rightarrow> string \<Rightarrow> string \<Rightarrow> string \<Rightarrow> ('e, goerr + http_response) go" where
  "doRequestPlain x c meth p body =
    do_request x c meth p (if body \<noteq> [] then Some body else None) ''text/plain''"

text \<open>\<^verbatim>\<open>doRequest\<close>; no caller sends a body.\<close>

definition doRequest :: "'e ext \<Rightarrow> client \<Rightarrow> string \<Rightarrow> string \<Rightarrow> ('e, goerr + http_response) go" where
  "doRequest x c meth p = do_request x c meth p None ''application/json''"

section \<open>Configuration\<close>

definition version_path :: string where
  "version_path = ''/services/haproxy/configuration/version''"

definition raw_path :: string where
  "raw_path = ''/services/haproxy/configuration/raw''"

definition getConfigVersion :: "'e ext \<Rightarrow> client \<Rightarrow> ('e, goerr + int) go" where
  "getConfigVersion x c = do {
     r \<leftarrow> doRequest x c ''GET'' version_path;
     ret (case json_result x 0 int_of_json r of
            Inl err \<Rightarrow> Inl (VersionCheckError err)
          | Inr n \<Rightarrow> Inr n)
   }"

definition Ping :: "'e ext \<Rightarrow> client \<Rightarrow> ('e, goerr option) go" where
  "Ping x c = do {
     r \<leftarrow> getConfigVersion x c;
     ret (case r of Inl err \<Rightarrow> Some err | Inr _ \<Rightarrow> None)
   }"

definition apply_endpoint :: "int \<Rightarrow> string" where
  "apply_endpoint ver = addOrReplaceQuery raw_path ''version'' (dec_int ver)"

definition validate_endpoint :: "int \<Rightarrow> string" where
  "validate_endpoint ver = addOrReplaceQuery (apply_endpoint ver) ''only_validate'' ''true''"

definition applyRaw :: "'e ext \<Rightarrow> client \<Rightarrow> string \<Rightarrow> ('e, goerr option) go" where
  "applyRaw x c raw = do {
     ver \<leftarrow> getConfigVersion x c;
     (case ver of
        Inl err \<Rightarrow> ret (Some err)
      | Inr n \<Rightarrow> do {
          r \<leftarrow> doRequestPlain x c ''POST'' (apply_endpoint n) raw;
          ret (no_result r)
        })
   }"

definition ValidateRawConfiguration :: "'e ext \<Rightarrow> client \<Rightarrow> string \<Rightarrow> ('e, goerr option) go" where
  "ValidateRawConfiguration x c raw = do {
     ver \<leftarrow> getConfigVersion x c;
     (case ver of
        Inl err \<Rightarrow> ret (Some err)
      | Inr n \<Rightarrow> do {
          r \<leftarrow> doRequestPlain x c ''POST'' (validate_endpoint n) raw;
          ret (no_result r)
        })
   }"

definition GetRawConfiguration :: "'e ext \<Rightarrow> client \<Rightarrow> ('e, goerr + string) go" where
  "GetRawConfiguration x c = do {
     r \<leftarrow> doRequestPlain x c ''GET'' raw_path [];
     ret (string_result r)
   }"

text \<open>\<^verbatim>\<open>Info\<close> decodes the whole answer; of several members with the name the last counts.\<close>

definition info_object :: "json \<Rightarrow> (string \<times> json) list option" where
  "info_object v = (case v of JObj kvs \<Rightarrow> Some kvs | JNull \<Rightarrow> Some [] | _ \<Rightarrow> None)"

definition Info :: "'e ext \<Rightarrow> client \<Rightarrow> ('e, goerr + string) go" where
  "Info x c = do {
     r \<leftarrow> doRequest x c ''GET'' ''/services/haproxy/info'';
     ret (case json_result x [] info_object r of
            Inl err \<Rightarrow> Inl err
          | Inr out \<Rightarrow> Inr (case map_of (rev out) ''version'' of Some (JStr v) \<Rightarrow> v | _ \<Rightarrow> []))
   }"

section \<open>Waiting for the API\<close>

text \<open>The clock never runs backwards through a request, so the loop's distance to its deadline
  shrinks by at least one poll interval per round.\<close>

lemma observe_leaf_calls: "rel (calls P) (observe_leaf c resp)"
  by (auto simp: rel_def observe_leaf_def modify_metrics_def calls_def emits_def split: option.split)

lemma do_request_calls:
  assumes "\<And>out. P (HttpCall (make_request c m p b t) out)"
  shows "rel (calls P) (do_request x c m p b t)"
  unfolding do_request_def Let_def
  by (intro calls.rel_control do_http_calls observe_leaf_calls assms)

definition version_request :: "client \<Rightarrow> http_request" where
  "version_request c = make_request c ''GET'' version_path None ''application/json''"

abbreviation version_read :: "client \<Rightarrow> effect \<Rightarrow> bool" where
  "version_read c \<equiv> sends (\<lambda>rq. rq = version_request c)"

lemma getConfigVersion_calls: "rel (calls (version_read c)) (getConfigVersion x c)"
  unfolding getConfigVersion_def doRequest_def
  by (intro calls.rel_control do_request_calls) (simp add: version_request_def)

lemma getConfigVersion_now:
  "run_state (getConfigVersion x c) w = (r, w') \<Longrightarrow> w_now w \<le> w_now w'"
  using relD [OF getConfigVersion_calls [of c x], of w] by (simp add: calls_def)

lemma select_after_now:
  "run_state (select_after x d) w = (None, w') \<Longrightarrow> w_now w + d \<le> w_now w'"
  by (auto simp: select_after_def split: prod.splits option.splits)

function wait_loop ::
  "'e ext \<Rightarrow> client \<Rightarrow> nat \<Rightarrow> goerr option \<Rightarrow> 'e world \<Rightarrow> goerr option \<times> 'e world" where
  "wait_loop x c deadline lastErr w =
    (if w_now w < deadline then
       (case run_state (getConfigVersion x c) w of
          (Inr _, w1) \<Rightarrow> (None, w1)
        | (Inl err, w1) \<Rightarrow>
            (case run_state (select_after x readyPollInterval) w1 of
               (Some done, w2) \<Rightarrow> (Some done, w2)
             | (None, w2) \<Rightarrow> wait_loop x c deadline (Some err) w2))
     else (Some (case lastErr of Some e \<Rightarrow> e | None \<Rightarrow> PlainError ''dataplane api not ready''), w))"
  by pat_completeness auto
termination
proof (relation "measure (\<lambda>(x, c, deadline, lastErr, w). deadline - w_now w)", goal_cases)
  case (2 x c deadline lastErr w r w1 err a w2)
  then have "w_now w \<le> w_now w1" "w_now w1 + readyPollInterval \<le> w_now w2"
    using getConfigVersion_now [of x c w r w1] select_after_now [of x readyPollInterval w1 w2] by auto
  with 2 show ?case by auto
qed simp

declare wait_loop.simps [simp del]

definition waitForReady :: "'e ext \<Rightarrow> client \<Rightarrow> nat \<Rightarrow> ('e, goerr option) go" where
  "waitForReady x c timeout = State (\<lambda>w. wait_loop x c (w_now w + timeout) None w)"

definition ApplyRawConfiguration :: "'e ext \<Rightarrow> client \<Rightarrow> string \<Rightarrow> ('e, goerr option) go" where
  "ApplyRawConfiguration x c raw = do {
     ready \<leftarrow> waitForReady x c dataplaneReadyTimeout;
     (case ready of
        Some err \<Rightarrow> ret (Some (Wrap ''dataplane api not ready: '' err []))
      | None \<Rightarrow> do {
          v \<leftarrow> ValidateRawConfiguration x c raw;
          (case v of
             Some err \<Rightarrow> ret (Some (Wrap ''validation failed: '' err []))
           | None \<Rightarrow> applyRaw x c raw)
        })
   }"

definition ApplyRawConfigurationValidated :: "'e ext \<Rightarrow> client \<Rightarrow> string \<Rightarrow> ('e, goerr option) go" where
  "ApplyRawConfigurationValidated x c raw = do {
     ready \<leftarrow> waitForReady x c dataplaneReadyTimeout;
     (case ready of
        Some err \<Rightarrow> ret (Some (Wrap ''dataplane api not ready: '' err []))
      | None \<Rightarrow> applyRaw x c raw)
   }"

section \<open>Certificate storage\<close>

text \<open>The first CERTIFICATE block of a PEM text, if there is one; the number is fuel for the loop over
  blocks.\<close>

fun first_cert_block :: "'e ext \<Rightarrow> nat \<Rightarrow> bytes \<Rightarrow> bytes option option" where
  "first_cert_block x 0 rest = None"
| "first_cert_block x (Suc n) rest =
    (case x_pem_decode x rest of
       None \<Rightarrow> Some None
     | Some (typ, der, next) \<Rightarrow>
         if typ \<noteq> ''CERTIFICATE'' then first_cert_block x n next else Some (Some der))"

declare first_cert_block.simps [simp del]

definition leafSerial :: "'e ext \<Rightarrow> bytes \<Rightarrow> (goerr + string) option" where
  "leafSerial x pem = map_option (\<lambda>block.
     case block of
       None \<Rightarrow> Inl (PlainError ''no CERTIFICATE block found in PEM bundle'')
     | Some der \<Rightarrow>
         (case x_parse_cert x der of
            Inl err \<Rightarrow> Inl (Wrap ''parse leaf certificate: '' err [])
          | Inr cert \<Rightarrow> Inr (cert_serial cert))) (first_cert_block x (Suc (length pem)) pem)"

record ssl_certificate =
  Serial :: string
  Size :: int

definition ssl_fields :: "string list" where "ssl_fields = [''serial'', ''size'']"

text \<open>Decoding an object into the two fields; a field of the wrong type is an error.\<close>

definition ssl_field :: "ssl_certificate option \<Rightarrow> string \<times> json \<Rightarrow> ssl_certificate option" where
  "ssl_field acc kv =
    (case acc of
       None \<Rightarrow> None
     | Some r \<Rightarrow>
         (case field_of ssl_fields (fst kv) of
            None \<Rightarrow> Some r
          | Some f \<Rightarrow>
              (case snd kv of
                 JNull \<Rightarrow> Some r
               | JStr v \<Rightarrow> if f = ''serial'' then Some (r\<lparr>Serial := v\<rparr>) else None
               | JNum n \<Rightarrow> if f = ''size'' then map_option (\<lambda>i. r\<lparr>Size := i\<rparr>) (parse_int64 n) else None
               | _ \<Rightarrow> None)))"

definition ssl_zero :: ssl_certificate where "ssl_zero = \<lparr>Serial = [], Size = 0\<rparr>"

definition ssl_of_json :: "json \<Rightarrow> ssl_certificate option" where
  "ssl_of_json v =
    (case v of JObj kvs \<Rightarrow> foldl ssl_field (Some ssl_zero) kvs | JNull \<Rightarrow> Some ssl_zero | _ \<Rightarrow> None)"

definition storage_path :: string where
  "storage_path = ''/services/haproxy/storage/ssl_certificates''"

definition crlf :: string where "crlf = [CHR 0x0D, CHR 0x0A]"

text \<open>\<^verbatim>\<open>multipart.Writer\<close>: quotes and backslashes in the file name are escaped.\<close>

definition escape_quotes :: "string \<Rightarrow> string" where
  "escape_quotes s = concat (map (\<lambda>c. if c = CHR 0x22 \<or> c = CHR 0x5C then [CHR 0x5C, c]
     else if c = CHR 0x0D then ''%0D'' else if c = CHR 0x0A then ''%0A'' else [c]) s)"

definition multipart_body :: "string \<Rightarrow> string \<Rightarrow> bytes \<Rightarrow> bytes" where
  "multipart_body boundary name pem =
    ''--'' @ boundary @ crlf @
    ''Content-Disposition: form-data; name='' @ [CHR 0x22] @ ''file_upload'' @ [CHR 0x22] @
    ''; filename='' @ [CHR 0x22] @ escape_quotes name @ [CHR 0x22] @ crlf @
    ''Content-Type: application/octet-stream'' @ crlf @ crlf @
    pem @ crlf @ ''--'' @ boundary @ ''--'' @ crlf"

text \<open>Writing into a \<^verbatim>\<open>bytes.Buffer\<close> cannot fail, so the error returns of the
  multipart writer are unreachable.\<close>

definition createSSLCertificate :: "'e ext \<Rightarrow> client \<Rightarrow> string \<Rightarrow> bytes \<Rightarrow> ('e, goerr option) go" where
  "createSSLCertificate x c name pem = do {
     boundary \<leftarrow> env_call (x_boundary x);
     r \<leftarrow> do_request x c ''POST'' storage_path (Some (multipart_body boundary name pem))
            (''multipart/form-data; boundary='' @ boundary);
     ret (no_result r)
   }"

definition up_to_date :: "ssl_certificate \<Rightarrow> string \<Rightarrow> bytes \<Rightarrow> bool \<Rightarrow> bool" where
  "up_to_date remote serial pem previouslySynced \<longleftrightarrow>
     Serial remote \<noteq> [] \<and> Serial remote = serial
     \<and> (Size remote = 0 \<or> Size remote = int (length pem)) \<and> previouslySynced"

text \<open>\<^verbatim>\<open>SyncSSLCertificate\<close> returns whether it wrote, and an error.\<close>

definition SyncSSLCertificate ::
  "'e ext \<Rightarrow> client \<Rightarrow> string \<Rightarrow> bytes \<Rightarrow> bool \<Rightarrow> ('e, bool \<times> goerr option) go" where
  "SyncSSLCertificate x c name pem previouslySynced =
    (case leafSerial x pem of
       None \<Rightarrow> ret (False, None)
     | Some (Inl err) \<Rightarrow> ret (False, Some err)
     | Some (Inr localSerial) \<Rightarrow> do {
         ready \<leftarrow> waitForReady x c dataplaneReadyTimeout;
         (case ready of
            Some err \<Rightarrow> ret (False, Some (Wrap ''dataplane api not ready: '' err []))
          | None \<Rightarrow>
              (let endpoint = storage_path @ ''/'' @ path_escape name in do {
                 r \<leftarrow> doRequest x c ''GET'' endpoint;
                 (case json_result x ssl_zero ssl_of_json r of
                    Inl err \<Rightarrow>
                      if isNotFound err then do {
                        e \<leftarrow> createSSLCertificate x c name pem;
                        ret (True, e)
                      } else ret (False, Some err)
                  | Inr remote \<Rightarrow>
                      if up_to_date remote localSerial pem previouslySynced then ret (False, None)
                      else do {
                        r \<leftarrow> doRequestPlain x c ''PUT'' endpoint pem;
                        ret (True, no_result r)
                      })
               }))
       })"

end
