(* ===== verification/Gateway.thy ===== *)
theory Gateway
  imports Dataplane
begin

text \<open>
  The requests of the Data Plane client told apart: the endpoints it builds, which requests validate,
  which apply and which do neither, the bytes they carry, and what an answer stands for.
\<close>

section \<open>Endpoints\<close>

lemma dec_digit_plain: "d < 10 \<Longrightarrow> is_unreserved (digit_char d)"
proof -
  assume "d < 10"
  moreover have "list_all (\<lambda>d. is_unreserved (digit_char d)) [0..<10]" by code_simp
  ultimately show ?thesis by (simp add: list_all_iff)
qed

lemma dec_nat_plain: "list_all is_unreserved (dec_nat n)"
proof (induction n rule: dec_nat.induct)
  case (1 n)
  show ?case
  proof (cases "n < 10")
    case True
    then show ?thesis by (subst dec_nat.simps) (simp add: dec_digit_plain)
  next
    case False
    with 1 show ?thesis by (subst dec_nat.simps) (simp add: dec_digit_plain)
  qed
qed

lemma dec_int_plain: "list_all is_unreserved (dec_int i)"
proof -
  have "is_unreserved CHR ''-''" by code_simp
  then show ?thesis by (simp add: dec_int_def dec_nat_plain)
qed

lemma raw_path_plain: "CHR ''?'' \<notin> set raw_path"
  by (simp add: raw_path_def)

lemma wf_version: "wf_values [(''version'', [v])]"
  by (simp add: wf_values_def)

lemma values_set_flag:
  "values_set ''only_validate'' ''true'' [(''version'', [v])] = [(''only_validate'', [''true'']), (''version'', [v])]"
proof -
  have "''only_validate'' < ''version''" by code_simp
  then show ?thesis by simp
qed

lemma apply_endpoint_values:
  "apply_endpoint n = raw_path @ ''?'' @ values_encode [(''version'', [dec_int n])]"
  by (simp add: apply_endpoint_def addOrReplaceQuery_bare [OF raw_path_plain] values_encode_def
      join_with_def)

lemma validate_endpoint_values:
  "validate_endpoint n = raw_path @ ''?''
     @ values_encode [(''only_validate'', [''true'']), (''version'', [dec_int n])]"
  unfolding validate_endpoint_def apply_endpoint_values
  by (simp only: addOrReplaceQuery_encoded [OF raw_path_plain wf_version] values_set_flag)

lemma plain_names: "query_escape ''version'' = ''version''" "query_escape ''only_validate'' = ''only_validate''"
  "query_escape ''true'' = ''true''"
  by code_simp+

text \<open>The apply endpoint carries exactly the version that was read, the validate endpoint the
  same version and the flag that keeps the gateway from applying.\<close>

theorem endpoint_texts:
  "apply_endpoint n = ''/services/haproxy/configuration/raw?version='' @ dec_int n
   \<and> validate_endpoint n =
       ''/services/haproxy/configuration/raw?only_validate=true&version='' @ dec_int n"
  unfolding apply_endpoint_values validate_endpoint_values
  by (simp add: values_encode_def join_with_def plain_names query_escape_plain [OF dec_int_plain]
      raw_path_def)

text \<open>The requests that reach the configuration store, told apart by path and flag.\<close>

definition config_path :: "client \<Rightarrow> string" where
  "config_path c = u_path (resolveURL (c_base c) raw_path)"

definition only_validates :: "http_request \<Rightarrow> bool" where
  "only_validates rq \<longleftrightarrow> map_of (parse_query (u_query (rq_url rq))) ''only_validate'' = Some [''true'']"

definition is_validate :: "client \<Rightarrow> http_request \<Rightarrow> bool" where
  "is_validate c rq \<longleftrightarrow> rq_method rq = ''POST'' \<and> u_path (rq_url rq) = config_path c \<and> only_validates rq"

definition is_apply :: "client \<Rightarrow> http_request \<Rightarrow> bool" where
  "is_apply c rq \<longleftrightarrow> rq_method rq = ''POST'' \<and> u_path (rq_url rq) = config_path c \<and> \<not> only_validates rq"

definition carries :: "http_request \<Rightarrow> string \<Rightarrow> bool" where
  "carries rq raw \<longleftrightarrow> rq_body rq = (if raw = [] then None else Some raw)"

definition validate_request :: "client \<Rightarrow> string \<Rightarrow> int \<Rightarrow> http_request" where
  "validate_request c raw n = make_request c ''POST'' (validate_endpoint n)
     (if raw \<noteq> [] then Some raw else None) ''text/plain''"

definition apply_request :: "client \<Rightarrow> string \<Rightarrow> int \<Rightarrow> http_request" where
  "apply_request c raw n = make_request c ''POST'' (apply_endpoint n)
     (if raw \<noteq> [] then Some raw else None) ''text/plain''"

lemma resolveURL_query:
  assumes "CHR ''?'' \<notin> set p"
  shows "u_query (resolveURL u (p @ ''?'' @ q)) = q \<and> u_path (resolveURL u (p @ ''?'' @ q)) = u_path (resolveURL u p)"
  using str_cut_free [OF assms, of q] str_cut_none [OF assms] by (simp add: resolveURL_def)

lemma request_simps [simp]:
  "rq_method (make_request c m p b t) = m" "rq_url (make_request c m p b t) = resolveURL (c_base c) p"
  "rq_body (make_request c m p b t) = b" "rq_content_type (make_request c m p b t) = t"
  by (simp_all add: make_request_def)

lemma validate_request_kind:
  "is_validate c (validate_request c raw n)" "\<not> is_apply c (validate_request c raw n)"
  "carries (validate_request c raw n) raw"
proof -
  have "parse_query (values_encode [(''only_validate'', [''true'']), (''version'', [dec_int n])])
      = [(''only_validate'', [''true'']), (''version'', [dec_int n])]"
  proof (rule parse_values_encode)
    have "''only_validate'' < ''version''" by code_simp
    then show "wf_values [(''only_validate'', [''true'']), (''version'', [dec_int n])]"
      by (simp add: wf_values_def)
  qed
  with resolveURL_query [OF raw_path_plain]
  show "is_validate c (validate_request c raw n)" "\<not> is_apply c (validate_request c raw n)"
    "carries (validate_request c raw n) raw"
    by (simp_all add: is_validate_def is_apply_def only_validates_def config_path_def carries_def
        validate_request_def validate_endpoint_values)
qed

lemma apply_request_kind:
  "is_apply c (apply_request c raw n)" "\<not> is_validate c (apply_request c raw n)"
  "carries (apply_request c raw n) raw"
  using resolveURL_query [OF raw_path_plain] parse_values_encode [OF wf_version]
  by (simp_all add: is_validate_def is_apply_def only_validates_def config_path_def carries_def
      apply_request_def apply_endpoint_values)

lemma get_kind: "rq_method rq \<noteq> ''POST'' \<Longrightarrow> \<not> is_apply c rq \<and> \<not> is_validate c rq"
  by (simp add: is_apply_def is_validate_def)

text \<open>Certificate uploads go to another path: a cleaned path ends in its last ordinary segment.\<close>

lemma str_split_last: "sep \<notin> set z \<Longrightarrow> str_split sep (p @ sep # z) = str_split sep p @ [z]"
proof (induction p)
  case (Cons c p)
  then show ?case
    using str_split_nonempty [of sep p] by (auto split: list.split)
qed (simp add: str_split_free)

lemma join_with_last: "w \<noteq> [] \<Longrightarrow> last (join_with sep (ws @ [w])) = last w \<and> join_with sep (ws @ [w]) \<noteq> []"
  by (cases ws) (simp_all add: join_with_def)

lemma path_clean_last:
  assumes "CHR ''/'' \<notin> set z" "z \<noteq> []" "z \<noteq> ''.''" "z \<noteq> ''..''"
  shows "last (path_clean (p @ ''/'' @ z)) = last z"
proof -
  have st: "foldl (clean_step b) [] (str_split CHR ''/'' (p @ ''/'' @ z))
      = z # foldl (clean_step b) [] (str_split CHR ''/'' p)" for b
    using assms(2-4) str_split_last [OF assms(1), of p] by (simp add: clean_step_def)
  show ?thesis
    unfolding path_clean_def Let_def st
    using join_with_last [OF assms(2)] by (simp only: rev.simps last_ConsR if_split) simp
qed

lemma resolveURL_last:
  assumes "CHR ''/'' \<notin> set z" "z \<noteq> []" "z \<noteq> ''.''" "z \<noteq> ''..''" "CHR ''?'' \<notin> set (p @ ''/'' @ z)"
    "p \<noteq> []" "hd p = CHR ''/''" "tl p \<noteq> []"
  shows "last (u_path (resolveURL u (p @ ''/'' @ z))) = last z"
proof -
  obtain q where p: "p = CHR ''/'' # q" "q \<noteq> []" using assms(6-8) by (cases p) auto
  have cut: "str_cut CHR ''?'' (p @ ''/'' @ z) = (p @ ''/'' @ z, [], False)"
    by (rule str_cut_none [OF assms(5)])
  have trim: "trim_prefix (p @ ''/'' @ z) ''/'' = q @ ''/'' @ z"
    by (simp add: trim_prefix_def has_prefix_def p)
  have join: "path_join [a, q @ ''/'' @ z] = path_clean ((if a = [] then q else a @ ''/'' @ q) @ ''/'' @ z)" for a
    using p(2) by (simp add: path_join_def join_with_def)
  have "u_path (resolveURL u (p @ ''/'' @ z)) = path_join [trim_suffix (u_path u) ''/'', q @ ''/'' @ z]"
    unfolding resolveURL_def cut prod.case trim by simp
  then show ?thesis by (simp only: join path_clean_last [OF assms(1-4)])
qed

lemma storage_not_config: "u_path (resolveURL u storage_path) \<noteq> u_path (resolveURL u raw_path)"
proof -
  have s: "storage_path = ''/services/haproxy/storage'' @ ''/'' @ ''ssl_certificates''"
    and r: "raw_path = ''/services/haproxy/configuration'' @ ''/'' @ ''raw''"
    by (simp_all add: storage_path_def raw_path_def)
  have "last (u_path (resolveURL u storage_path)) = CHR ''s''"
    unfolding s by (subst resolveURL_last) simp_all
  moreover have "last (u_path (resolveURL u raw_path)) = CHR ''w''"
    unfolding r by (subst resolveURL_last) simp_all
  ultimately show ?thesis by auto
qed

section \<open>Requests and answers\<close>

definition success :: "int \<Rightarrow> bool" where
  "success code \<longleftrightarrow> 200 \<le> code \<and> code < 300"

definition answer :: "http_outcome \<Rightarrow> goerr + http_response" where
  "answer out = (case out of
     Inl err \<Rightarrow> Inl err
   | Inr resp \<Rightarrow> if success (rs_status resp) then Inr resp else Inl (newAPIError resp))"

lemma do_request_cases:
  assumes "run_state (do_request x c m p b t) w = (r, w')"
  obtains (not_sent) err where "x_new_request x (make_request c m p b t) = Some err" "r = Inl err" "w' = w"
  | (sent) out where "x_new_request x (make_request c m p b t) = None"
      "w_trace w' = w_trace w @ [HttpCall (make_request c m p b t) out]" "r = answer out"
proof (cases "x_new_request x (make_request c m p b t)")
  case None
  obtain out dt e where h: "x_http x (make_request c m p b t) (w_env w) = (out, dt, e)"
    by (metis prod_cases3)
  show ?thesis
    using None assms h
    by (intro sent [of out])
      (auto simp: do_request_def Let_def do_http_def observe_leaf_def modify_metrics_def answer_def
        success_def State_Monad.bind_def State_Monad.return_def split: sum.splits option.splits)
next
  case (Some err)
  with assms show ?thesis by (intro not_sent) (auto simp: do_request_def)
qed

end
