(* ===== verification/Client_Laws.thy ===== *)
theory Client_Laws
  imports Gateway
begin

text \<open>
  The contract of the client's operations: the requests each one sends, what its result says about
  the last request, and the errors it can return when the transport does not fabricate errors of
  the operator's own types.
\<close>

section \<open>Errors of the environment\<close>

definition environment_error :: "goerr \<Rightarrow> bool" where
  "environment_error e \<longleftrightarrow> (\<forall>e'\<in>set (chain e).
     case e' of ErrLocalRejection \<Rightarrow> False | VersionCheckError _ \<Rightarrow> False | APIError _ _ \<Rightarrow> False | _ \<Rightarrow> True)"

text \<open>Transport, reader, request builder and context return only errors of the standard library.\<close>

definition honest :: "'e ext \<Rightarrow> bool" where
  "honest x \<longleftrightarrow>
     (\<forall>rq e. case fst (x_http x rq e) of
        Inl err \<Rightarrow> environment_error err
      | Inr resp \<Rightarrow> (case rs_read_error resp of Some err \<Rightarrow> environment_error err | None \<Rightarrow> True))
   \<and> (\<forall>rq. case x_new_request x rq of Some err \<Rightarrow> environment_error err | None \<Rightarrow> True)
   \<and> (\<forall>d e. case fst (x_wait x d e) of Some err \<Rightarrow> err = Canceled \<or> err = DeadlineExceeded | None \<Rightarrow> True)"

lemma environment_error_as:
  assumes "environment_error e"
  shows "errors_as as_api e = None" "errors_as as_vce e = None" "\<not> errors_is e ErrLocalRejection"
proof -
  have "as_api e' = None \<and> as_vce e' = None \<and> e' \<noteq> ErrLocalRejection" if "e' \<in> set (chain e)" for e'
    using assms that by (cases e') (auto simp: environment_error_def split: goerr.splits)
  then have "List.map_filter as_api (chain e) = []" "List.map_filter as_vce (chain e) = []"
    "ErrLocalRejection \<notin> set (chain e)"
    by (auto simp: List.map_filter_def filter_empty_conv)
  then show "errors_as as_api e = None" "errors_as as_vce e = None" "\<not> errors_is e ErrLocalRejection"
    by (simp_all add: errors_as_def errors_is_def)
qed

lemma environment_error_class: "environment_error e \<Longrightarrow> classify_err e \<noteq> ClassConfigRejected"
  using environment_error_as [of e] by (simp add: classify_err_rejected_iff rejecting_status_def)

text \<open>Errors that are no verdict on a configuration, however they are wrapped.\<close>

definition no_verdict :: "goerr \<Rightarrow> bool" where
  "no_verdict e \<longleftrightarrow> \<not> errors_is e ErrLocalRejection \<and> (errors_as as_vce e \<noteq> None \<or> errors_as as_api e = None)"

lemma no_verdict_class: "no_verdict e \<Longrightarrow> classify_err e \<noteq> ClassConfigRejected"
  by (auto simp: no_verdict_def classify_err_rejected_iff rejecting_status_def)

lemma no_verdict_wrap [simp]: "no_verdict (Wrap p e q) = no_verdict e"
  by (simp add: no_verdict_def)

lemma no_verdict_plain [simp]: "no_verdict (PlainError t)" "no_verdict Canceled" "no_verdict DeadlineExceeded"
  by (simp_all add: no_verdict_def)

lemma environment_no_verdict: "environment_error e \<Longrightarrow> no_verdict e"
  using environment_error_as [of e] by (simp add: no_verdict_def)

definition rejecting :: "int \<Rightarrow> bool" where
  "rejecting code \<longleftrightarrow> code = 400 \<or> code = 422"

lemma newAPIError_laws [simp]:
  "errors_as as_vce (newAPIError resp) = None" "\<not> errors_is (newAPIError resp) ErrLocalRejection"
  "rejecting_status (newAPIError resp) \<longleftrightarrow> rejecting (rs_status resp)"
  "isNotFound (newAPIError resp) \<longleftrightarrow> rs_status resp = 404"
  by (simp_all add: newAPIError_def Let_def rejecting_status_def rejecting_def isNotFound_def)

lemma answer_rejected:
  assumes "answer out = Inl err" "classify_err err = ClassConfigRejected"
    "\<And>e. out = Inl e \<Longrightarrow> environment_error e"
  obtains resp where "out = Inr resp" "rejecting (rs_status resp)"
proof (cases out)
  case (Inl e)
  with assms show ?thesis by (auto simp: answer_def dest: environment_error_class)
next
  case (Inr resp)
  with assms(1) have "err = newAPIError resp"
    by (auto simp: answer_def split: if_splits)
  with assms(2) have "rejecting (rs_status resp)"
    by (simp add: classify_err_rejected_iff)
  with Inr show ?thesis by (rule that)
qed

section \<open>The version read\<close>

lemma answer_not_local:
  assumes "answer out = Inl err" "\<And>e. out = Inl e \<Longrightarrow> environment_error e"
  shows "\<not> errors_is err ErrLocalRejection"
proof (cases out)
  case (Inl e)
  with assms show ?thesis by (auto simp: answer_def dest: environment_error_as(3))
next
  case (Inr resp)
  with assms(1) show ?thesis by (auto simp: answer_def split: if_splits)
qed

text \<open>How a decoding error can look.\<close>

lemma json_result_error:
  assumes "json_result x zero dec (Inr resp) = Inl err"
    "\<And>e. rs_read_error resp = Some e \<Longrightarrow> environment_error e"
  shows "\<not> errors_is err ErrLocalRejection \<and> errors_as as_api err = None"
proof -
  consider (plain) t where "err = PlainError t" | (read) "rs_read_error resp = Some err"
    using assms(1) by (auto simp: json_result_def decode_stream_def split: if_splits option.splits prod.splits sum.splits)
  then show ?thesis
  proof cases
    case read
    with assms(2) show ?thesis by (auto dest: environment_error_as)
  qed simp
qed

text \<open>What the answer to the version request says, and how the read ends.\<close>

definition version_answer :: "'e ext \<Rightarrow> http_outcome \<Rightarrow> goerr + int" where
  "version_answer x out = json_result x 0 int_of_json (answer out)"

lemma getConfigVersion_cases:
  assumes "run_state (getConfigVersion x c) w = (r, w')"
  obtains (not_sent) err where "x_new_request x (version_request c) = Some err"
      "r = Inl (VersionCheckError err)" "w' = w"
  | (failed) out err where "w_trace w' = w_trace w @ [HttpCall (version_request c) out]"
      "version_answer x out = Inl err" "r = Inl (VersionCheckError err)"
  | (ok) out n where "w_trace w' = w_trace w @ [HttpCall (version_request c) out]"
      "version_answer x out = Inr n" "r = Inr n"
proof -
  obtain r0 where r0: "run_state (do_request x c ''GET'' version_path None ''application/json'') w = (r0, w')"
    and r: "r = (case json_result x 0 int_of_json r0 of Inl err \<Rightarrow> Inl (VersionCheckError err) | Inr n \<Rightarrow> Inr n)"
    using assms by (auto simp: getConfigVersion_def doRequest_def split: prod.splits)
  from r0 show ?thesis
  proof (cases rule: do_request_cases)
    case (not_sent err)
    with r show ?thesis by (intro that(1)) (simp_all add: version_request_def json_result_def)
  next
    case (sent out)
    show ?thesis
    proof (cases "version_answer x out")
      case (Inl err)
      with sent r show ?thesis by (intro that(2)) (simp_all add: version_answer_def version_request_def)
    next
      case (Inr n)
      with sent r show ?thesis by (intro that(3)) (simp_all add: version_answer_def version_request_def)
    qed
  qed
qed

text \<open>Which outcomes an honest environment can produce.\<close>

definition honest_outcome :: "http_outcome \<Rightarrow> bool" where
  "honest_outcome out = (case out of
     Inl err \<Rightarrow> environment_error err
   | Inr resp \<Rightarrow> (case rs_read_error resp of Some err \<Rightarrow> environment_error err | None \<Rightarrow> True))"

definition honest_effect :: "effect \<Rightarrow> bool" where
  "honest_effect e = (case e of HttpCall rq out \<Rightarrow> honest_outcome out | _ \<Rightarrow> True)"

lemma do_http_honest: "honest (x :: 'a ext) \<Longrightarrow> rel (calls honest_effect) (do_http x rq)"
  unfolding rel_def
proof
  fix w :: "'a world"
  assume h: "honest x"
  obtain out dt e where o: "x_http x rq (w_env w) = (out, dt, e)" by (metis prod_cases3)
  with h have "honest_outcome out"
    unfolding honest_def honest_outcome_def by (metis fst_conv)
  then show "calls honest_effect w (snd (run_state (do_http x rq) w))"
    by (simp add: do_http_def o calls_def emits_def honest_effect_def)
qed

lemma do_request_honest: "honest x \<Longrightarrow> rel (calls honest_effect) (do_request x c m p b t)"
  unfolding do_request_def Let_def
  by (intro calls.rel_control do_http_honest observe_leaf_calls)

lemma emits_last: "emits P w w' \<Longrightarrow> w_trace w' = w_trace w @ es \<Longrightarrow> list_all P es"
  by (auto simp: emits_def)

lemma version_error_no_verdict:
  assumes "honest x" "run_state (getConfigVersion x c) w = (Inl err, w')"
  shows "no_verdict err"
proof -
  have "errors_is err ErrLocalRejection = False \<and> errors_as as_vce err \<noteq> None"
    using assms(2)
  proof (cases rule: getConfigVersion_cases)
    case (not_sent e)
    then have "environment_error e" using assms(1) by (auto simp: honest_def split: option.splits)
    with not_sent show ?thesis by (auto dest: environment_error_as)
  next
    case (failed out e)
    have "rel (calls honest_effect) (getConfigVersion x c)"
      unfolding getConfigVersion_def doRequest_def
      by (intro calls.rel_control do_request_honest assms(1))
    from calls_emits [OF relD [OF this, of w]] failed(1) assms(2) have h: "honest_outcome out"
      using emits_last by (fastforce simp: honest_effect_def)
    have "\<not> errors_is e ErrLocalRejection"
    proof (cases "answer out")
      case (Inl e')
      then have "e = e'" using failed(2) by (simp add: version_answer_def json_result_def)
      moreover have "environment_error e0" if "out = Inl e0" for e0
        using h that by (simp add: honest_outcome_def)
      ultimately show ?thesis using answer_not_local [OF Inl] by blast
    next
      case (Inr resp)
      then have "out = Inr resp" by (auto simp: answer_def split: sum.splits if_splits)
      with Inr h failed(2) show ?thesis
        by (auto simp: honest_outcome_def version_answer_def dest!: json_result_error)
    qed
    with failed show ?thesis by simp
  next
    case (ok out n)
    then show ?thesis by simp
  qed
  then show ?thesis by (simp add: no_verdict_def)
qed

section \<open>Sending a configuration\<close>

text \<open>Validation and apply differ in the endpoint only: a version read, then one POST with the
  bytes and the version that was read.\<close>

definition post_raw ::
  "'e ext \<Rightarrow> client \<Rightarrow> (int \<Rightarrow> string) \<Rightarrow> string \<Rightarrow> ('e, goerr option) go" where
  "post_raw x c endpoint raw = do {
     ver \<leftarrow> getConfigVersion x c;
     (case ver of
        Inl err \<Rightarrow> ret (Some err)
      | Inr n \<Rightarrow> do {
          r \<leftarrow> doRequestPlain x c ''POST'' (endpoint n) raw;
          ret (no_result r)
        })
   }"

definition post_request :: "client \<Rightarrow> (int \<Rightarrow> string) \<Rightarrow> string \<Rightarrow> int \<Rightarrow> http_request" where
  "post_request c endpoint raw n =
     make_request c ''POST'' (endpoint n) (if raw \<noteq> [] then Some raw else None) ''text/plain''"

lemma post_raw_instances:
  "ValidateRawConfiguration x c raw = post_raw x c validate_endpoint raw"
  "applyRaw x c raw = post_raw x c apply_endpoint raw"
  "validate_request c raw = post_request c validate_endpoint raw"
  "apply_request c raw = post_request c apply_endpoint raw"
  by (simp_all add: ValidateRawConfiguration_def applyRaw_def post_raw_def
      fun_eq_iff validate_request_def apply_request_def post_request_def)

lemma doRequestPlain_calls:
  assumes "\<And>out. P (HttpCall (post_request c (\<lambda>_. p) raw 0) out)"
  shows "rel (calls P) (doRequestPlain x c ''POST'' p raw)"
  unfolding doRequestPlain_def using assms by (intro do_request_calls) (simp add: post_request_def)

lemma post_raw_calls:
  assumes "\<And>out. P (HttpCall (version_request c) out)" "\<And>n out. P (HttpCall (post_request c endpoint raw n) out)"
  shows "rel (calls P) (post_raw x c endpoint raw)"
  unfolding post_raw_def
proof (intro calls.rel_control doRequestPlain_calls)
  show "rel (calls P) (getConfigVersion x c)"
    by (rule rel_calls_mono [OF getConfigVersion_calls]) (auto simp: sends_def assms(1) split: effect.splits)
qed (use assms(2) in \<open>simp add: post_request_def\<close>)

lemma post_raw_cases:
  assumes "run_state (post_raw x c endpoint raw) w = (r, w')"
  obtains (no_version) err where "run_state (getConfigVersion x c) w = (Inl err, w')" "r = Some err"
  | (not_sent) out n err where "w_trace w' = w_trace w @ [HttpCall (version_request c) out]"
      "version_answer x out = Inr n" "x_new_request x (post_request c endpoint raw n) = Some err" "r = Some err"
  | (sent) out n out' where
      "w_trace w' = w_trace w @ [HttpCall (version_request c) out, HttpCall (post_request c endpoint raw n) out']"
      "version_answer x out = Inr n" "r = no_result (answer out')"
proof -
  obtain v w1 where v: "run_state (getConfigVersion x c) w = (v, w1)" by (metis surj_pair)
  show ?thesis
  proof (cases v)
    case (Inl err)
    with v assms show ?thesis by (intro that(1)) (auto simp: post_raw_def)
  next
    case (Inr n)
    with v obtain out where out: "w_trace w1 = w_trace w @ [HttpCall (version_request c) out]"
        "version_answer x out = Inr n"
      by (auto elim!: getConfigVersion_cases)
    from Inr v assms obtain r0 where r0: "r = no_result r0" and
      r1: "run_state (do_request x c ''POST'' (endpoint n) (if raw \<noteq> [] then Some raw else None) ''text/plain'') w1 = (r0, w')"
      by (auto simp: post_raw_def doRequestPlain_def split: prod.splits)
    from r1 show ?thesis
    proof (cases rule: do_request_cases)
      case (not_sent err)
      with out r0 show ?thesis by (intro that(2)) (simp_all add: post_request_def no_result_def)
    next
      case (sent out')
      with out r0 show ?thesis by (intro that(3)) (simp_all add: post_request_def)
    qed
  qed
qed

lemma no_result_None: "no_result (answer out) = None \<longleftrightarrow> (\<exists>resp. out = Inr resp \<and> success (rs_status resp))"
  by (auto simp: no_result_def answer_def split: sum.splits)

lemma no_result_Some: "no_result (answer out) = Some err \<longleftrightarrow> answer out = Inl err"
  by (auto simp: no_result_def split: sum.splits)

lemma post_raw_success:
  assumes "run_state (post_raw x c endpoint raw) w = (None, w')"
  obtains out n resp where
    "w_trace w' = w_trace w @ [HttpCall (version_request c) out, HttpCall (post_request c endpoint raw n) (Inr resp)]"
    "version_answer x out = Inr n" "success (rs_status resp)"
  using assms
proof (cases rule: post_raw_cases)
  case (sent out n out')
  then show ?thesis using that by (metis no_result_None)
qed auto

lemma calls_honest_outcome:
  assumes "rel (calls honest_effect) m" "run_state m w = (r, w')" "w_trace w' = w_trace w @ es"
    "HttpCall rq out \<in> set es"
  shows "honest_outcome out"
proof -
  from calls_emits [OF relD [OF assms(1), of w]] assms(2) have "emits honest_effect w w'" by simp
  from emits_last [OF this assms(3)] assms(4) show ?thesis by (auto simp: list_all_iff honest_effect_def)
qed

lemma getConfigVersion_honest: "honest x \<Longrightarrow> rel (calls honest_effect) (getConfigVersion x c)"
  unfolding getConfigVersion_def doRequest_def by (intro calls.rel_control do_request_honest)

lemma post_raw_honest: "honest x \<Longrightarrow> rel (calls honest_effect) (post_raw x c endpoint raw)"
  unfolding post_raw_def doRequestPlain_def by (intro calls.rel_control do_request_honest getConfigVersion_honest)

lemma new_request_honest: "honest x \<Longrightarrow> x_new_request x rq = Some err \<Longrightarrow> environment_error err"
  by (auto simp: honest_def split: option.splits)

text \<open>A verdict can only be the answer to the POST itself.\<close>

lemma post_raw_verdict:
  assumes "honest x" "run_state (post_raw x c endpoint raw) w = (Some err, w')"
    "classify_err err = ClassConfigRejected"
  obtains out n resp where
    "w_trace w' = w_trace w @ [HttpCall (version_request c) out, HttpCall (post_request c endpoint raw n) (Inr resp)]"
    "version_answer x out = Inr n" "rejecting (rs_status resp)"
  using assms(2)
proof (cases rule: post_raw_cases)
  case (no_version e)
  then show ?thesis using version_error_no_verdict [OF assms(1)] no_verdict_class assms(3) by auto
next
  case (not_sent out n e)
  then show ?thesis using new_request_honest [OF assms(1)] environment_error_class assms(3) by auto
next
  case (sent out n out')
  have "honest_outcome out'"
    by (rule calls_honest_outcome [OF post_raw_honest [OF assms(1)] assms(2) sent(1),
          of "post_request c endpoint raw n"]) simp
  then obtain resp where "out' = Inr resp" "rejecting (rs_status resp)"
    using sent(3) assms(3) answer_rejected [of out' err]
    by (metis honest_outcome_def no_result_Some old.sum.simps(5))
  with sent show ?thesis using that by blast
qed

section \<open>Waiting for the API\<close>

lemma sends_same_calls: "calls (sends P) w w1 \<Longrightarrow> calls (sends P) w1 w2 \<Longrightarrow> calls (sends P) w w2"
  by (rule calls.R_trans)

lemma wait_loop_calls: "calls (version_read c) w (snd (wait_loop x c deadline lastErr w))"
proof (induction x c deadline lastErr w rule: wait_loop.induct)
  case (1 x c deadline lastErr w)
  obtain r w1 where r: "run_state (getConfigVersion x c) w = (r, w1)" by (metis surj_pair)
  obtain dn w2 where s: "run_state (select_after x readyPollInterval) w1 = (dn, w2)" by (metis surj_pair)
  have a: "calls (version_read c) w w1" using relD [OF getConfigVersion_calls [of c x], of w] r by simp
  have b: "calls (version_read c) w w2"
    using relD [OF select_after_calls [of "version_read c" x readyPollInterval], of w1] s a
    by (auto intro: calls.R_trans)
  show ?case
  proof (cases "w_now w < deadline")
    case True
    have "calls (version_read c) w2 (snd (wait_loop x c deadline (Some err) w2))"
      if "r = Inl err" "dn = None" for err
      using "1.IH" [OF True r [symmetric] that(1) s [symmetric] that(2)] .
    with True r s a b show ?thesis
      by (subst wait_loop.simps) (auto split: sum.split option.split intro: calls.R_trans)
  next
    case False
    then show ?thesis by (subst wait_loop.simps) (simp add: calls.R_refl)
  qed
qed

lemma waitForReady_calls: "rel (calls (version_read c)) (waitForReady x c timeout)"
  by (simp add: rel_def waitForReady_def wait_loop_calls)

lemma select_after_honest:
  assumes "honest x" "run_state (select_after x d) w = (Some e, w')"
  shows "e = Canceled \<or> e = DeadlineExceeded"
proof -
  have "fst (x_wait x d (w_env w)) = Some e"
    using assms(2) by (auto simp: select_after_def split: prod.splits)
  moreover have "case fst (x_wait x d (w_env w)) of Some err \<Rightarrow> err = Canceled \<or> err = DeadlineExceeded | None \<Rightarrow> True"
    using assms(1) unfolding honest_def by blast
  ultimately show ?thesis by simp
qed

lemma wait_loop_error:
  assumes "honest x" "\<And>e. lastErr = Some e \<Longrightarrow> no_verdict e" "fst (wait_loop x c deadline lastErr w) = Some err"
  shows "no_verdict err"
  using assms
proof (induction x c deadline lastErr w arbitrary: err rule: wait_loop.induct)
  case (1 x c deadline lastErr w)
  obtain r w1 where r: "run_state (getConfigVersion x c) w = (r, w1)" by (metis surj_pair)
  obtain dn w2 where s: "run_state (select_after x readyPollInterval) w1 = (dn, w2)" by (metis surj_pair)
  show ?case
  proof (cases "w_now w < deadline")
    case False
    then have "err = (case lastErr of Some e \<Rightarrow> e | None \<Rightarrow> PlainError ''dataplane api not ready'')"
      using "1.prems"(3) by (subst (asm) wait_loop.simps) simp
    then show ?thesis using "1.prems"(2) by (cases lastErr) simp_all
  next
    case True
    with "1.prems"(3) r obtain e where e: "r = Inl e"
      by (subst (asm) wait_loop.simps) (auto split: sum.splits)
    show ?thesis
    proof (cases dn)
      case None
      have "fst (wait_loop x c deadline (Some e) w2) = Some err"
        using "1.prems"(3) True r s e None by (subst (asm) wait_loop.simps) simp
      with "1.IH" [OF True r [symmetric] e s [symmetric] None "1.prems"(1)] show ?thesis
        using version_error_no_verdict [OF "1.prems"(1)] r e by blast
    next
      case (Some e')
      with "1.prems"(3) True r s e have "err = e'" by (subst (asm) wait_loop.simps) simp
      with select_after_honest [OF "1.prems"(1)] s Some show ?thesis by fastforce
    qed
  qed
qed

lemma waitForReady_error:
  "honest x \<Longrightarrow> run_state (waitForReady x c timeout) w = (Some err, w') \<Longrightarrow> no_verdict err"
  using wait_loop_error [of x None c "w_now w + timeout" w err] by (simp add: waitForReady_def)

text \<open>A wait that succeeds has just had its version read answered.\<close>

lemma wait_loop_success:
  assumes "wait_loop x c deadline lastErr w = (None, w')"
  shows "\<exists>out n. last (w_trace w') = HttpCall (version_request c) out \<and> version_answer x out = Inr n
    \<and> w_trace w' \<noteq> []"
  using assms
proof (induction x c deadline lastErr w rule: wait_loop.induct)
  case (1 x c deadline lastErr w)
  obtain r w1 where r: "run_state (getConfigVersion x c) w = (r, w1)" by (metis surj_pair)
  obtain dn w2 where s: "run_state (select_after x readyPollInterval) w1 = (dn, w2)" by (metis surj_pair)
  have True: "w_now w < deadline"
    using "1.prems" by (subst (asm) wait_loop.simps) (auto split: if_splits)
  show ?case
  proof (cases r)
    case (Inr n)
    with "1.prems" True r have "w1 = w'" by (subst (asm) wait_loop.simps) simp
    with r Inr show ?thesis by (auto elim!: getConfigVersion_cases)
  next
    case (Inl e)
    with "1.prems" True r s have dn: "dn = None"
      by (subst (asm) wait_loop.simps) (auto split: option.splits)
    have "wait_loop x c deadline (Some e) w2 = (None, w')"
      using "1.prems" True r s Inl dn by (subst (asm) wait_loop.simps) simp
    with "1.IH" [OF True r [symmetric] Inl s [symmetric] dn] show ?thesis by blast
  qed
qed

section \<open>Applying\<close>

lemma apply_validated_calls:
  assumes "\<And>out. P (HttpCall (version_request c) out)" "\<And>n out. P (HttpCall (apply_request c raw n) out)"
  shows "rel (calls P) (ApplyRawConfigurationValidated x c raw)"
  unfolding ApplyRawConfigurationValidated_def
proof (intro calls.rel_control)
  show "rel (calls P) (waitForReady x c dataplaneReadyTimeout)"
    by (rule rel_calls_mono [OF waitForReady_calls]) (auto simp: sends_def assms(1) split: effect.splits)
  show "rel (calls P) (applyRaw x c raw)"
    unfolding post_raw_instances by (rule post_raw_calls) (use assms post_raw_instances(4) in auto)
qed

lemma apply_validated_cases:
  assumes "run_state (ApplyRawConfigurationValidated x c raw) w = (r, w')"
  obtains (not_ready) err where "run_state (waitForReady x c dataplaneReadyTimeout) w = (Some err, w')"
      "r = Some (Wrap ''dataplane api not ready: '' err [])"
  | (ready) w1 where "run_state (waitForReady x c dataplaneReadyTimeout) w = (None, w1)"
      "run_state (post_raw x c apply_endpoint raw) w1 = (r, w')"
  using assms
  by (auto simp: ApplyRawConfigurationValidated_def post_raw_instances split: prod.splits option.splits)

lemma apply_validated_verdict:
  assumes "honest x" "run_state (ApplyRawConfigurationValidated x c raw) w = (Some err, w')"
    "classify_err err = ClassConfigRejected"
  obtains n resp pre where "w_trace w' = w_trace w @ pre @ [HttpCall (apply_request c raw n) (Inr resp)]"
    "rejecting (rs_status resp)"
  using assms(2)
proof (cases rule: apply_validated_cases)
  case (not_ready e)
  with waitForReady_error [OF assms(1) not_ready(1)] no_verdict_class assms(3) show ?thesis
    by (metis no_verdict_wrap option.inject)
next
  case (ready w1)
  obtain es where es: "w_trace w1 = w_trace w @ es"
    using relD [OF waitForReady_calls [of c x dataplaneReadyTimeout], of w] ready(1)
    by (auto simp: calls_def emits_def)
  obtain out n resp where
    "w_trace w' = w_trace w1 @ [HttpCall (version_request c) out, HttpCall (apply_request c raw n) (Inr resp)]"
    "rejecting (rs_status resp)"
    using post_raw_verdict [OF assms(1) ready(2) assms(3)] by (metis post_raw_instances(4))
  with es that [of "es @ [HttpCall (version_request c) out]"] show ?thesis by simp
qed

section \<open>The live read and the certificate storage\<close>

definition live_request :: "client \<Rightarrow> http_request" where
  "live_request c = make_request c ''GET'' raw_path None ''text/plain''"

lemma GetRawConfiguration_calls: "rel (calls (sends (\<lambda>rq. rq = live_request c))) (GetRawConfiguration x c)"
  unfolding GetRawConfiguration_def doRequestPlain_def
  by (intro calls.rel_control do_request_calls) (simp add: live_request_def)

text \<open>A request that leaves the configuration store as it is.\<close>

definition spares_config :: "client \<Rightarrow> http_request \<Rightarrow> bool" where
  "spares_config c rq \<longleftrightarrow> \<not> is_apply c rq"

text \<open>The requests to the certificate storage, and with the two reads all that do not touch the
  configuration.\<close>

definition cert_endpoint :: "string \<Rightarrow> string" where
  "cert_endpoint name = storage_path @ ''/'' @ path_escape name"

definition cert_read :: "client \<Rightarrow> string \<Rightarrow> http_request" where
  "cert_read c name = make_request c ''GET'' (cert_endpoint name) None ''application/json''"

definition cert_put :: "client \<Rightarrow> string \<Rightarrow> bytes \<Rightarrow> http_request" where
  "cert_put c name pem = make_request c ''PUT'' (cert_endpoint name) (if pem \<noteq> [] then Some pem else None) ''text/plain''"

definition cert_post :: "client \<Rightarrow> string \<Rightarrow> string \<Rightarrow> bytes \<Rightarrow> http_request" where
  "cert_post c boundary name pem = make_request c ''POST'' storage_path (Some (multipart_body boundary name pem))
     (''multipart/form-data; boundary='' @ boundary)"

definition storage_request :: "client \<Rightarrow> http_request \<Rightarrow> bool" where
  "storage_request c rq \<longleftrightarrow> rq = version_request c \<or> rq = live_request c
     \<or> (\<exists>name. rq = cert_read c name) \<or> (\<exists>name pem. rq = cert_put c name pem)
     \<or> (\<exists>boundary name pem. rq = cert_post c boundary name pem)"

lemma storage_request_kind: "storage_request c rq \<Longrightarrow> \<not> is_apply c rq \<and> \<not> is_validate c rq"
  using storage_not_config [of "c_base c"]
  by (auto simp: storage_request_def is_apply_def is_validate_def config_path_def version_request_def
      live_request_def cert_read_def cert_put_def cert_post_def)

lemma storage_requests:
  "storage_request c (version_request c)" "storage_request c (live_request c)" "storage_request c (cert_read c name)"
  "storage_request c (cert_put c name pem)" "storage_request c (cert_post c boundary name pem)"
  unfolding storage_request_def by blast+

lemmas version_storage = storage_requests(1) and live_storage = storage_requests(2)

lemma SyncSSLCertificate_calls: "rel (calls (sends (storage_request c))) (SyncSSLCertificate x c name pem prev)"
proof -
  have w: "rel (calls (sends (storage_request c))) (waitForReady x c dataplaneReadyTimeout)"
    by (rule rel_calls_mono [OF waitForReady_calls]) (auto simp: sends_def version_storage split: effect.splits)
  show ?thesis
    unfolding SyncSSLCertificate_def createSSLCertificate_def doRequest_def doRequestPlain_def Let_def
    using storage_requests(3-5)
    by (intro calls.rel_control w do_request_calls env_call_calls)
      (simp_all add: cert_read_def cert_put_def cert_post_def cert_endpoint_def)
qed

end
