(* ===== verification/Hashing.thy ===== *)
theory Hashing
  imports Go_Prelude
begin

unbundle bit_operations_syntax

text \<open>
  \<^verbatim>\<open>internal/config/loader.go\<close>: the SHA-256 fingerprint every
  comparison of the controller rests on. SHA-256 is spelt out (FIPS 180-4) on 32-bit words.
  The locale at the end is what the controller needs of a fingerprint.
\<close>

section \<open>SHA-256\<close>

type_synonym w32 = "32 word"

definition sha_k :: "w32 list" where
  "sha_k =
    [1116352408, 1899447441, 3049323471, 3921009573, 961987163, 1508970993, 2453635748, 2870763221,
     3624381080, 310598401, 607225278, 1426881987, 1925078388, 2162078206, 2614888103, 3248222580,
     3835390401, 4022224774, 264347078, 604807628, 770255983, 1249150122, 1555081692, 1996064986,
     2554220882, 2821834349, 2952996808, 3210313671, 3336571891, 3584528711, 113926993, 338241895,
     666307205, 773529912, 1294757372, 1396182291, 1695183700, 1986661051, 2177026350, 2456956037,
     2730485921, 2820302411, 3259730800, 3345764771, 3516065817, 3600352804, 4094571909, 275423344,
     430227734, 506948616, 659060556, 883997877, 958139571, 1322822218, 1537002063, 1747873779,
     1955562222, 2024104815, 2227730452, 2361852424, 2428436474, 2756734187, 3204031479, 3329325298]"

definition sha_init :: "w32 list" where
  "sha_init =
    [1779033703, 3144134277, 1013904242, 2773480762, 1359893119, 2600822924, 528734635, 1541459225]"

definition rotr :: "nat \<Rightarrow> w32 \<Rightarrow> w32" where
  "rotr n x = drop_bit n x OR push_bit (32 - n) x"

definition small_sigma0 :: "w32 \<Rightarrow> w32" where
  "small_sigma0 x = rotr 7 x XOR rotr 18 x XOR drop_bit 3 x"

definition small_sigma1 :: "w32 \<Rightarrow> w32" where
  "small_sigma1 x = rotr 17 x XOR rotr 19 x XOR drop_bit 10 x"

definition big_sigma0 :: "w32 \<Rightarrow> w32" where
  "big_sigma0 x = rotr 2 x XOR rotr 13 x XOR rotr 22 x"

definition big_sigma1 :: "w32 \<Rightarrow> w32" where
  "big_sigma1 x = rotr 6 x XOR rotr 11 x XOR rotr 25 x"

definition sha_ch :: "w32 \<Rightarrow> w32 \<Rightarrow> w32 \<Rightarrow> w32" where
  "sha_ch x y z = (x AND y) XOR (NOT x AND z)"

definition sha_maj :: "w32 \<Rightarrow> w32 \<Rightarrow> w32 \<Rightarrow> w32" where
  "sha_maj x y z = (x AND y) XOR (x AND z) XOR (y AND z)"

text \<open>The message schedule, kept with the newest word first.\<close>

fun sha_extend :: "nat \<Rightarrow> w32 list \<Rightarrow> w32 list" where
  "sha_extend 0 ws = ws"
| "sha_extend (Suc n) ws =
     sha_extend n ((small_sigma1 (ws ! 1) + ws ! 6 + small_sigma0 (ws ! 14) + ws ! 15) # ws)"

definition sha_schedule :: "w32 list \<Rightarrow> w32 list" where
  "sha_schedule block = rev (sha_extend 48 (rev block))"

type_synonym sha_state = "w32 \<times> w32 \<times> w32 \<times> w32 \<times> w32 \<times> w32 \<times> w32 \<times> w32"

fun sha_round :: "sha_state \<Rightarrow> w32 \<times> w32 \<Rightarrow> sha_state" where
  "sha_round (a, b, c, d, e, f, g, h) (k, w) =
    (let t1 = h + big_sigma1 e + sha_ch e f g + k + w;
         t2 = big_sigma0 a + sha_maj a b c
     in (t1 + t2, a, b, c, d + t1, e, f, g))"

fun sha_compress :: "sha_state \<Rightarrow> w32 list \<Rightarrow> sha_state" where
  "sha_compress (a, b, c, d, e, f, g, h) block =
    (case foldl sha_round (a, b, c, d, e, f, g, h) (zip sha_k (sha_schedule block)) of
      (a', b', c', d', e', f', g', h') \<Rightarrow>
        (a + a', b + b', c + c', d + d', e + e', f + f', g + g', h + h'))"

text \<open>Padding: 0x80, zeros, the bit length as 8 bytes, all big-endian.\<close>

type_synonym w8 = "8 word"

definition be_bytes :: "nat \<Rightarrow> 'a::len word \<Rightarrow> w8 list" where
  "be_bytes n v = map (\<lambda>i. ucast (drop_bit (8 * i) v)) (rev [0..<n])"

definition sha_pad :: "w8 list \<Rightarrow> w8 list" where
  "sha_pad msg =
    msg @ 0x80 # replicate ((119 - length msg mod 64) mod 64) 0 @
    be_bytes 8 (8 * of_nat (length msg) :: 64 word)"

fun be_words :: "w8 list \<Rightarrow> w32 list" where
  "be_words (a # b # c # d # bs) =
     (push_bit 24 (ucast a) OR push_bit 16 (ucast b) OR push_bit 8 (ucast c) OR ucast d)
       # be_words bs"
| "be_words _ = []"

function sha_blocks :: "sha_state \<Rightarrow> w32 list \<Rightarrow> sha_state" where
  "sha_blocks s ws = (if ws = [] then s else sha_blocks (sha_compress s (take 16 ws)) (drop 16 ws))"
  by pat_completeness auto
termination
  by (relation "measure (length \<circ> snd)") auto

declare sha_blocks.simps [simp del]

fun sha_words :: "sha_state \<Rightarrow> w32 list" where
  "sha_words (a, b, c, d, e, f, g, h) = [a, b, c, d, e, f, g, h]"

definition sha256_words :: "string \<Rightarrow> w32 list" where
  "sha256_words msg =
    sha_words (sha_blocks
      (sha_init ! 0, sha_init ! 1, sha_init ! 2, sha_init ! 3,
       sha_init ! 4, sha_init ! 5, sha_init ! 6, sha_init ! 7)
      (be_words (sha_pad (map of_char msg))))"

definition sha256_sum :: "string \<Rightarrow> w8 list" where
  "sha256_sum msg = concat (map (be_bytes 4) (sha256_words msg))"

section \<open>HashBytes\<close>

definition hex_digit :: "nat \<Rightarrow> char" where
  "hex_digit n = ''0123456789abcdef'' ! n"

definition hex_encode :: "w8 list \<Rightarrow> string" where
  "hex_encode bs =
    concat (map (\<lambda>b. [hex_digit (unat (drop_bit 4 b)), hex_digit (unat (b AND 15))]) bs)"

definition HashBytes :: "bytes \<Rightarrow> string" where
  "HashBytes cfg = hex_encode (sha256_sum cfg)"

definition is_hex :: "char \<Rightarrow> bool" where
  "is_hex c \<longleftrightarrow> c \<in> set ''0123456789abcdef''"

lemma length_be_bytes [simp]: "length (be_bytes n v) = n"
  by (simp add: be_bytes_def)

lemma length_sha_words [simp]: "length (sha_words s) = 8"
  by (induction s rule: sha_words.induct) simp

lemma length_concat_const: "(\<And>x. length (f x) = n) \<Longrightarrow> length (concat (map f xs)) = n * length xs"
  by (induction xs) simp_all

lemma length_sha256_sum [simp]: "length (sha256_sum m) = 32"
  by (simp add: sha256_sum_def sha256_words_def length_concat_const [where n = 4])

lemma nibbles: "unat (drop_bit 4 b) < 16" "unat (b AND 15) < 16" for b :: w8
proof -
  have "unat (drop_bit 4 b) = unat b div 16" by (simp add: drop_bit_eq_div unat_div)
  moreover have "unat b < 256" using unsigned_less [of b, where 'a = nat] by simp
  ultimately show "unat (drop_bit 4 b) < 16" by simp
  have "unat (b AND 15) \<le> unat (15 :: w8)"
    by (rule word_and_le1 [THEN word_le_nat_alt [THEN iffD1]])
  then show "unat (b AND 15) < 16" by simp
qed

lemma length_HashBytes: "length (HashBytes m) = 64"
  by (simp add: HashBytes_def hex_encode_def length_concat_const [where n = 2])

lemma hex_digit_is_hex:
  assumes "n < 16"
  shows "is_hex (hex_digit n)"
proof -
  have "n < length ''0123456789abcdef''" using assms by simp
  then show ?thesis unfolding is_hex_def hex_digit_def by (rule nth_mem)
qed

lemma HashBytes_hex: "list_all is_hex (HashBytes m)"
  by (auto simp: HashBytes_def hex_encode_def list_all_iff intro!: hex_digit_is_hex nibbles)

text \<open>What a fingerprint must not collide with: the empty string (an annotation that is not
  there) and the marker of a baseline that is still pending.\<close>

locale fingerprint =
  fixes hash :: "bytes \<Rightarrow> string"
  assumes hash_length: "length (hash m) = 64"
    and hash_digits: "list_all is_hex (hash m)"
begin

lemma hash_nonempty: "hash m \<noteq> []"
  using hash_length [of m] by auto

lemma hash_not_short: "length s \<noteq> 64 \<Longrightarrow> hash m \<noteq> s"
  using hash_length [of m] by auto

end

interpretation sha: fingerprint HashBytes
  by unfold_locales (simp_all add: length_HashBytes HashBytes_hex)

end
