(* ===== verification/Secrets.thy ===== *)
theory Secrets
  imports World Hashing
begin

text \<open>
  The parts of \<^verbatim>\<open>secret_controller.go\<close> that do not talk to the gateway: the settings, the
  annotation keys, the retry delays, the exported hash gauge, which Secret changes count, and the
  two ways the operator writes annotations. The lemmas bound the delays, show that every write
  touches the operator's own keys only, that such a write never triggers a new reconcile, and that
  at most one hash series is exported.
\<close>

section \<open>Constants and settings\<close>

definition operator_prefix :: string where "operator_prefix = ''haproxy.operator/''"
definition LastAppliedHashAnnotation :: string where
  "LastAppliedHashAnnotation = ''haproxy.operator/last-applied-hash''"
definition LastObservedHashAnnotation :: string where
  "LastObservedHashAnnotation = ''haproxy.operator/last-observed-hash''"
definition LastFailedHashAnnotation :: string where
  "LastFailedHashAnnotation = ''haproxy.operator/last-failed-hash''"
definition StatusAnnotation :: string where "StatusAnnotation = ''haproxy.operator/status''"
definition StatusMessageAnnotation :: string where
  "StatusMessageAnnotation = ''haproxy.operator/status-message''"
definition LastUpdateTimeAnnotation :: string where
  "LastUpdateTimeAnnotation = ''haproxy.operator/last-update-time''"
definition LastAppliedTimeAnnotation :: string where
  "LastAppliedTimeAnnotation = ''haproxy.operator/last-applied-time''"
definition CertSyncAnnotation :: string where "CertSyncAnnotation = ''haproxy.operator/cert-sync''"
definition observedHashPending :: string where "observedHashPending = ''pending''"

definition RequeueInterval :: duration where "RequeueInterval = 5 * minute"
definition baseRetryInterval :: duration where "baseRetryInterval = 30 * second"
definition maxRetryInterval :: duration where "maxRetryInterval = 5 * minute"

lemmas annotation_defs = LastAppliedHashAnnotation_def LastObservedHashAnnotation_def
  LastFailedHashAnnotation_def StatusAnnotation_def StatusMessageAnnotation_def
  LastUpdateTimeAnnotation_def LastAppliedTimeAnnotation_def CertSyncAnnotation_def

lemma interval_values [simp]:
  "RequeueInterval = 300000000000" "baseRetryInterval = 30000000000" "maxRetryInterval = 300000000000"
  by (simp_all add: RequeueInterval_def baseRetryInterval_def maxRetryInterval_def)

record settings =
  SecretName :: string
  SecretKey :: string
  APIConfig :: api_config
  SpireSocketPath :: string
  Recorder :: bool
  CertsSecretNames :: "string list"
  DriftRemediate :: bool

section \<open>Retry delays\<close>

definition backoffForFailure :: "int \<Rightarrow> duration" where
  "backoffForFailure failures =
    (let failures = (if failures < 0 then 0 else failures) in
     if failures > 7 then maxRetryInterval
     else (let d = push_bit (nat failures) baseRetryInterval in
           if maxRetryInterval <s d then maxRetryInterval else d))"

text \<open>\<^verbatim>\<open>int\<close> is a signed 64-bit integer; the failure counter is incremented in it.\<close>

definition int_succ :: "int \<Rightarrow> int" where
  "int_succ n = (n + 1 + 2 ^ 63) mod 2 ^ 64 - 2 ^ 63"

definition count_failure :: "('e, duration) go" where
  "count_failure = do {
     modify_rec (\<lambda>r. r\<lparr>transientFailures := int_succ (transientFailures r)\<rparr>);
     n \<leftarrow> gets (\<lambda>w. transientFailures (w_rec w));
     ret (backoffForFailure n)
   }"

section \<open>Metrics\<close>

definition exportConfigHash :: "string \<Rightarrow> string \<Rightarrow> ('e, unit) go" where
  "exportConfigHash hash state = do {
     r \<leftarrow> gets w_rec;
     modify_metrics (\<lambda>m. m\<lparr>ConfigHash := fmupd (hash, state) 1
       (if lastMetricHash r \<noteq> [] \<and> (lastMetricHash r \<noteq> hash \<or> lastMetricState r \<noteq> state)
        then fmdrop (lastMetricHash r, lastMetricState r) (ConfigHash m) else ConfigHash m)\<rparr>);
     modify_rec (\<lambda>r. r\<lparr>lastMetricHash := hash, lastMetricState := state\<rparr>)
   }"

definition eventReasonForClass :: "error_class \<Rightarrow> string" where
  "eventReasonForClass c =
    (case c of
       ClassAuth \<Rightarrow> AuthError
     | ClassTLS \<Rightarrow> TLSConnectionErr
     | ClassConnection \<Rightarrow> ConnectionError
     | ClassConflict \<Rightarrow> ConflictError
     | _ \<Rightarrow> TransientError)"

section \<open>Which changes count\<close>

definition stripOperatorAnnotations :: "string gomap \<Rightarrow> string gomap" where
  "stripOperatorAnnotations m =
    (if go_map m = fmempty then None
     else (let out = fmfilter (\<lambda>k. \<not> has_prefix k operator_prefix) (go_map m)
           in if out = fmempty then None else Some out))"

definition isRelevantUpdate :: "secret option \<Rightarrow> secret option \<Rightarrow> bool" where
  "isRelevantUpdate old new =
    (case (old, new) of
       (Some o1, Some n1) \<Rightarrow>
         (if s_labels o1 \<noteq> s_labels n1 then True
          else if s_data o1 \<noteq> s_data n1 then True
          else if stripOperatorAnnotations (s_annotations o1) \<noteq> stripOperatorAnnotations (s_annotations n1)
            then True
          else False)
     | _ \<Rightarrow> True)"

definition shouldReconcile :: "settings \<Rightarrow> secret \<Rightarrow> bool" where
  "shouldReconcile cfg secret =
    (if SecretName cfg \<noteq> [] then s_name secret = SecretName cfg else True)"

section \<open>Writing annotations\<close>

type_synonym mutation = "(string, string) fmap \<Rightarrow> (string, string) fmap"

definition is_conflict :: "goerr \<Rightarrow> bool" where
  "is_conflict e \<longleftrightarrow> errors_as as_kube e = Some KConflict"

definition is_missing :: "goerr \<Rightarrow> bool" where
  "is_missing e \<longleftrightarrow> errors_as as_kube e = Some KNotFound"

definition mutated :: "mutation \<Rightarrow> secret \<Rightarrow> secret" where
  "mutated f s = s\<lparr>s_annotations := Some (f (go_map (s_annotations s)))\<rparr>"

text \<open>The error and the object the caller holds afterwards: as mutated when the write failed, as
  the API server returned it when it succeeded.\<close>

definition patchAnnotations :: "'e ext \<Rightarrow> secret \<Rightarrow> mutation \<Rightarrow> ('e, goerr option \<times> secret) go" where
  "patchAnnotations x secret f = do {
     r \<leftarrow> kube_patch x secret (mutated f secret);
     ret (case r of Inl err \<Rightarrow> (Some err, mutated f secret) | Inr s \<Rightarrow> (None, s))
   }"

definition status_mutation :: "string \<Rightarrow> string \<Rightarrow> string \<Rightarrow> mutation \<Rightarrow> mutation" where
  "status_mutation statusVal message time extra ann =
     extra (fmupd LastUpdateTimeAnnotation time
       (fmupd StatusMessageAnnotation (SanitizeMessage message) (fmupd StatusAnnotation statusVal ann)))"

definition failWithStatus ::
  "'e ext \<Rightarrow> secret \<Rightarrow> string \<Rightarrow> string \<Rightarrow> mutation \<Rightarrow> ('e, goerr option \<times> secret) go" where
  "failWithStatus x secret statusVal message extra = do {
     now \<leftarrow> gets w_now;
     r \<leftarrow> patchAnnotations x secret (status_mutation statusVal message (x_format_time x now) extra);
     ret (case r of
            (Some err, s) \<Rightarrow> (if is_conflict err then None else Some err, s)
          | (None, s) \<Rightarrow> (None, s))
   }"

text \<open>The mutations of the reconcile loop.\<close>

definition no_extra :: mutation where "no_extra ann = ann"

definition reject_mutation :: "string \<Rightarrow> mutation" where
  "reject_mutation hash ann = fmupd LastFailedHashAnnotation hash ann"

definition clear_status :: mutation where
  "clear_status ann = fmdrop StatusMessageAnnotation (fmupd StatusAnnotation ''Applied'' ann)"

definition adopt_baseline :: "string \<Rightarrow> mutation" where
  "adopt_baseline hash ann =
    fmdrop StatusMessageAnnotation
      (fmupd StatusAnnotation ''Applied'' (fmupd LastObservedHashAnnotation hash ann))"

definition record_applied :: "string \<Rightarrow> string \<Rightarrow> string \<Rightarrow> mutation" where
  "record_applied hash observed time ann =
    fmdrop StatusMessageAnnotation (fmdrop LastFailedHashAnnotation
      (fmupd LastAppliedTimeAnnotation time (fmupd StatusAnnotation ''Applied''
        (fmupd LastObservedHashAnnotation observed (fmupd LastAppliedHashAnnotation hash ann)))))"

definition record_cert_sync :: "string \<Rightarrow> mutation" where
  "record_cert_sync raw ann = fmupd CertSyncAnnotation raw ann"

section \<open>Delays are bounded\<close>

lemma backoff_table:
  "backoffForFailure 0 = 30000000000" "backoffForFailure 1 = 60000000000"
  "backoffForFailure 2 = 120000000000" "backoffForFailure 3 = 240000000000"
  "backoffForFailure 4 = 300000000000" "backoffForFailure 5 = 300000000000"
  "backoffForFailure 6 = 300000000000" "backoffForFailure 7 = 300000000000"
  by (simp_all add: backoffForFailure_def Let_def push_bit_eq_mult word_sless_alt)

lemma backoff_small: "n < 8 \<Longrightarrow> backoffForFailure (int n) =
   [30000000000, 60000000000, 120000000000, 240000000000, 300000000000, 300000000000, 300000000000, 300000000000] ! n"
proof -
  assume "n < 8"
  then consider "n = 0" | "n = 1" | "n = 2" | "n = 3" | "n = 4" | "n = 5" | "n = 6" | "n = 7" by linarith
  then show ?thesis by cases (simp_all add: backoff_table)
qed

lemma backoff_outside: "n < 0 \<Longrightarrow> backoffForFailure n = backoffForFailure 0"
  "7 < n \<Longrightarrow> backoffForFailure n = maxRetryInterval"
  by (simp_all add: backoffForFailure_def)

text \<open>C39: the delay after a failure is exactly the doubled base delay capped at five minutes, for every
  counter value the machine integer can hold, and never wraps around.\<close>

theorem backoff_exact:
  "sint (backoffForFailure n) = min (30000000000 * 2 ^ nat (max 0 n)) 300000000000"
proof -
  consider "n < 0" | "0 \<le> n" "n < 8" | "7 < n" by linarith
  then show ?thesis
  proof cases
    case 1
    then show ?thesis by (simp add: backoff_outside(1) backoff_table)
  next
    case 2
    then consider "n = 0" | "n = 1" | "n = 2" | "n = 3" | "n = 4" | "n = 5" | "n = 6" | "n = 7" by linarith
    then show ?thesis by cases (simp_all add: backoff_table)
  next
    case 3
    then have "(2::int) ^ 4 \<le> 2 ^ nat n" by (intro power_increasing) auto
    with 3 show ?thesis by (simp add: backoff_outside(2))
  qed
qed

section \<open>Writes stay within the operator's keys\<close>

lemma strip_eq:
  "stripOperatorAnnotations m =
     (let out = fmfilter (\<lambda>k. \<not> has_prefix k operator_prefix) (go_map m)
      in if out = fmempty then None else Some out)"
  by (simp add: stripOperatorAnnotations_def Let_def)

locale operator_mutation =
  fixes f :: mutation
  assumes foreign_kept: "\<not> has_prefix k operator_prefix \<Longrightarrow> fmlookup (f ann) k = fmlookup ann k"
begin

lemma strip_filter:
  "fmfilter (\<lambda>k. \<not> has_prefix k operator_prefix) (f ann) = fmfilter (\<lambda>k. \<not> has_prefix k operator_prefix) ann"
  by (rule fmap_ext) (simp add: foreign_kept)

lemma strip_kept: "stripOperatorAnnotations (Some (f (go_map m))) = stripOperatorAnnotations m"
  by (simp add: strip_eq strip_filter Let_def)

lemma mutated_irrelevant: "\<not> isRelevantUpdate (Some s) (Some (mutated f s))"
  by (simp add: isRelevantUpdate_def mutated_def strip_kept)

lemma mutated_foreign:
  "\<not> has_prefix k operator_prefix \<Longrightarrow> go_lookup (s_annotations (mutated f s)) k = go_lookup (s_annotations s) k"
  by (simp add: mutated_def go_lookup_def foreign_kept)

end

lemma operator_keys:
  "has_prefix LastAppliedHashAnnotation operator_prefix" "has_prefix LastObservedHashAnnotation operator_prefix"
  "has_prefix LastFailedHashAnnotation operator_prefix" "has_prefix StatusAnnotation operator_prefix"
  "has_prefix StatusMessageAnnotation operator_prefix" "has_prefix LastUpdateTimeAnnotation operator_prefix"
  "has_prefix LastAppliedTimeAnnotation operator_prefix" "has_prefix CertSyncAnnotation operator_prefix"
  by (simp_all add: annotation_defs operator_prefix_def has_prefix_def)

lemma keys_distinct: "distinct [LastAppliedHashAnnotation, LastObservedHashAnnotation,
   LastFailedHashAnnotation, StatusAnnotation, StatusMessageAnnotation, LastUpdateTimeAnnotation,
   LastAppliedTimeAnnotation, CertSyncAnnotation]"
  by (simp add: annotation_defs)

interpretation no_extra_op: operator_mutation no_extra
  by unfold_locales (simp add: no_extra_def)

interpretation reject_op: operator_mutation "reject_mutation hash" for hash
  by unfold_locales (use operator_keys in \<open>auto simp: reject_mutation_def\<close>)

interpretation clear_op: operator_mutation clear_status
  by unfold_locales (use operator_keys in \<open>auto simp: clear_status_def\<close>)

interpretation adopt_op: operator_mutation "adopt_baseline hash" for hash
  by unfold_locales (use operator_keys in \<open>auto simp: adopt_baseline_def\<close>)

interpretation applied_op: operator_mutation "record_applied hash observed time" for hash observed time
  by unfold_locales (use operator_keys in \<open>auto simp: record_applied_def\<close>)

interpretation cert_op: operator_mutation "record_cert_sync raw" for raw
  by unfold_locales (use operator_keys in \<open>auto simp: record_cert_sync_def\<close>)

lemma status_operator:
  assumes "operator_mutation extra"
  shows "operator_mutation (status_mutation statusVal message time extra)"
  by (rule operator_mutation.intro)
    (use operator_keys in \<open>auto simp: status_mutation_def operator_mutation.foreign_kept [OF assms]\<close>)

text \<open>A patch the operator sends: the object as it was read and one of its own mutations of it.\<close>

definition own_patch :: "secret \<Rightarrow> secret \<Rightarrow> bool" where
  "own_patch orig new \<longleftrightarrow>
     new\<lparr>s_annotations := s_annotations orig\<rparr> = orig
   \<and> (\<forall>k. \<not> has_prefix k operator_prefix \<longrightarrow>
        go_lookup (s_annotations new) k = go_lookup (s_annotations orig) k)"

lemma own_patch_mutated:
  assumes "operator_mutation f"
  shows "own_patch s (mutated f s)"
  using operator_mutation.mutated_foreign [OF assms] by (simp add: own_patch_def mutated_def)

section \<open>One exported hash series\<close>

definition single_series :: "'e world \<Rightarrow> bool" where
  "single_series w \<longleftrightarrow>
     ConfigHash (w_metrics w) =
       (if lastMetricHash (w_rec w) = [] then fmempty
        else fmupd (lastMetricHash (w_rec w), lastMetricState (w_rec w)) 1 fmempty)"

lemma exportConfigHash_run:
  "run_state (exportConfigHash hash state) w = ((), w\<lparr>
     w_metrics := (w_metrics w)\<lparr>ConfigHash := fmupd (hash, state) 1
       (if lastMetricHash (w_rec w) \<noteq> [] \<and> (lastMetricHash (w_rec w) \<noteq> hash \<or> lastMetricState (w_rec w) \<noteq> state)
        then fmdrop (lastMetricHash (w_rec w), lastMetricState (w_rec w)) (ConfigHash (w_metrics w))
        else ConfigHash (w_metrics w))\<rparr>,
     w_rec := (w_rec w)\<lparr>lastMetricHash := hash, lastMetricState := state\<rparr>\<rparr>)"
  by (simp add: exportConfigHash_def modify_metrics_def modify_rec_def gets_def)

lemma single_series_export:
  assumes "single_series w" "hash \<noteq> []"
  shows "single_series (snd (run_state (exportConfigHash hash state) w))"
proof -
  have "fmupd (hash, state) (1::int) (fmdrop (a, b) (fmupd (a, b) 1 fmempty)) = fmupd (hash, state) 1 fmempty"
    for a b by (rule fmap_ext) simp
  moreover have "fmupd (hash, state) (1::int) (fmupd (hash, state) 1 fmempty) = fmupd (hash, state) 1 fmempty"
    by (rule fmap_ext) simp
  ultimately show ?thesis
    using assms by (auto simp: single_series_def exportConfigHash_run)
qed

text \<open>Exporting an outcome replaces the previous series: the gauge has exactly one series, the
  latest desired hash with its latest state.\<close>

theorem config_hash_single_series:
  assumes "single_series w" "hash \<noteq> []"
  shows "let w' = snd (run_state (exportConfigHash hash state) w) in
    single_series w' \<and> ConfigHash (w_metrics w') = fmupd (hash, state) 1 fmempty"
  using single_series_export [OF assms, of state] assms(2)
  by (simp add: Let_def) (simp add: exportConfigHash_run single_series_def)

theorem config_hash_single_series_witness:
  "ConfigHash (w_metrics (snd (run_state (exportConfigHash ''ab'' ''applied'') (initial_world ())))) =
     fmupd (''ab'', ''applied'') 1 fmempty"
proof -
  have "single_series (initial_world ())"
    by (simp add: single_series_def initial_world_def initial_metrics_def initial_reconciler_def)
  from config_hash_single_series [OF this, of "''ab''" "''applied''"] show ?thesis
    by (simp add: Let_def)
qed

section \<open>Which updates start a reconcile\<close>

text \<open>A Secret update is ignored exactly when labels and data are unchanged and no foreign annotation
  differs; annotations of the operator never start a reconcile.\<close>

theorem relevant_update_iff:
  "\<not> isRelevantUpdate (Some a) (Some b) \<longleftrightarrow>
     s_labels a = s_labels b \<and> s_data a = s_data b
   \<and> \<not> (\<exists>k. \<not> has_prefix k operator_prefix
          \<and> go_lookup (s_annotations a) k \<noteq> go_lookup (s_annotations b) k)"
proof -
  let ?p = "\<lambda>k. \<not> has_prefix k operator_prefix"
  have "stripOperatorAnnotations m = stripOperatorAnnotations m' \<longleftrightarrow> fmfilter ?p (go_map m) = fmfilter ?p (go_map m')"
    for m m' by (auto simp: strip_eq Let_def)
  moreover have "fmfilter ?p f = fmfilter ?p g \<longleftrightarrow> (\<forall>k. ?p k \<longrightarrow> fmlookup f k = fmlookup g k)" for f g :: "(string, string) fmap"
    by (metis (mono_tags, lifting) fmap_ext fmlookup_filter)
  ultimately show ?thesis
    by (auto simp: isRelevantUpdate_def go_lookup_def)
qed

text \<open>Every mutation the reconcile loop can apply, for the values it records.\<close>

definition operator_mutations :: "string \<Rightarrow> string \<Rightarrow> string \<Rightarrow> string \<Rightarrow> string \<Rightarrow> string \<Rightarrow> mutation list" where
  "operator_mutations hash observed time raw statusVal message =
    [clear_status, adopt_baseline hash, record_applied hash observed time, record_cert_sync raw,
     status_mutation statusVal message time no_extra,
     status_mutation statusVal message time (reject_mutation hash)]"

lemma operator_mutations_ops:
  "f \<in> set (operator_mutations hash observed time raw statusVal message) \<Longrightarrow> operator_mutation f"
  using clear_op.operator_mutation_axioms adopt_op.operator_mutation_axioms
    applied_op.operator_mutation_axioms cert_op.operator_mutation_axioms
    status_operator [OF no_extra_op.operator_mutation_axioms]
    status_operator [OF reject_op.operator_mutation_axioms]
  by (auto simp: operator_mutations_def)

text \<open>The mutations that record no verdict on a configuration.\<close>

definition base_mutation :: "mutation \<Rightarrow> bool" where
  "base_mutation f \<longleftrightarrow> f = clear_status \<or> (\<exists>h. f = adopt_baseline h) \<or> (\<exists>raw. f = record_cert_sync raw)
     \<or> (\<exists>v m t. f = status_mutation v m t no_extra)"

lemma base_mutations:
  "base_mutation clear_status" "base_mutation (adopt_baseline h)" "base_mutation (record_cert_sync raw)"
  "base_mutation (status_mutation v m t no_extra)"
  unfolding base_mutation_def by blast+

lemma base_mutation_op: "base_mutation f \<Longrightarrow> operator_mutation f"
  using clear_op.operator_mutation_axioms adopt_op.operator_mutation_axioms
    cert_op.operator_mutation_axioms status_operator [OF no_extra_op.operator_mutation_axioms]
  by (auto simp: base_mutation_def)

lemmas reject_mutation_op = status_operator [OF reject_op.operator_mutation_axioms]

text \<open>C38: whatever the operator writes, for every outcome it records, only its own annotations differ
  from the object it read, and the watch event of the write is filtered out.\<close>

theorem operator_writes_invisible:
  "list_all (\<lambda>f. own_patch s (mutated f s) \<and> \<not> isRelevantUpdate (Some s) (Some (mutated f s)))
     (operator_mutations hash observed time raw statusVal message)"
  unfolding list_all_iff
  using operator_mutations_ops own_patch_mutated operator_mutation.mutated_irrelevant by blast

section \<open>Fingerprints and markers\<close>

text \<open>A configuration's fingerprint is 64 lower-case hexadecimal digits, so it is never taken for
  an annotation that is missing nor for the marker of a baseline that is still pending.\<close>

theorem fingerprint_not_marker:
  "length (HashBytes m) = 64 \<and> list_all is_hex (HashBytes m)
   \<and> HashBytes m \<noteq> go_get None k \<and> HashBytes m \<noteq> observedHashPending"
  using sha.hash_length [of m] sha.hash_digits [of m] sha.hash_nonempty [of m]
    sha.hash_not_short [of observedHashPending m]
  by (simp add: observedHashPending_def go_get_def go_lookup_def)

end
