(* ===== verification/Cert_Sync.thy ===== *)
theory Cert_Sync
  imports Client_Laws Secrets
begin

text \<open>
  \<^verbatim>\<open>internal/controller/certs.go\<close> and the cached client: assembling the PEM bundle of a TLS
  Secret, the sync record kept as JSON in an annotation of the config Secret, pushing one
  certificate and pushing all managed ones. Assigning to a nil map panics, so a push can end in
  \<open>Panicked\<close>.
\<close>

section \<open>The cached client\<close>

text \<open>\<^verbatim>\<open>spire.TLSTransport\<close>: the source, or why there is none; the transport is the one that
  verifies with the source.\<close>

definition TLSTransport :: "'e ext \<Rightarrow> string \<Rightarrow> ('e, goerr option) go" where
  "TLSTransport x socketPath = do {
     src \<leftarrow> env_call (x_spire_source x socketPath);
     ret (map_option (\<lambda>err. Wrap ''create SPIRE x509 source: '' err []) src)
   }"

definition getOrCreateClient :: "'e ext \<Rightarrow> settings \<Rightarrow> ('e, goerr + client) go" where
  "getOrCreateClient x cfg = do {
     cached \<leftarrow> gets (\<lambda>w. haproxyClient (w_rec w));
     (case cached of
        Some c \<Rightarrow> ret (Inr c)
      | None \<Rightarrow> do {
          made \<leftarrow>
            (if SpireSocketPath cfg \<noteq> [] then do {
               src \<leftarrow> TLSTransport x (SpireSocketPath cfg);
               (case src of
                  Some err \<Rightarrow> ret (Inl (Wrap ''SPIRE transport: '' err []))
                | None \<Rightarrow>
                    (case NewClientWithTransport x (APIConfig cfg) SpireTransport of
                       Inl err \<Rightarrow> ret (Inl err)
                     | Inr c \<Rightarrow> do {
                         modify_rec (\<lambda>r. r\<lparr>spireSource := True\<rparr>);
                         ret (Inr c)
                       }))
             } else NewClient x (APIConfig cfg));
          (case made of
             Inl err \<Rightarrow> ret (Inl err)
           | Inr c \<Rightarrow> do {
               modify_rec (\<lambda>r. r\<lparr>haproxyClient := Some c\<rparr>);
               ret (Inr c)
             })
        })
   }"

text \<open>The readiness probe.\<close>

definition DataplaneReady :: "'e ext \<Rightarrow> settings \<Rightarrow> ('e, goerr option) go" where
  "DataplaneReady x cfg = do {
     c \<leftarrow> getOrCreateClient x cfg;
     (case c of
        Inl err \<Rightarrow> ret (Some (Wrap ''dataplane client init: '' err []))
      | Inr c \<Rightarrow> do {
          p \<leftarrow> Ping x c;
          ret (case p of Some err \<Rightarrow> Some (Wrap ''dataplane probe: '' err []) | None \<Rightarrow> None)
        })
   }"

section \<open>PEM bundles\<close>

definition is_space :: "nat \<Rightarrow> bool" where
  "is_space r \<longleftrightarrow> 9 \<le> r \<and> r \<le> 13 \<or> r = 0x20 \<or> r = 0x85 \<or> r = 0xA0 \<or> r = 0x1680
     \<or> 0x2000 \<le> r \<and> r \<le> 0x200A \<or> r \<in> {0x2028, 0x2029, 0x202F, 0x205F, 0x3000}"

function trim_left :: "string \<Rightarrow> string" where
  "trim_left s =
    (if s = [] then []
     else if is_space (fst (decode_rune s)) then trim_left (drop (max 1 (snd (decode_rune s))) s)
     else s)"
  by pat_completeness auto
termination
  by (relation "measure length") auto

declare trim_left.simps [simp del]

text \<open>The last rune: back to the nearest byte that can start one, at most four bytes.\<close>

definition last_width :: "string \<Rightarrow> nat" where
  "last_width s =
    (case List.find (\<lambda>k. k \<le> length s \<and> \<not> (0x80 \<le> byte (s ! (length s - k)) \<and> byte (s ! (length s - k)) < 0xC0))
       [1, 2, 3, 4] of None \<Rightarrow> 1 | Some k \<Rightarrow> k)"

definition decode_last_rune :: "string \<Rightarrow> nat \<times> nat" where
  "decode_last_rune s =
    (let k = last_width s; (r, w) = decode_rune (drop (length s - k) s)
     in if w = k then (r, w) else (rune_error, 1))"

function trim_right :: "string \<Rightarrow> string" where
  "trim_right s =
    (if s = [] then []
     else if is_space (fst (decode_last_rune s))
       then trim_right (take (length s - max 1 (snd (decode_last_rune s))) s)
     else s)"
  by pat_completeness auto
termination
  by (relation "measure length") auto

declare trim_right.simps [simp del]

definition trim_space :: "string \<Rightarrow> string" where
  "trim_space s = trim_right (trim_left s)"

definition go_bytes :: "bytes gomap \<Rightarrow> string \<Rightarrow> bytes" where
  "go_bytes m k = (case go_lookup m k of None \<Rightarrow> [] | Some b \<Rightarrow> b)"

definition certPEMBundle :: "secret \<Rightarrow> goerr + bytes" where
  "certPEMBundle secret =
    (let crt = trim_space (go_bytes (s_data secret) ''tls.crt'');
         key = trim_space (go_bytes (s_data secret) ''tls.key'');
         ca = trim_space (go_bytes (s_data secret) ''ca.crt'')
     in if crt = [] \<or> key = [] then
          Inl (PlainError (''secret '' @ s_name secret @ '' must contain tls.crt and tls.key''))
        else Inr (crt @ [CHR 0x0A] @ (if ca \<noteq> [] then ca @ [CHR 0x0A] else []) @ key @ [CHR 0x0A]))"

section \<open>The sync record\<close>

record cert_entry =
  ce_hash :: string
  ce_time :: string

type_synonym cert_state = "(string, cert_entry) fmap option"

definition entry_zero :: cert_entry where "entry_zero = \<lparr>ce_hash = [], ce_time = []\<rparr>"

text \<open>\<^verbatim>\<open>Unmarshal\<close> goes on after a field of the wrong type and leaves it alone; the caller
  drops the error.\<close>

definition entry_field :: "cert_entry \<Rightarrow> string \<times> json \<Rightarrow> cert_entry" where
  "entry_field r kv =
    (case (field_of [''hash'', ''time''] (fst kv), snd kv) of
       (Some f, JStr v) \<Rightarrow> if f = ''hash'' then r\<lparr>ce_hash := v\<rparr> else r\<lparr>ce_time := v\<rparr>
     | _ \<Rightarrow> r)"

definition entry_of_json :: "json \<Rightarrow> cert_entry" where
  "entry_of_json v = (case v of JObj kvs \<Rightarrow> foldl entry_field entry_zero kvs | _ \<Rightarrow> entry_zero)"

definition certSyncState :: "secret option \<Rightarrow> cert_state" where
  "certSyncState s =
    (case s of
       None \<Rightarrow> Some fmempty
     | Some s \<Rightarrow>
         (case decode_all (annotation s CertSyncAnnotation) of
            Some JNull \<Rightarrow> None
          | Some (JObj kvs) \<Rightarrow> Some (foldl (\<lambda>m kv. fmupd (fst kv) (entry_of_json (snd kv)) m) fmempty kvs)
          | _ \<Rightarrow> Some fmempty))"

definition entry_hash :: "cert_state \<Rightarrow> string \<Rightarrow> string" where
  "entry_hash st name =
    (case st of None \<Rightarrow> [] | Some m \<Rightarrow> (case fmlookup m name of None \<Rightarrow> [] | Some e \<Rightarrow> ce_hash e))"

definition encode_entry :: "string \<Rightarrow> cert_entry \<Rightarrow> string" where
  "encode_entry k e =
    json_string k @ '':{'' @ json_string ''hash'' @ '':'' @ json_string (ce_hash e) @ '','' @
    json_string ''time'' @ '':'' @ json_string (ce_time e) @ ''}''"

definition encode_state :: "(string, cert_entry) fmap \<Rightarrow> string" where
  "encode_state m =
    ''{'' @ join_with (CHR '','') (map (\<lambda>k. encode_entry k (the (fmlookup m k))) (sorted_list_of_fset (fmdom m)))
      @ ''}''"

section \<open>Pushing\<close>

datatype 'a outcome = Returned 'a | Panicked

definition cert_hash :: "reconciler \<Rightarrow> string \<Rightarrow> string" where
  "cert_hash r name = (case fmlookup (certSyncHashes r) name of None \<Rightarrow> [] | Some h \<Rightarrow> h)"

text \<open>The answer is whether the gateway was written, and an error; beside it the config Secret as
  the caller's pointer sees it afterwards.\<close>

definition pushCertSecret ::
  "'e ext \<Rightarrow> client \<Rightarrow> secret \<Rightarrow> secret option \<Rightarrow> ('e, (bool \<times> goerr option) outcome \<times> secret option) go" where
  "pushCertSecret x c secret stateSecret =
    (case certPEMBundle secret of
       Inl err \<Rightarrow> ret (Returned (False, Some err), stateSecret)
     | Inr pem \<Rightarrow>
         (let storageName = s_name secret @ ''.pem'';
              hash = HashBytes pem;
              state = certSyncState stateSecret in do {
            r \<leftarrow> gets w_rec;
            res \<leftarrow> SyncSSLCertificate x c storageName pem
              (entry_hash state (s_name secret) = hash \<or> cert_hash r (s_name secret) = hash);
            (case res of
               (changed, Some err) \<Rightarrow> ret (Returned (False, Some err), stateSecret)
             | (changed, None) \<Rightarrow> do {
                 modify_rec (\<lambda>r. r\<lparr>certSyncHashes := fmupd (s_name secret) hash (certSyncHashes r)\<rparr>);
                 (case stateSecret of
                    None \<Rightarrow> ret (Returned (changed, None), None)
                  | Some st \<Rightarrow>
                      if \<not> (changed \<or> entry_hash state (s_name secret) \<noteq> hash)
                      then ret (Returned (changed, None), Some st)
                      else (case state of
                          None \<Rightarrow> ret (Panicked, Some st)
                        | Some m \<Rightarrow> do {
                            now \<leftarrow> gets w_now;
                            p \<leftarrow> patchAnnotations x st (record_cert_sync (encode_state
                              (fmupd (s_name secret) \<lparr>ce_hash = hash, ce_time = x_format_time x now\<rparr> m)));
                            (case p of
                               (Some perr, st') \<Rightarrow>
                                 if \<not> is_conflict perr
                                 then ret (Returned (changed, Some (Wrap ''record cert sync state: '' perr [])), Some st')
                                 else ret (Returned (changed, None), Some st')
                             | (None, st') \<Rightarrow> ret (Returned (changed, None), Some st'))
                          }))
               })
          }))"

definition pushed_message :: "string \<Rightarrow> string" where
  "pushed_message name = ''pushed '' @ name @ ''.pem to Dataplane ssl_certificates storage''"

text \<open>\<open>same\<close> says that both pointers of the caller are the same object.\<close>

definition syncCertSecret ::
  "'e ext \<Rightarrow> settings \<Rightarrow> bool \<Rightarrow> secret \<Rightarrow> secret option \<Rightarrow> ('e, goerr option outcome \<times> secret option) go" where
  "syncCertSecret x cfg same secret stateSecret = do {
     c \<leftarrow> getOrCreateClient x cfg;
     (case c of
        Inl err \<Rightarrow> ret (Returned (Some err), stateSecret)
      | Inr c \<Rightarrow> do {
          p \<leftarrow> pushCertSecret x c secret stateSecret;
          (case p of
             (Panicked, st) \<Rightarrow> ret (Panicked, st)
           | (Returned (changed, Some err), st) \<Rightarrow> ret (Returned (Some err), st)
           | (Returned (changed, None), st) \<Rightarrow>
               (let obj = (case st of Some s \<Rightarrow> if same then s else secret | None \<Rightarrow> secret) in do {
                  (if changed then emit (Recorder cfg) (key_of obj) CertSynced (pushed_message (s_name obj))
                   else ret ());
                  ret (Returned None, st)
                }))
        })
   }"

text \<open>\<^verbatim>\<open>%q\<close> for the names of Secrets; runes above ASCII are taken to be printable.\<close>

definition quote_rune :: "nat \<Rightarrow> string" where
  "quote_rune r =
    (if r = 0x22 \<or> r = 0x5C then [CHR 0x5C, char_of r]
     else if r = 7 then [CHR 0x5C, CHR ''a''] else if r = 8 then [CHR 0x5C, CHR ''b'']
     else if r = 12 then [CHR 0x5C, CHR ''f''] else if r = 10 then [CHR 0x5C, CHR ''n'']
     else if r = 13 then [CHR 0x5C, CHR ''r''] else if r = 9 then [CHR 0x5C, CHR ''t'']
     else if r = 11 then [CHR 0x5C, CHR ''v'']
     else if r < 0x20 \<or> r = 0x7F then [CHR 0x5C, CHR ''x'', lower_hex (r div 16), lower_hex (r mod 16)]
     else encode_rune r)"

definition go_quote :: "string \<Rightarrow> string" where
  "go_quote s = [CHR 0x22] @ concat (map quote_rune (runes s)) @ [CHR 0x22]"

primrec ensureCertSecretsSynced ::
  "'e ext \<Rightarrow> string \<Rightarrow> client \<Rightarrow> string list \<Rightarrow> secret \<Rightarrow> ('e, goerr option outcome \<times> secret) go" where
  "ensureCertSecretsSynced x namespace c [] stateSecret = ret (Returned None, stateSecret)"
| "ensureCertSecretsSynced x namespace c (name # names) stateSecret = do {
     g \<leftarrow> kube_get x (namespace, name);
     (case g of
        Inl err \<Rightarrow> ret (Returned (Some (Wrap (''fetch cert secret '' @ go_quote name @ '': '') err [])), stateSecret)
      | Inr s \<Rightarrow> do {
          p \<leftarrow> pushCertSecret x c s (Some stateSecret);
          (let st = (case snd p of Some st \<Rightarrow> st | None \<Rightarrow> stateSecret) in
           case fst p of
             Panicked \<Rightarrow> ret (Panicked, st)
           | Returned (changed, Some err) \<Rightarrow>
               ret (Returned (Some (Wrap (''sync cert secret '' @ go_quote name @ '': '') err [])), st)
           | Returned (changed, None) \<Rightarrow> ensureCertSecretsSynced x namespace c names st)
        })
   }"

end
