(* ===== verification/Reconcile.thy ===== *)
theory Reconcile
  imports Cert_Sync
begin

text \<open>
  \<^verbatim>\<open>Reconcile\<close> of \<^verbatim>\<open>secret_controller.go\<close> and the validator it calls, one definition
  per stage in the order of the code: the certificate event, the drift check, the gate before the
  gateway is touched, validation, apply, and the record of the outcome. A stage either ends the
  reconcile with a \<open>result\<close> or hands on to the next.
\<close>

datatype result = RequeueAfter duration | Failed goerr | PanicResult

section \<open>Outcomes the stages share\<close>

definition Validate :: "'e ext \<Rightarrow> client \<Rightarrow> string \<Rightarrow> ('e, goerr option) go" where
  "Validate x c raw =
    (if raw = [] then ret (Some (Wrap ''empty configuration ('' ErrLocalRejection '')''))
     else ValidateRawConfiguration x c raw)"

definition count_class :: "error_class \<Rightarrow> ('e, unit) go" where
  "count_class class = modify_metrics (\<lambda>m. m\<lparr>TransientErrors := inc (StatusValue class) (TransientErrors m)\<rparr>)"

definition count_result :: "string \<Rightarrow> ('e, unit) go" where
  "count_result label = modify_metrics (\<lambda>m. m\<lparr>ReconcileResults := inc label (ReconcileResults m)\<rparr>)"

definition count_attempt :: "string \<Rightarrow> ('e, unit) go" where
  "count_attempt phase = modify_metrics (\<lambda>m. m\<lparr>ReconcileAttempts := inc phase (ReconcileAttempts m)\<rparr>)"

definition set_in_sync :: "string \<Rightarrow> int \<Rightarrow> ('e, unit) go" where
  "set_in_sync name v = modify_metrics (\<lambda>m. m\<lparr>ConfigInSync := fmupd name v (ConfigInSync m)\<rparr>)"

text \<open>Write the status, count the failure, come back after the backoff.\<close>

definition fail_transient :: "'e ext \<Rightarrow> secret \<Rightarrow> string \<Rightarrow> goerr \<Rightarrow> ('e, result) go" where
  "fail_transient x secret statusVal err = do {
     u \<leftarrow> failWithStatus x secret statusVal (error_text err) no_extra;
     (case fst u of
        Some uerr \<Rightarrow> ret (Failed uerr)
      | None \<Rightarrow> do {
          d \<leftarrow> count_failure;
          ret (RequeueAfter d)
        })
   }"

text \<open>The same with the class counted and an event; the prefix names the stage.\<close>

definition transient_failure ::
  "'e ext \<Rightarrow> settings \<Rightarrow> secret \<Rightarrow> string \<Rightarrow> goerr \<Rightarrow> ('e, result) go" where
  "transient_failure x cfg secret stage err =
    (let class = classify_err err in do {
       count_class class;
       emit (Recorder cfg) (key_of secret) (eventReasonForClass class) (error_text err);
       fail_transient x secret (stage @ StatusValue class) err
     })"

definition client_failure :: "'e ext \<Rightarrow> secret \<Rightarrow> goerr \<Rightarrow> ('e, result) go" where
  "client_failure x secret err =
    (let class = classify_err err in do {
       count_class class;
       fail_transient x secret (StatusValue class) err
     })"

text \<open>A deterministic rejection: remember the hash, do not count a failure.\<close>

definition reject_config ::
  "'e ext \<Rightarrow> settings \<Rightarrow> secret \<Rightarrow> string \<Rightarrow> goerr \<Rightarrow> ('e, result) go" where
  "reject_config x cfg secret currentHash err = do {
     emit (Recorder cfg) (key_of secret) ConfigRejected (error_text err);
     exportConfigHash currentHash ''rejected'';
     u \<leftarrow> failWithStatus x secret (StatusValue ClassConfigRejected) (error_text err)
            (reject_mutation currentHash);
     ret (case fst u of Some uerr \<Rightarrow> Failed uerr | None \<Rightarrow> RequeueAfter RequeueInterval)
   }"

section \<open>The certificate event\<close>

text \<open>The config Secret of a certificate event: the event's own Secret, or the named one, or none.\<close>

definition find_config_secret ::
  "'e ext \<Rightarrow> settings \<Rightarrow> object_key \<Rightarrow> secret \<Rightarrow> ('e, goerr + secret option) go" where
  "find_config_secret x cfg req secret =
    (if SecretName cfg \<noteq> [] \<and> s_name secret \<noteq> SecretName cfg then do {
       g \<leftarrow> kube_get x (fst req, SecretName cfg);
       ret (case g of
              Inl err \<Rightarrow> if \<not> is_missing err then Inl err else Inr None
            | Inr s \<Rightarrow> Inr (Some s))
     } else ret (Inr (Some secret)))"

definition cert_failure ::
  "'e ext \<Rightarrow> settings \<Rightarrow> secret \<Rightarrow> secret option \<Rightarrow> goerr \<Rightarrow> ('e, result) go" where
  "cert_failure x cfg obj cfgSecret err =
    (let class = classify_err err in do {
       count_class class;
       emit (Recorder cfg) (key_of obj) CertSyncFailed (error_text err);
       (case cfgSecret of
          Some st \<Rightarrow> fail_transient x st (''CertSync'' @ StatusValue class) err
        | None \<Rightarrow> do {
            d \<leftarrow> count_failure;
            ret (RequeueAfter d)
          })
     })"

definition clear_stale :: "'e ext \<Rightarrow> string \<Rightarrow> secret \<Rightarrow> ('e, secret) go" where
  "clear_stale x stage secret =
    (if has_prefix (annotation secret StatusAnnotation) stage then do {
       u \<leftarrow> patchAnnotations x secret clear_status;
       ret (snd u)
     } else ret secret)"

definition forget_rejection :: "secret \<Rightarrow> secret" where
  "forget_rejection s = s\<lparr>s_annotations := go_delete LastFailedHashAnnotation (s_annotations s)\<rparr>"

definition reconcile_cert ::
  "'e ext \<Rightarrow> settings \<Rightarrow> object_key \<Rightarrow> secret \<Rightarrow> ('e, result + secret) go" where
  "reconcile_cert x cfg req secret = do {
     found \<leftarrow> find_config_secret x cfg req secret;
     (case found of
        Inl err \<Rightarrow> ret (Inl (Failed err))
      | Inr cfgSecret \<Rightarrow>
          (let same = (SecretName cfg = [] \<or> s_name secret = SecretName cfg) in do {
             s \<leftarrow> syncCertSecret x cfg same secret cfgSecret;
             (case s of
                (Panicked, st) \<Rightarrow> ret (Inl PanicResult)
              | (Returned (Some err), st) \<Rightarrow> do {
                  r \<leftarrow> cert_failure x cfg (case st of Some o1 \<Rightarrow> if same then o1 else secret | None \<Rightarrow> secret) st err;
                  ret (Inl r)
                }
              | (Returned None, st) \<Rightarrow>
                  (if SecretName cfg = [] then ret (Inl (RequeueAfter RequeueInterval))
                   else (case st of
                      None \<Rightarrow> ret (Inl (RequeueAfter RequeueInterval))
                    | Some cs \<Rightarrow> do {
                        cs' \<leftarrow> clear_stale x ''CertSync'' cs;
                        ret (Inr (forget_rejection cs'))
                      })))
           }))
   }"

section \<open>The drift check\<close>

definition drift_text :: string where
  "drift_text = ''live configuration drifted from the applied config''"

definition suppressed_text :: string where
  "suppressed_text = drift_text @ '', but the desired config is suppressed (its last apply was rejected); not re-applying''"

definition disabled_text :: string where
  "disabled_text = drift_text @ ''; re-apply disabled (drift-remediate=false)''"

definition reapplying_text :: string where
  "reapplying_text = drift_text @ ''; re-applying the desired config''"

definition count_drift :: "string \<Rightarrow> ('e, unit) go" where
  "count_drift name = modify_metrics (\<lambda>m. m\<lparr>ConfigDrift := inc name (ConfigDrift m),
     ConfigInSync := fmupd name 0 (ConfigInSync m)\<rparr>)"

text \<open>Drift was found: suppressed, alert-only, or fall through to re-apply (\<open>None\<close>).\<close>

definition drift_found :: "settings \<Rightarrow> secret \<Rightarrow> string \<Rightarrow> ('e, result option) go" where
  "drift_found cfg secret currentHash = do {
     count_drift (s_name secret);
     (if currentHash = annotation secret LastFailedHashAnnotation then do {
        emit (Recorder cfg) (key_of secret) ConfigDriftReason suppressed_text;
        ret (Some (RequeueAfter RequeueInterval))
      } else if \<not> DriftRemediate cfg then do {
        emit (Recorder cfg) (key_of secret) ConfigDriftReason disabled_text;
        ret (Some (RequeueAfter RequeueInterval))
      } else do {
        emit (Recorder cfg) (key_of secret) ConfigDriftReason reapplying_text;
        ret None
      })
   }"

text \<open>The live configuration was read.\<close>

definition compare_live :: "'e ext \<Rightarrow> settings \<Rightarrow> secret \<Rightarrow> string \<Rightarrow> string \<Rightarrow> ('e, result option) go" where
  "compare_live x cfg secret currentHash liveRaw = do {
     modify_rec (\<lambda>r. r\<lparr>transientFailures := 0\<rparr>);
     (let liveHash = HashBytes liveRaw; observed = annotation secret LastObservedHashAnnotation in
      if observed = observedHashPending then do {
        u \<leftarrow> patchAnnotations x secret (adopt_baseline liveHash);
        set_in_sync (s_name (snd u)) 1;
        ret (Some (RequeueAfter RequeueInterval))
      } else if liveHash = (if observed = [] then annotation secret LastAppliedHashAnnotation else observed) then do {
        set_in_sync (s_name secret) 1;
        s \<leftarrow> clear_stale x ''DriftCheck'' secret;
        ret (Some (RequeueAfter RequeueInterval))
      } else drift_found cfg secret currentHash)
   }"

definition check_drift :: "'e ext \<Rightarrow> settings \<Rightarrow> secret \<Rightarrow> string \<Rightarrow> ('e, result option) go" where
  "check_drift x cfg secret currentHash = do {
     c \<leftarrow> getOrCreateClient x cfg;
     (case c of
        Inl err \<Rightarrow> do {
          r \<leftarrow> client_failure x secret err;
          ret (Some r)
        }
      | Inr c \<Rightarrow> do {
          live \<leftarrow> GetRawConfiguration x c;
          (case live of
             Inl err \<Rightarrow> do {
               r \<leftarrow> transient_failure x cfg secret ''DriftCheck'' err;
               ret (Some r)
             }
           | Inr liveRaw \<Rightarrow> compare_live x cfg secret currentHash liveRaw)
        })
   }"

section \<open>The gate\<close>

definition note_desired :: "string \<Rightarrow> ('e, unit) go" where
  "note_desired currentHash = modify_rec (\<lambda>r.
     if lastDesiredHash r \<noteq> currentHash then r\<lparr>transientFailures := 0, lastDesiredHash := currentHash\<rparr> else r)"

text \<open>Reset for new bytes, suppression, client, certificates: a result, or the client and the config
  Secret as the certificate record left it.\<close>

definition prepare ::
  "'e ext \<Rightarrow> settings \<Rightarrow> secret \<Rightarrow> string \<Rightarrow> ('e, result + client \<times> secret) go" where
  "prepare x cfg secret currentHash = do {
     note_desired currentHash;
     (if currentHash = annotation secret LastFailedHashAnnotation then ret (Inl (RequeueAfter RequeueInterval))
      else do {
        c \<leftarrow> getOrCreateClient x cfg;
        (case c of
           Inl err \<Rightarrow> do {
             r \<leftarrow> client_failure x secret err;
             ret (Inl r)
           }
         | Inr c \<Rightarrow>
             (if CertsSecretNames cfg = [] then ret (Inr (c, secret))
              else do {
                count_attempt ''cert-sync'';
                e \<leftarrow> ensureCertSecretsSynced x (s_namespace secret) c (CertsSecretNames cfg) secret;
                (case e of
                   (Panicked, st) \<Rightarrow> ret (Inl PanicResult)
                 | (Returned (Some err), st) \<Rightarrow> do {
                     r \<leftarrow> transient_failure x cfg st ''CertSync'' err;
                     ret (Inl r)
                   }
                 | (Returned None, st) \<Rightarrow> ret (Inr (c, st)))
              }))
      })
   }"

section \<open>Validation and apply\<close>

definition validate_phase ::
  "'e ext \<Rightarrow> settings \<Rightarrow> client \<Rightarrow> secret \<Rightarrow> string \<Rightarrow> string \<Rightarrow> ('e, result option) go" where
  "validate_phase x cfg c secret currentHash raw = do {
     count_attempt ''validate'';
     v \<leftarrow> Validate x c raw;
     (case v of
        None \<Rightarrow> ret None
      | Some err \<Rightarrow> do {
          count_result (StatusValue (classify_err err));
          r \<leftarrow> (if classify_err err = ClassConfigRejected then reject_config x cfg secret currentHash err
                else transient_failure x cfg secret [] err);
          ret (Some r)
        })
   }"

definition apply_phase ::
  "'e ext \<Rightarrow> settings \<Rightarrow> client \<Rightarrow> secret \<Rightarrow> string \<Rightarrow> string \<Rightarrow> ('e, result option) go" where
  "apply_phase x cfg c secret currentHash raw = do {
     emit (Recorder cfg) (key_of secret) ValidationPassed [];
     count_attempt ''apply'';
     a \<leftarrow> ApplyRawConfigurationValidated x c raw;
     (case a of
        None \<Rightarrow> ret None
      | Some err \<Rightarrow> do {
          count_result (StatusValue (classify_err err));
          r \<leftarrow> (if classify_err err = ClassConfigRejected then reject_config x cfg secret currentHash err
                else transient_failure x cfg secret ''Apply'' err);
          ret (Some r)
        })
   }"

definition observe_applied :: "'e ext \<Rightarrow> client \<Rightarrow> ('e, string) go" where
  "observe_applied x c = do {
     live \<leftarrow> GetRawConfiguration x c;
     ret (case live of Inr raw \<Rightarrow> HashBytes raw | Inl err \<Rightarrow> observedHashPending)
   }"

definition record_phase :: "'e ext \<Rightarrow> settings \<Rightarrow> client \<Rightarrow> secret \<Rightarrow> string \<Rightarrow> ('e, result) go" where
  "record_phase x cfg c secret currentHash = do {
     emit (Recorder cfg) (key_of secret) ApplySucceeded [];
     count_result ''applied'';
     exportConfigHash currentHash ''applied'';
     applied_at \<leftarrow> gets w_now;
     modify_metrics (\<lambda>m. m\<lparr>LastSuccessfulApply := applied_at\<rparr>);
     set_in_sync (s_name secret) 1;
     modify_rec (\<lambda>r. r\<lparr>transientFailures := 0\<rparr>);
     observed \<leftarrow> observe_applied x c;
     now \<leftarrow> gets w_now;
     u \<leftarrow> patchAnnotations x secret (record_applied currentHash observed (x_format_time x now));
     ret (case fst u of
            Some err \<Rightarrow> if is_conflict err then RequeueAfter (backoffForFailure 0) else Failed err
          | None \<Rightarrow> RequeueAfter RequeueInterval)
   }"

section \<open>The reconcile\<close>

definition push_config ::
  "'e ext \<Rightarrow> settings \<Rightarrow> secret \<Rightarrow> string \<Rightarrow> string \<Rightarrow> ('e, result) go" where
  "push_config x cfg secret currentHash raw = do {
     p \<leftarrow> prepare x cfg secret currentHash;
     (case p of
        Inl r \<Rightarrow> ret r
      | Inr (c, st) \<Rightarrow> do {
          v \<leftarrow> validate_phase x cfg c st currentHash raw;
          (case v of
             Some r \<Rightarrow> ret r
           | None \<Rightarrow> do {
               a \<leftarrow> apply_phase x cfg c st currentHash raw;
               (case a of
                  Some r \<Rightarrow> ret r
                | None \<Rightarrow> record_phase x cfg c st currentHash)
             })
        })
   }"

definition missing_key_error :: "settings \<Rightarrow> goerr" where
  "missing_key_error cfg = PlainError (''key '' @ SecretKey cfg @ '' not found in Secret'')"

definition reconcile_config :: "'e ext \<Rightarrow> settings \<Rightarrow> secret \<Rightarrow> ('e, result) go" where
  "reconcile_config x cfg secret =
    (if \<not> shouldReconcile cfg secret then ret (RequeueAfter 0)
     else (case go_lookup (s_data secret) (SecretKey cfg) of
        None \<Rightarrow> do {
          u \<leftarrow> failWithStatus x secret ''Error'' (error_text (missing_key_error cfg)) no_extra;
          ret (case fst u of Some uerr \<Rightarrow> Failed uerr | None \<Rightarrow> RequeueAfter baseRetryInterval)
        }
      | Some raw \<Rightarrow>
          (let currentHash = HashBytes raw in
           if currentHash = annotation secret LastAppliedHashAnnotation then do {
             d \<leftarrow> check_drift x cfg secret currentHash;
             (case d of Some r \<Rightarrow> ret r | None \<Rightarrow> push_config x cfg secret currentHash raw)
           } else push_config x cfg secret currentHash raw)))"

definition Reconcile :: "'e ext \<Rightarrow> settings \<Rightarrow> object_key \<Rightarrow> ('e, result) go" where
  "Reconcile x cfg req =
    (let isCert = (snd req \<in> set (CertsSecretNames cfg)) in
     if SecretName cfg \<noteq> [] \<and> snd req \<noteq> SecretName cfg \<and> \<not> isCert then ret (RequeueAfter 0)
     else do {
       g \<leftarrow> kube_get x req;
       (case g of
          Inl err \<Rightarrow> ret (if is_missing err then RequeueAfter 0 else Failed err)
        | Inr secret \<Rightarrow>
            (if isCert then do {
               s \<leftarrow> reconcile_cert x cfg req secret;
               (case s of
                  Inl r \<Rightarrow> ret r
                | Inr cs \<Rightarrow> reconcile_config x cfg cs)
             } else reconcile_config x cfg secret))
     })"

end
