(* ===== verification/Reconcile_Frame.thy ===== *)
theory Reconcile_Frame
  imports Reconcile
begin

text \<open>
  One summary for every stage of the reconcile: which requests can go out and to which client,
  which Secrets can be patched and how, which Events can be recorded. The summary takes the allowed
  requests \<open>P\<close> and the allowed Kubernetes effects \<open>K\<close> as parameters, so that each property of the
  next theories is an instance.
\<close>

section \<open>The summary\<close>

abbreviation hclient :: "'e world \<Rightarrow> client option" where
  "hclient w \<equiv> haproxyClient (w_rec w)"

definition allowed :: "client option \<Rightarrow> (client \<Rightarrow> http_request \<Rightarrow> bool) \<Rightarrow> (effect \<Rightarrow> bool) \<Rightarrow> effect \<Rightarrow> bool" where
  "allowed k P K e = (case e of HttpCall rq out \<Rightarrow> (\<exists>c. k = Some c \<and> P c rq) | _ \<Rightarrow> K e)"

lemma allowed_simps [simp]:
  "allowed k P K (HttpCall rq out) = (\<exists>c. k = Some c \<and> P c rq)"
  "allowed k P K (KubeGet key r) = K (KubeGet key r)"
  "allowed k P K (KubePatch a b rr) = K (KubePatch a b rr)"
  "allowed k P K (Recorded ev) = K (Recorded ev)"
  by (simp_all add: allowed_def)

definition does :: "(client \<Rightarrow> http_request \<Rightarrow> bool) \<Rightarrow> (effect \<Rightarrow> bool) \<Rightarrow> 'e world \<Rightarrow> 'e world \<Rightarrow> bool" where
  "does P K w w' \<longleftrightarrow>
     (hclient w = None \<or> hclient w' = hclient w) \<and> emits (allowed (hclient w') P K) w w'"

definition does_with ::
  "client \<Rightarrow> (client \<Rightarrow> http_request \<Rightarrow> bool) \<Rightarrow> (effect \<Rightarrow> bool) \<Rightarrow> 'e world \<Rightarrow> 'e world \<Rightarrow> bool" where
  "does_with c P K w w' \<longleftrightarrow> (hclient w = Some c \<longrightarrow> does P K w w')"

lemma does_refl: "does P K w w"
  by (simp add: does_def emits_refl)

lemma allowed_later: "allowed k P K e \<Longrightarrow> k = None \<or> k' = k \<Longrightarrow> allowed k' P K e"
  by (cases e) auto

lemma does_trans: "does P K a b \<Longrightarrow> does P K b c \<Longrightarrow> does P K a c"
proof -
  assume ab: "does P K a b" and bc: "does P K b c"
  have "emits (allowed (hclient c) P K) a b"
    using ab bc by (auto simp: does_def elim!: emits_mono dest: allowed_later)
  with ab bc show ?thesis by (auto simp: does_def intro: emits_trans)
qed

interpretation does: world_rel "does P K" for P K
  by unfold_locales (auto intro: does_refl does_trans)

interpretation does_with: world_rel "does_with c P K" for c P K
proof unfold_locales
  fix w a b d :: "'a world"
  show "does_with c P K w w" by (simp add: does_with_def does_refl)
  assume ab: "does_with c P K a b" and bd: "does_with c P K b d"
  show "does_with c P K a d"
    unfolding does_with_def
  proof
    assume "hclient a = Some c"
    with ab have "does P K a b" "hclient b = Some c" by (auto simp: does_with_def does_def)
    with bd show "does P K a d" by (auto simp: does_with_def intro: does_trans)
  qed
qed

lemma rel_does_with: "rel (does P K) m \<Longrightarrow> rel (does_with c P K) m"
  by (simp add: rel_def does_with_def)

lemma rel_calls_with:
  fixes m :: "('e, 'a) go"
  assumes m: "rel (calls (sends Q)) m" and QP: "\<And>rq. Q rq \<Longrightarrow> P c rq"
  shows "rel (does_with c P K) m"
proof -
  show ?thesis
    unfolding rel_def does_with_def
  proof (intro allI impI)
    fix w :: "'e world" assume c: "hclient w = Some c"
    let ?w = "snd (run_state m w)"
    have "calls (sends Q) w ?w" using m by (simp add: rel_def)
    moreover from this have "emits (allowed (Some c) P K) w ?w"
      by (auto dest!: calls_emits elim!: emits_mono simp: sends_def QP split: effect.splits)
    ultimately show "does P K w ?w" using c by (simp add: does_def calls_def)
  qed
qed

lemma modify_rec_does:
  "(\<And>r. haproxyClient (f r) = haproxyClient r) \<Longrightarrow> rel (does P K) (modify_rec f)"
  by (simp add: rel_def modify_rec_def does_def emits_def)

lemma modify_metrics_does: "rel (does P K) (modify_metrics f)"
  by (simp add: rel_def modify_metrics_def does_def emits_def)

lemma env_call_does: "rel (does P K) (env_call f)"
  by (auto simp: rel_def env_call_def does_def emits_def split: prod.splits)

lemma kube_get_does: "(\<And>r. K (KubeGet k r)) \<Longrightarrow> rel (does P K) (kube_get x k)"
  by (auto simp: rel_def kube_get_def does_def emits_def split: prod.splits)

lemma kube_patch_does: "(\<And>r. K (KubePatch a b r)) \<Longrightarrow> rel (does P K) (kube_patch x a b)"
  by (auto simp: rel_def kube_patch_def does_def emits_def split: prod.splits)

lemma emit_does:
  "(\<And>ev. EmitEvent rc obj reason m = Some ev \<Longrightarrow> K (Recorded ev)) \<Longrightarrow> rel (does P K) (emit rc obj reason m)"
  by (auto simp: rel_def emit_def does_def emits_def split: option.splits)

section \<open>Results\<close>

definition returns :: "('a \<Rightarrow> bool) \<Rightarrow> ('e, 'a) go \<Rightarrow> bool" where
  "returns Q m \<longleftrightarrow> (\<forall>w. Q (fst (run_state m w)))"

lemma returns_ret: "Q a \<Longrightarrow> returns Q (ret a)"
  by (simp add: returns_def)

lemma returns_bind: "(\<And>a. returns Q (f a)) \<Longrightarrow> returns Q (State_Monad.bind m f)"
  by (simp add: returns_def split: prod.split)

lemma returns_bind': "returns Q' m \<Longrightarrow> (\<And>a. Q' a \<Longrightarrow> returns Q (f a)) \<Longrightarrow> returns Q (State_Monad.bind m f)"
  by (simp add: returns_def split: prod.split) (metis fst_conv)

lemma returns_if: "(b \<Longrightarrow> returns Q m) \<Longrightarrow> (\<not> b \<Longrightarrow> returns Q n) \<Longrightarrow> returns Q (if b then m else n)"
  by simp

lemma returns_option:
  "(v = None \<Longrightarrow> returns Q m) \<Longrightarrow> (\<And>a. v = Some a \<Longrightarrow> returns Q (f a)) \<Longrightarrow>
   returns Q (case v of None \<Rightarrow> m | Some a \<Rightarrow> f a)"
  by (cases v) simp_all

lemma returns_sum:
  "(\<And>e. v = Inl e \<Longrightarrow> returns Q (f e)) \<Longrightarrow> (\<And>a. v = Inr a \<Longrightarrow> returns Q (g a)) \<Longrightarrow>
   returns Q (case v of Inl e \<Rightarrow> f e | Inr a \<Rightarrow> g a)"
  by (cases v) simp_all

lemma returns_prod: "(\<And>a b. v = (a, b) \<Longrightarrow> returns Q (f a b)) \<Longrightarrow> returns Q (case v of (a, b) \<Rightarrow> f a b)"
  by (cases v) simp

lemma returns_outcome:
  "(\<And>a. v = Returned a \<Longrightarrow> returns Q (f a)) \<Longrightarrow> (v = Panicked \<Longrightarrow> returns Q m) \<Longrightarrow>
   returns Q (case v of Returned a \<Rightarrow> f a | Panicked \<Rightarrow> m)"
  by (cases v) simp_all

lemmas returns_control = returns_ret returns_if returns_option returns_sum returns_prod returns_outcome

lemma rel_outcome:
  "(\<And>a. v = Returned a \<Longrightarrow> rel R (f a)) \<Longrightarrow> (v = Panicked \<Longrightarrow> rel R m) \<Longrightarrow>
   rel R (case v of Returned a \<Rightarrow> f a | Panicked \<Rightarrow> m)"
  by (cases v) simp_all

text \<open>Sequencing where the second part relies on what the first one returned.\<close>

lemma does_bind_returns:
  assumes "rel (does P K) m" "returns Q m" "\<And>a. Q a \<Longrightarrow> rel (does P K) (f a)"
  shows "rel (does P K) (State_Monad.bind m f)"
  unfolding rel_def
proof
  fix w
  let ?a = "fst (run_state m w)" and ?w = "snd (run_state m w)"
  have "does P K w ?w" using assms(1) by (simp add: rel_def)
  moreover have "does P K ?w (snd (run_state (f ?a) ?w))"
    using assms(2,3) by (simp add: rel_def returns_def)
  ultimately have "does P K w (snd (run_state (f ?a) ?w))" by (rule does_trans)
  then show "does P K w (snd (run_state (State_Monad.bind m f) w))" by (simp add: case_prod_beta)
qed

lemma does_with_bind_returns:
  assumes "rel (does_with c P K) m" "returns Q m" "\<And>a. Q a \<Longrightarrow> rel (does_with c P K) (f a)"
  shows "rel (does_with c P K) (State_Monad.bind m f)"
  unfolding rel_def
proof
  fix w
  let ?a = "fst (run_state m w)" and ?w = "snd (run_state m w)"
  have "does_with c P K w ?w" using assms(1) by (simp add: rel_def)
  moreover have "does_with c P K ?w (snd (run_state (f ?a) ?w))"
    using assms(2,3) by (simp add: rel_def returns_def)
  ultimately have "does_with c P K w (snd (run_state (f ?a) ?w))" by (rule does_with.R_trans)
  then show "does_with c P K w (snd (run_state (State_Monad.bind m f) w))" by (simp add: case_prod_beta)
qed

section \<open>Getting the client\<close>

definition quiet :: "'e world \<Rightarrow> 'e world \<Rightarrow> bool" where
  "quiet w w' \<longleftrightarrow> w_now w' = w_now w \<and> w_trace w' = w_trace w \<and> w_metrics w' = w_metrics w
     \<and> w_rec w' = w_rec w"

interpretation quiet: world_rel quiet
  by unfold_locales (auto simp: quiet_def)

lemma env_call_quiet: "rel quiet (env_call f)"
  by (auto simp: rel_def env_call_def quiet_def split: prod.splits)

lemma NewClient_quiet: "rel quiet (NewClient x cfg)"
  unfolding NewClient_def loadCAPool_def Let_def
  by (intro quiet.rel_control env_call_quiet)

lemma NewClient_keeps:
  "run_state (NewClient x cfg) w = (r, w') \<Longrightarrow>
   w_rec w' = w_rec w \<and> w_trace w' = w_trace w \<and> w_metrics w' = w_metrics w"
  using relD [OF NewClient_quiet [of x cfg], of w]
  by (simp add: quiet_def)

text \<open>Afterwards the client that was returned is the one that is cached; nothing else happened.\<close>

lemma getOrCreateClient_laws:
  assumes "run_state (getOrCreateClient x cfg) w = (r, w')"
  shows "w_trace w' = w_trace w \<and> w_metrics w' = w_metrics w \<and> (hclient w = None \<or> w' = w)
    \<and> hclient w' = (case r of Inr c \<Rightarrow> Some c | Inl _ \<Rightarrow> None)"
proof (cases "hclient w")
  case (Some c)
  with assms show ?thesis by (auto simp: getOrCreateClient_def)
next
  case None
  show ?thesis
  proof (cases "SpireSocketPath cfg = []")
    case True
    obtain r0 w0 where n: "run_state (NewClient x (APIConfig cfg)) w = (r0, w0)" by (metis surj_pair)
    with NewClient_keeps [OF n] assms None True n show ?thesis
      by (auto simp: getOrCreateClient_def modify_rec_def gets_def split: sum.splits)
  next
    case False
    with assms None show ?thesis
      by (auto simp: getOrCreateClient_def TLSTransport_def modify_rec_def gets_def env_call_def
          split: sum.splits option.splits prod.splits)
  qed
qed

text \<open>What follows runs with the client that was returned.\<close>

lemma with_client_does:
  assumes "\<And>err. rel (does P K) (f (Inl err))" "\<And>c. rel (does_with c P K) (f (Inr c))"
  shows "rel (does P K) (State_Monad.bind (getOrCreateClient x cfg) f)"
  unfolding rel_def
proof
  fix w
  obtain r w1 where r: "run_state (getOrCreateClient x cfg) w = (r, w1)" by (metis surj_pair)
  note laws = getOrCreateClient_laws [OF r]
  from laws have a: "does P K w w1" by (auto simp: does_def emits_def)
  have "does P K w1 (snd (run_state (f r) w1))"
  proof (cases r)
    case (Inl err)
    then show ?thesis using assms(1) by (simp add: rel_def)
  next
    case (Inr c)
    with laws have "hclient w1 = Some c" by simp
    then show ?thesis using assms(2) [of c] Inr by (simp add: rel_def does_with_def)
  qed
  with a have "does P K w (snd (run_state (f r) w1))" by (rule does_trans)
  then show "does P K w (snd (run_state (State_Monad.bind (getOrCreateClient x cfg) f) w))"
    by (simp add: r)
qed

definition opt_all :: "('a \<Rightarrow> bool) \<Rightarrow> 'a option \<Rightarrow> bool" where
  "opt_all Q v \<longleftrightarrow> (case v of None \<Rightarrow> True | Some a \<Rightarrow> Q a)"

section \<open>A policy for effects, and the stages that keep it\<close>

text \<open>
  \<open>P\<close> are the allowed requests, \<open>K\<close> the allowed Kubernetes effects, \<open>S\<close> the Secrets that may be
  patched. The live read must be allowed by \<open>P\<close>, the operator's own mutations of a Secret in \<open>S\<close>
  that record no verdict by \<open>K\<close>; the API server's answers stay in \<open>S\<close>.
\<close>

locale read_policy =
  fixes x :: "'e ext" and cfg :: settings
    and P :: "client \<Rightarrow> http_request \<Rightarrow> bool" and K :: "effect \<Rightarrow> bool" and S :: "secret \<Rightarrow> bool"
  assumes get_ok: "K (KubeGet k r)"
    and event_ok: "EmitEvent rc obj reason m = Some ev \<Longrightarrow> K (Recorded ev)"
    and patch_ok: "S s \<Longrightarrow> base_mutation f \<Longrightarrow> K (KubePatch s (mutated f s) r)"
    and live_ok: "P c (live_request c)"
    and S_annotations: "S (s\<lparr>s_annotations := ann\<rparr>) = S s"
    and S_own: "SecretName cfg = [] \<or> s_name s = SecretName cfg \<Longrightarrow> S s"
    and S_get: "x_get x (ns, SecretName cfg) e = (Inr s, e') \<Longrightarrow> S s"
    and S_patched: "x_patch x orig new e = (Inr s, e') \<Longrightarrow> S orig \<Longrightarrow> S s"
begin

lemma S_mutated: "S (mutated f s) = S s"
  by (simp add: mutated_def S_annotations)

lemma S_forget: "S (forget_rejection s) = S s"
  by (simp add: forget_rejection_def S_annotations)

lemma get_does: "rel (does P K) (kube_get x k)"
  by (rule kube_get_does) (rule get_ok)

lemma emit_ok: "rel (does P K) (emit rc obj reason m)"
  by (rule emit_does) (rule event_ok)

lemma patchAnnotations_does:
  "S s \<Longrightarrow> base_mutation f \<Longrightarrow> rel (does P K) (patchAnnotations x s f)"
  unfolding patchAnnotations_def
  by (intro does.rel_control kube_patch_does patch_ok)

lemma patchAnnotations_S: "S s \<Longrightarrow> returns (\<lambda>r. S (snd r)) (patchAnnotations x s f)"
  unfolding patchAnnotations_def
  by (rule returns_bind' [where Q' = "\<lambda>r. \<forall>s'. r = Inr s' \<longrightarrow> S s'"])
    (auto simp: returns_def kube_patch_def S_mutated split: prod.splits sum.splits dest: S_patched)

lemma failWithStatus_with:
  "(\<And>m t r. K (KubePatch s (mutated (status_mutation v m t extra) s) r)) \<Longrightarrow>
   rel (does P K) (failWithStatus x s v msg extra)"
  unfolding failWithStatus_def patchAnnotations_def
  by (intro does.rel_control kube_patch_does)

lemma failWithStatus_does: "S s \<Longrightarrow> rel (does P K) (failWithStatus x s v msg no_extra)"
  by (intro failWithStatus_with patch_ok base_mutations)

lemma count_failure_does: "rel (does P K) count_failure"
  unfolding count_failure_def
  by (intro does.rel_control modify_rec_does) simp

lemma exportConfigHash_does: "rel (does P K) (exportConfigHash h st)"
  unfolding exportConfigHash_def
  by (intro does.rel_control modify_rec_does modify_metrics_does) simp

lemma fail_transient_does: "S s \<Longrightarrow> rel (does P K) (fail_transient x s v err)"
  unfolding fail_transient_def
  by (intro does.rel_control failWithStatus_does count_failure_does)

lemma counts_does: "rel (does P K) (count_class c)" "rel (does P K) (count_result l)"
  "rel (does P K) (count_attempt l)" "rel (does P K) (set_in_sync n v)" "rel (does P K) (count_drift n)"
  unfolding count_class_def count_result_def count_attempt_def set_in_sync_def count_drift_def
  by (rule modify_metrics_does)+

lemma transient_failure_does: "S s \<Longrightarrow> rel (does P K) (transient_failure x cfg s stage err)"
  unfolding transient_failure_def Let_def
  by (intro does.rel_control counts_does emit_ok fail_transient_does)

lemma client_failure_does: "S s \<Longrightarrow> rel (does P K) (client_failure x s err)"
  unfolding client_failure_def Let_def
  by (intro does.rel_control counts_does fail_transient_does)

lemma clear_stale_does: "S s \<Longrightarrow> rel (does P K) (clear_stale x stage s)"
  unfolding clear_stale_def
  by (intro does.rel_control patchAnnotations_does base_mutations)

lemma clear_stale_S: "S s \<Longrightarrow> returns S (clear_stale x stage s)"
  unfolding clear_stale_def
  by (intro returns_control returns_bind' [OF patchAnnotations_S])

section \<open>The drift check\<close>

lemma drift_found_does: "rel (does P K) (drift_found cfg s h)"
  unfolding drift_found_def
  by (intro does.rel_control counts_does emit_ok)

lemma compare_live_does: "S s \<Longrightarrow> rel (does P K) (compare_live x cfg s h live)"
  unfolding compare_live_def Let_def
  by (intro does.rel_control modify_rec_does patchAnnotations_does base_mutations
      counts_does clear_stale_does drift_found_does) simp

lemma GetRaw_does: "rel (does_with c P K) (GetRawConfiguration x c)"
  by (rule rel_calls_with [OF GetRawConfiguration_calls])
    (auto intro: live_ok)

lemma check_drift_does: "S s \<Longrightarrow> rel (does P K) (check_drift x cfg s h)"
  unfolding check_drift_def
  by (rule with_client_does; simp only: sum.case)
    (intro does.rel_control does_with.rel_control client_failure_does GetRaw_does
      rel_does_with [OF transient_failure_does] rel_does_with [OF compare_live_does] | assumption)+

end

section \<open>Certificates\<close>

text \<open>A policy that also allows the certificate storage to be read and written.\<close>

locale policy = read_policy x cfg P K S for x :: "'e ext" and cfg P K S +
  assumes storage_ok: "storage_request c rq \<Longrightarrow> P c rq"
begin

lemma SyncSSL_does: "rel (does_with c P K) (SyncSSLCertificate x c name pem prev)"
  by (rule rel_calls_with [OF SyncSSLCertificate_calls]) (rule storage_ok)

lemma pushCertSecret_does:
  assumes "opt_all S st"
  shows "rel (does_with c P K) (pushCertSecret x c secret st)"
proof -
  have p: "rel (does_with c P K) (patchAnnotations x s (record_cert_sync raw))" if "st = Some s" for s raw
    using assms that by (intro rel_does_with patchAnnotations_does base_mutations)
      (simp add: opt_all_def)
  have m: "rel (does_with c P K) (modify_rec (\<lambda>r. r\<lparr>certSyncHashes := f r\<rparr>))" for f
    by (intro rel_does_with modify_rec_does) simp
  show ?thesis
    unfolding pushCertSecret_def Let_def
    by (intro does_with.rel_control SyncSSL_does m p)
qed

lemma pushCertSecret_S: "opt_all S st \<Longrightarrow> returns (\<lambda>r. opt_all S (snd r) \<and> (snd r = None \<longleftrightarrow> st = None)) (pushCertSecret x c secret st)"
  unfolding pushCertSecret_def Let_def
  by (intro returns_control returns_bind' [OF patchAnnotations_S] returns_bind)
    (auto simp: opt_all_def)

lemma syncCertSecret_does:
  assumes "opt_all S st"
  shows "rel (does P K) (syncCertSecret x cfg same secret st)"
  unfolding syncCertSecret_def Let_def
  by (rule with_client_does; simp only: sum.case)
    (intro does.rel_control does_with.rel_control rel_outcome pushCertSecret_does rel_does_with [OF emit_ok]
      assms)+

lemma syncCertSecret_S:
  "opt_all S st \<Longrightarrow> returns (\<lambda>r. opt_all S (snd r)) (syncCertSecret x cfg same secret st)"
  unfolding syncCertSecret_def Let_def
  by (intro returns_control returns_bind' [OF pushCertSecret_S] returns_bind) auto

lemma ensureCertSecretsSynced_does:
  "S st \<Longrightarrow> rel (does_with c P K) (ensureCertSecretsSynced x ns c names st)"
proof (induction names arbitrary: st)
  case Nil
  then show ?case by (simp add: does_with.rel_return)
next
  case (Cons name names)
  have opt: "opt_all S (Some st)" using Cons.prems by (simp add: opt_all_def)
  show ?case
    unfolding ensureCertSecretsSynced.simps Let_def
    by (intro does_with.rel_control rel_outcome rel_does_with [OF kube_get_does] get_ok
        does_with_bind_returns [OF pushCertSecret_does [OF opt] pushCertSecret_S [OF opt]] Cons.IH)
      (auto simp: opt_all_def split: option.splits)
qed

lemma ensureCertSecretsSynced_S:
  "S st \<Longrightarrow> returns (\<lambda>r. S (snd r)) (ensureCertSecretsSynced x ns c names st)"
proof (induction names arbitrary: st)
  case Nil
  then show ?case by (simp add: returns_def)
next
  case (Cons name names)
  have opt: "opt_all S (Some st)" using Cons.prems by (simp add: opt_all_def)
  show ?case
    unfolding ensureCertSecretsSynced.simps Let_def
    by (rule returns_bind)
      (intro returns_control returns_bind' [OF pushCertSecret_S [OF opt]] Cons.IH;
        use Cons.prems in \<open>auto simp: opt_all_def split: option.splits\<close>)
qed

section \<open>The certificate event\<close>

lemma find_config_secret_does: "rel (does P K) (find_config_secret x cfg req secret)"
  unfolding find_config_secret_def
  by (intro does.rel_control kube_get_does get_ok)

lemma find_config_secret_S:
  "returns (\<lambda>r. \<forall>cs. r = Inr cs \<longrightarrow> opt_all S cs) (find_config_secret x cfg req secret)"
  unfolding find_config_secret_def
  by (auto simp: returns_def kube_get_def opt_all_def S_own split: prod.splits sum.splits dest: S_get)

lemma cert_failure_does:
  "opt_all S st \<Longrightarrow> rel (does P K) (cert_failure x cfg obj st err)"
  unfolding cert_failure_def Let_def
  by (intro does.rel_control counts_does emit_ok fail_transient_does count_failure_does)
    (simp add: opt_all_def)

lemma reconcile_cert_does: "rel (does P K) (reconcile_cert x cfg req secret)"
  unfolding reconcile_cert_def Let_def
proof (rule does_bind_returns [OF find_config_secret_does find_config_secret_S], goal_cases)
  case (1 found)
  show ?case
  proof (cases found)
    case (Inl err)
    then show ?thesis by (simp add: does.rel_return)
  next
    case (Inr st)
    with 1 have st: "opt_all S st" by blast
    show ?thesis
      unfolding Inr sum.case
    proof (rule does_bind_returns [OF syncCertSecret_does [OF st] syncCertSecret_S [OF st]], goal_cases)
      case (1 r)
      then show ?case
        by (cases r)
          (auto simp: opt_all_def intro!: does.rel_control rel_outcome cert_failure_does clear_stale_does)
    qed
  qed
qed

lemma early_result_S:
  "returns (\<lambda>r. \<forall>cs. r = Inr cs \<longrightarrow> S cs) (State_Monad.bind m (\<lambda>r. ret (Inl r)))"
  by (rule returns_bind) (simp add: returns_def)

lemma clear_forget_S:
  "S s \<Longrightarrow> returns (\<lambda>r. \<forall>cs. r = Inr cs \<longrightarrow> S cs)
     (State_Monad.bind (clear_stale x stage s) (\<lambda>s'. ret (Inr (forget_rejection s'))))"
  by (rule returns_bind' [OF clear_stale_S]) (simp_all add: returns_def S_forget)

lemma reconcile_cert_S:
  "returns (\<lambda>r. \<forall>cs. r = Inr cs \<longrightarrow> S cs) (reconcile_cert x cfg req secret)"
  unfolding reconcile_cert_def Let_def
proof (rule returns_bind' [OF find_config_secret_S], goal_cases)
  case (1 found)
  show ?case
  proof (cases found)
    case (Inl err)
    then show ?thesis by (simp add: returns_def)
  next
    case (Inr st)
    with 1 have st: "opt_all S st" by blast
    show ?thesis
      unfolding Inr sum.case
    proof (rule returns_bind' [OF syncCertSecret_S [OF st]], goal_cases)
      case (1 r)
      then show ?case
        by (cases r)
          (auto simp: opt_all_def intro!: returns_control early_result_S clear_forget_S)
    qed
  qed
qed

section \<open>The gate\<close>

lemma note_desired_does: "rel (does P K) (note_desired h)"
  unfolding note_desired_def by (rule modify_rec_does) simp

lemma certs_step_does:
  assumes "S s"
  shows "rel (does_with c P K) (if CertsSecretNames cfg = [] then ret (Inr (c, s))
    else do {
      count_attempt l;
      e \<leftarrow> ensureCertSecretsSynced x ns c names s;
      (case e of
         (Panicked, st) \<Rightarrow> ret (Inl PanicResult)
       | (Returned (Some err), st) \<Rightarrow> do {
           r \<leftarrow> transient_failure x cfg st ''CertSync'' err;
           ret (Inl r)
         }
       | (Returned None, st) \<Rightarrow> ret (Inr (c, st)))
    })"
  by (intro does_with.rel_if does_with.rel_return does_with.rel_bind [OF rel_does_with [OF counts_does(3)]]
        does_with_bind_returns [OF ensureCertSecretsSynced_does [OF assms] ensureCertSecretsSynced_S [OF assms]])
      (intro does_with.rel_control rel_outcome rel_does_with [OF transient_failure_does]; simp)

lemma prepare_does:
  assumes "S s"
  shows "rel (does P K) (prepare x cfg s h)"
proof -
  have "rel (does P K) (State_Monad.bind (getOrCreateClient x cfg) f)"
    if "\<And>err. f (Inl err) = State_Monad.bind (client_failure x s err) (\<lambda>r. ret (Inl r))"
      "\<And>c. rel (does_with c P K) (f (Inr c))" for f :: "_ \<Rightarrow> ('e, result + client \<times> secret) go"
    by (rule with_client_does)
      (simp_all only: that, intro does.rel_control client_failure_does assms)
  note step = this
  show ?thesis
    unfolding prepare_def
    by (intro does.rel_bind [OF note_desired_does] does.rel_if does.rel_return step)
      (simp_all only: sum.case certs_step_does [OF assms])
qed

lemma prepare_S:
  assumes "S s"
  shows "returns (\<lambda>r. \<forall>c st. r = Inr (c, st) \<longrightarrow> S st) (prepare x cfg s h)"
  unfolding prepare_def
  by (rule returns_bind)
    (intro returns_control returns_bind returns_bind' [OF ensureCertSecretsSynced_S [OF assms]];
      use assms in \<open>auto simp: returns_def\<close>)

end

section \<open>The client stays\<close>

text \<open>The policy that allows everything still says that a cached client is never replaced.\<close>

interpretation any: policy x cfg "\<lambda>_ _. True" "\<lambda>_. True" "\<lambda>_. True" for x cfg
  by unfold_locales simp_all

lemma ensure_client:
  assumes "run_state (ensureCertSecretsSynced x ns c names st) w = (r, w')" "hclient w = Some c"
  shows "hclient w' = Some c"
proof -
  have "rel (does_with c (\<lambda>_ _. True) (\<lambda>_. True)) (ensureCertSecretsSynced x ns c names st)"
    by (rule any.ensureCertSecretsSynced_does) simp
  from relD [OF this, of w] assms show ?thesis by (simp add: does_with_def does_def)
qed

lemma prepare_client:
  assumes "run_state (prepare x cfg s h) w = (Inr (c, st), w')"
  shows "hclient w' = Some c"
proof -
  obtain w1 w2 where w1: "run_state (note_desired h) w = ((), w1)"
    and w2: "run_state (getOrCreateClient x cfg) w1 = (Inr c, w2)"
    and rest: "w' = w2 \<or> (\<exists>e w3. run_state (count_attempt ''cert-sync'') w2 = ((), w3) \<and>
      run_state (ensureCertSecretsSynced x (s_namespace s) c (CertsSecretNames cfg) s) w3 = (e, w'))"
    using assms
    by (auto simp: prepare_def note_desired_def count_attempt_def
        split: if_splits prod.splits sum.splits outcome.splits option.splits)
  from getOrCreateClient_laws [OF w2] have c: "hclient w2 = Some c" by simp
  with rest show ?thesis
    by (auto simp: count_attempt_def dest!: ensure_client)
qed

section \<open>Validation, apply and the whole reconcile\<close>

text \<open>A policy that also allows configurations to be validated (those in \<open>V\<close>) and applied
  (those in \<open>A\<close>), and hashes to be recorded as failed (\<open>R\<close>) and as applied (\<open>Q\<close>).\<close>

locale config_policy = policy x cfg P K S for x :: "'e ext" and cfg P K S +
  fixes V A R Q :: "string \<Rightarrow> bool"
  assumes validate_ok: "V raw \<Longrightarrow> P c (validate_request c raw n)"
    and apply_ok: "A raw \<Longrightarrow> P c (apply_request c raw n)"
    and reject_ok: "S s \<Longrightarrow> R h \<Longrightarrow> K (KubePatch s (mutated (status_mutation v m t (reject_mutation h)) s) r)"
    and record_ok: "S s \<Longrightarrow> Q h \<Longrightarrow> K (KubePatch s (mutated (record_applied h ob t) s) r)"
begin

lemma reject_config_does: "R h \<Longrightarrow> S s \<Longrightarrow> rel (does P K) (reject_config x cfg s h err)"
  unfolding reject_config_def
  by (intro does.rel_control emit_ok exportConfigHash_does failWithStatus_with reject_ok)

lemma record_patch_does: "Q h \<Longrightarrow> S s \<Longrightarrow> rel (does P K) (patchAnnotations x s (record_applied h ob t))"
  unfolding patchAnnotations_def
  by (intro does.rel_control kube_patch_does record_ok)

lemma Validate_calls:
  "rel (calls (sends (\<lambda>rq. rq = version_request c \<or> (\<exists>n. rq = validate_request c raw n)))) (Validate x c raw)"
  unfolding Validate_def post_raw_instances
  by (intro calls.rel_control post_raw_calls) (use post_raw_instances(3) in auto)

lemma Validate_does: "V raw \<Longrightarrow> rel (does_with c P K) (Validate x c raw)"
  by (rule rel_calls_with [OF Validate_calls]) (auto intro: validate_ok storage_ok version_storage)

lemma Apply_does: "A raw \<Longrightarrow> rel (does_with c P K) (ApplyRawConfigurationValidated x c raw)"
  by (rule rel_calls_with [where Q = "\<lambda>rq. rq = version_request c \<or> (\<exists>n. rq = apply_request c raw n)"])
    (auto intro!: apply_validated_calls intro: apply_ok storage_ok version_storage)

lemma validate_phase_does: "V raw \<Longrightarrow> R h \<Longrightarrow> S s \<Longrightarrow> rel (does_with c P K) (validate_phase x cfg c s h raw)"
  unfolding validate_phase_def
  by (intro does_with.rel_control Validate_does rel_does_with [OF counts_does(2)] rel_does_with [OF counts_does(3)]
      rel_does_with [OF reject_config_does] rel_does_with [OF transient_failure_does])

lemma apply_phase_does: "A raw \<Longrightarrow> R h \<Longrightarrow> S s \<Longrightarrow> rel (does_with c P K) (apply_phase x cfg c s h raw)"
  unfolding apply_phase_def
  by (intro does_with.rel_control Apply_does rel_does_with [OF counts_does(2)] rel_does_with [OF counts_does(3)]
      rel_does_with [OF emit_ok] rel_does_with [OF reject_config_does] rel_does_with [OF transient_failure_does])

lemma record_phase_does: "Q h \<Longrightarrow> S s \<Longrightarrow> rel (does_with c P K) (record_phase x cfg c s h)"
  unfolding record_phase_def observe_applied_def
  by (intro does_with.rel_control GetRaw_does rel_does_with [OF counts_does(2)] rel_does_with [OF counts_does(4)]
      rel_does_with [OF emit_ok] rel_does_with [OF exportConfigHash_does] rel_does_with [OF modify_metrics_does]
      rel_does_with [OF record_patch_does] rel_does_with [OF modify_rec_does]) simp

lemma push_config_does:
  assumes "S s" "V raw" "A raw" "R h" "Q h"
  shows "rel (does P K) (push_config x cfg s h raw)"
  unfolding rel_def
proof
  fix w :: "'e world"
  obtain r w1 where p: "run_state (prepare x cfg s h) w = (r, w1)" by (metis surj_pair)
  have a: "does P K w w1" using relD [OF prepare_does [OF assms(1), of h], of w] p by simp
  show "does P K w (snd (run_state (push_config x cfg s h raw) w))"
  proof (cases r)
    case (Inl r0)
    with p a show ?thesis by (simp add: push_config_def)
  next
    case (Inr cs)
    obtain c st where cs: "cs = (c, st)" by (metis surj_pair)
    have st: "S st" using prepare_S [OF assms(1), of h] p Inr cs unfolding returns_def by (metis fst_conv)
    have c: "hclient w1 = Some c" using prepare_client p Inr cs by blast
    have "rel (does_with c P K) (do {
          v \<leftarrow> validate_phase x cfg c st h raw;
          (case v of
             Some r \<Rightarrow> ret r
           | None \<Rightarrow> do {
               a \<leftarrow> apply_phase x cfg c st h raw;
               (case a of
                  Some r \<Rightarrow> ret r
                | None \<Rightarrow> record_phase x cfg c st h)
             })
        })" (is "rel _ ?m")
      by (intro does_with.rel_control validate_phase_does apply_phase_does record_phase_does st assms)
    then have "does P K w1 (snd (run_state ?m w1))" using c by (simp add: rel_def does_with_def)
    with a have "does P K w (snd (run_state ?m w1))" by (rule does_trans)
    then show ?thesis using p Inr cs by (simp add: push_config_def)
  qed
qed

lemma reconcile_config_does: "(\<And>r. V r \<and> A r \<and> R r \<and> Q r) \<Longrightarrow> S s \<Longrightarrow> rel (does P K) (reconcile_config x cfg s)"
  unfolding reconcile_config_def Let_def
  by (intro does.rel_control failWithStatus_does check_drift_does push_config_does) blast+

lemma kube_get_S:
  "SecretName cfg = [] \<or> snd req = SecretName cfg \<Longrightarrow> returns (\<lambda>r. \<forall>s. r = Inr s \<longrightarrow> S s) (kube_get x req)"
  by (cases "SecretName cfg = []"; cases req)
    (auto simp: returns_def kube_get_def S_own split: prod.splits dest: S_get)

lemma Reconcile_does:
  assumes all: "\<And>r. V r \<and> A r \<and> R r \<and> Q r"
  shows "rel (does P K) (Reconcile x cfg req)"
proof (cases "snd req \<in> set (CertsSecretNames cfg)")
  case True
  have "rel (does P K) (State_Monad.bind (reconcile_cert x cfg req secret)
      (\<lambda>s. case s of Inl r \<Rightarrow> ret r | Inr cs \<Rightarrow> reconcile_config x cfg cs))" for secret
    by (rule does_bind_returns [OF reconcile_cert_does reconcile_cert_S])
      (auto intro!: does.rel_return reconcile_config_does all split: sum.splits)
  note cert = this
  show ?thesis
    unfolding Reconcile_def Let_def
    by (intro does.rel_bind [OF get_does] does.rel_if does.rel_return does.rel_sum cert)
      (use True in simp_all)
next
  case False
  show ?thesis
  proof (cases "SecretName cfg \<noteq> [] \<and> snd req \<noteq> SecretName cfg")
    case True
    with False show ?thesis by (simp add: Reconcile_def does.rel_return)
  next
    case named: False
    then have "rel (does P K) (State_Monad.bind (kube_get x req) (\<lambda>g. case g of
        Inl err \<Rightarrow> ret (if is_missing err then RequeueAfter 0 else Failed err)
      | Inr secret \<Rightarrow> reconcile_config x cfg secret))"
      by (intro does_bind_returns [OF get_does kube_get_S])
        (auto intro!: does.rel_return reconcile_config_does all split: sum.splits)
    with False named show ?thesis by (auto simp: Reconcile_def Let_def)
  qed
qed

end

end
