(* ===== verification/Effects.thy ===== *)
theory Effects
  imports Reconcile_Frame
begin

text \<open>
  What a whole reconcile can do to the outside, for every behaviour of the gateway and of the API
  server: which requests it sends, which Secrets it patches and how, which Events it records.
\<close>

section \<open>Every write is the operator's own\<close>

definition safe_write :: "effect \<Rightarrow> bool" where
  "safe_write e =
    (case e of
       KubePatch orig new r \<Rightarrow>
         own_patch orig new \<and> \<not> isRelevantUpdate (Some orig) (Some new)
         \<and> (annotation new StatusMessageAnnotation = annotation orig StatusMessageAnnotation
            \<or> safe_message (annotation new StatusMessageAnnotation))
     | Recorded ev \<Rightarrow> safe_message (ev_message ev) \<and> ev_warning ev = (ev_reason ev \<in> set warningReasons)
     | _ \<Rightarrow> True)"

lemma go_map_mutated [simp]: "go_map (s_annotations (mutated f s)) = f (go_map (s_annotations s))"
  by (simp add: mutated_def)

lemma annotation_map: "annotation s k = (case fmlookup (go_map (s_annotations s)) k of None \<Rightarrow> [] | Some v \<Rightarrow> v)"
  by (simp add: go_get_def go_lookup_def)

lemmas mutation_defs = clear_status_def adopt_baseline_def record_applied_def record_cert_sync_def
  status_mutation_def no_extra_def reject_mutation_def

lemma empty_message_safe: "safe_message []"
  by (simp add: safe_message_def)

definition message_kept :: "mutation \<Rightarrow> bool" where
  "message_kept f \<longleftrightarrow> (\<forall>s. annotation (mutated f s) StatusMessageAnnotation = annotation s StatusMessageAnnotation
     \<or> safe_message (annotation (mutated f s) StatusMessageAnnotation))"

lemma mutation_messages:
  "base_mutation f \<Longrightarrow> message_kept f" "message_kept (status_mutation v m t (reject_mutation h))"
  "message_kept (record_applied h ob t)"
  by (auto simp: message_kept_def base_mutation_def annotation_map mutation_defs
      annotation_defs sink.clean_safe empty_message_safe)

lemma mutation_safe:
  "operator_mutation f \<Longrightarrow> message_kept f \<Longrightarrow> safe_write (KubePatch s (mutated f s) r)"
  by (simp add: safe_write_def own_patch_mutated operator_mutation.mutated_irrelevant message_kept_def)

lemma EmitEvent_safe:
  "EmitEvent rc obj reason m = Some ev \<Longrightarrow>
   safe_message (ev_message ev) \<and> ev_warning ev = (ev_reason ev \<in> set warningReasons)"
  by (auto simp: EmitEvent_def sink.clean_safe split: if_splits)

lemma event_effect_safe:
  "EmitEvent rc obj reason m = Some ev \<Longrightarrow> safe_write (Recorded ev)"
  "safe_write (KubeGet k r)"
  by (simp_all add: safe_write_def EmitEvent_safe)

text \<open>The requests the operator knows.\<close>

definition known_request :: "client \<Rightarrow> http_request \<Rightarrow> bool" where
  "known_request c rq \<longleftrightarrow> storage_request c rq \<or> (\<exists>raw n. rq = validate_request c raw n)
     \<or> (\<exists>raw n. rq = apply_request c raw n)"

interpretation safe: config_policy x cfg known_request safe_write "\<lambda>_. True"
    "\<lambda>_. True" "\<lambda>_. True" "\<lambda>_. True" "\<lambda>_. True" for x cfg
  by unfold_locales
    (auto intro!: mutation_safe mutation_messages reject_mutation_op base_mutation_op
      applied_op.operator_mutation_axioms event_effect_safe live_storage simp: known_request_def)

lemma Reconcile_emits_safe:
  "emits (allowed (hclient (snd (run_state (Reconcile x cfg req) w))) known_request safe_write) w
     (snd (run_state (Reconcile x cfg req) w))"
  using relD [OF safe.Reconcile_does [of x cfg req], of w] by (simp add: does_def)

text \<open>A request must be one of the seven known ones of the client the reconciler holds (version, live read,
  validation, apply, and reading, replacing and creating a stored certificate); every other effect
  must be a safe write.\<close>

definition safe_effect :: "client option \<Rightarrow> effect \<Rightarrow> bool" where
  "safe_effect k e =
    (case e of HttpCall rq out \<Rightarrow> (\<exists>c. k = Some c \<and> known_request c rq) | _ \<Rightarrow> safe_write e)"

text \<open>C15: whatever the gateway and the API server do, a reconcile sends only the seven requests of its
  client, patches only annotations under the operator's prefix, its patches never start another
  reconcile, and every status message and Event it writes is bounded and printable, with the Event
  type that belongs to its reason.\<close>

theorem reconcile_writes_safe:
  "\<exists>es. w_trace (snd (run_state (Reconcile x cfg req) w)) = w_trace w @ es
    \<and> list_all (safe_effect (hclient (snd (run_state (Reconcile x cfg req) w)))) es"
proof -
  have "emits (safe_effect (hclient (snd (run_state (Reconcile x cfg req) w)))) w (snd (run_state (Reconcile x cfg req) w))"
    using Reconcile_emits_safe
    by (rule emits_mono) (auto simp: allowed_def safe_effect_def split: effect.splits)
  then show ?thesis by (simp add: emits_def)
qed

section \<open>Only the config Secret is written\<close>

text \<open>The API server returns the object that was asked for.\<close>

definition faithful_names :: "'e ext \<Rightarrow> bool" where
  "faithful_names x \<longleftrightarrow>
     (\<forall>k e s e'. x_get x k e = (Inr s, e') \<longrightarrow> s_name s = snd k)
   \<and> (\<forall>orig new e s e'. x_patch x orig new e = (Inr s, e') \<longrightarrow> s_name s = s_name orig)"

definition patches_only :: "string \<Rightarrow> effect \<Rightarrow> bool" where
  "patches_only name e = (case e of KubePatch orig new r \<Rightarrow> s_name orig = name \<and> s_name new = name | _ \<Rightarrow> True)"

lemma faithful_get: "faithful_names x \<Longrightarrow> x_get x (ns, n) e = (Inr s, e') \<Longrightarrow> s_name s = n"
  unfolding faithful_names_def by (metis snd_conv)

lemma faithful_patch: "faithful_names x \<Longrightarrow> x_patch x orig new e = (Inr s, e') \<Longrightarrow> s_name s = s_name orig"
  unfolding faithful_names_def by blast

lemma patches_policy:
  assumes "faithful_names x" "SecretName cfg \<noteq> []"
  shows "config_policy x cfg known_request (patches_only (SecretName cfg)) (\<lambda>s. s_name s = SecretName cfg)
    (\<lambda>_. True) (\<lambda>_. True) (\<lambda>_. True) (\<lambda>_. True)"
  by unfold_locales
    (use assms in \<open>auto simp: patches_only_def known_request_def mutated_def faithful_patch live_storage dest: faithful_get\<close>)

text \<open>With a named config Secret, no reconcile ever patches any other Secret: the TLS Secrets that
  belong to another controller are only read.\<close>

theorem only_config_secret_patched:
  assumes "faithful_names x" "SecretName cfg \<noteq> []"
  shows "\<exists>es. w_trace (snd (run_state (Reconcile x cfg req) w)) = w_trace w @ es
    \<and> list_all (patches_only (SecretName cfg)) es"
proof -
  have "emits (patches_only (SecretName cfg)) w (snd (run_state (Reconcile x cfg req) w))"
    using relD [OF config_policy.Reconcile_does [OF patches_policy [OF assms], of req], of w]
    by (auto simp: does_def allowed_def patches_only_def elim!: emits_mono split: effect.splits)
  then show ?thesis by (simp add: emits_def)
qed

end
