(* ===== verification/Ordering.thy ===== *)
theory Ordering
  imports Effects
begin

text \<open>
  The order of what a reconcile does: nothing is applied that the gateway has not validated before,
  in the same reconcile and with the same bytes. The traces checked effect by effect against the
  effects before them are shared with the theories on verdicts, histories and the local runner.
\<close>

section \<open>Effects that need earlier effects\<close>

text \<open>Each effect of a trace is checked against the effects before it. The checks grow with the
  evidence, and with a client where there was none.\<close>

fun traced :: "(effect list \<Rightarrow> effect \<Rightarrow> bool) \<Rightarrow> effect list \<Rightarrow> effect list \<Rightarrow> bool" where
  "traced ok pre [] = True"
| "traced ok pre (e # es) = (ok pre e \<and> traced ok (pre @ [e]) es)"

definition evident :: "(client option \<Rightarrow> effect list \<Rightarrow> effect \<Rightarrow> bool) \<Rightarrow> 'e world \<Rightarrow> 'e world \<Rightarrow> bool" where
  "evident ok w w' \<longleftrightarrow> (hclient w = None \<or> hclient w' = hclient w)
     \<and> (\<exists>es. w_trace w' = w_trace w @ es \<and> traced (ok (hclient w')) [] es)"

locale evidence =
  fixes ok :: "client option \<Rightarrow> effect list \<Rightarrow> effect \<Rightarrow> bool"
  assumes mono: "ok k pre e \<Longrightarrow> set pre \<subseteq> set pre' \<Longrightarrow> ok k pre' e"
    and client: "ok None pre e \<Longrightarrow> ok k pre e"
begin

lemma traced_mono: "traced (ok k) pre es \<Longrightarrow> set pre \<subseteq> set pre' \<Longrightarrow> traced (ok k) pre' es"
proof (induction es arbitrary: pre pre')
  case (Cons e es)
  have "traced (ok k) (pre' @ [e]) es"
    by (rule Cons.IH [of "pre @ [e]"]) (use Cons.prems in auto)
  with Cons.prems mono show ?case by auto
qed simp

lemma traced_append: "traced (ok k) pre (a @ b) = (traced (ok k) pre a \<and> traced (ok k) (pre @ a) b)"
  by (induction a arbitrary: pre) auto

lemma traced_client: "traced (ok None) pre es \<Longrightarrow> traced (ok k) pre es"
  by (induction es arbitrary: pre) (auto intro: client)

lemma traced_all: "(\<And>e. e \<in> set es \<Longrightarrow> ok k pre e) \<Longrightarrow> traced (ok k) pre es"
proof (induction es arbitrary: pre)
  case (Cons e es)
  have "ok k (pre @ [e]) e'" if "e' \<in> set es" for e'
    by (rule mono [OF Cons.prems]) (use that in auto)
  then have "traced (ok k) (pre @ [e]) es" by (rule Cons.IH)
  then show ?case using Cons.prems by simp
qed simp

lemma evident_trans:
  assumes ab: "evident ok a b" and bc: "evident ok b c"
  shows "evident ok a c"
proof -
  from ab obtain es where es: "w_trace b = w_trace a @ es" "traced (ok (hclient b)) [] es"
    by (auto simp: evident_def)
  from bc obtain fs where fs: "w_trace c = w_trace b @ fs" "traced (ok (hclient c)) [] fs"
    by (auto simp: evident_def)
  have "traced (ok (hclient c)) [] es" using ab bc es(2) by (auto simp: evident_def intro: traced_client)
  moreover have "traced (ok (hclient c)) es fs" by (rule traced_mono [OF fs(2)]) simp
  ultimately have "traced (ok (hclient c)) [] (es @ fs)" by (simp add: traced_append)
  moreover have "w_trace c = w_trace a @ (es @ fs)" using es fs by simp
  ultimately have "\<exists>gs. w_trace c = w_trace a @ gs \<and> traced (ok (hclient c)) [] gs" by blast
  with ab bc show ?thesis by (auto simp: evident_def)
qed

end

sublocale evidence \<subseteq> world_rel "evident ok"
  by unfold_locales (simp add: evident_def, rule evident_trans)

section \<open>Guarded applies\<close>

definition same_body :: "http_request \<Rightarrow> client \<Rightarrow> effect \<Rightarrow> bool" where
  "same_body rq c e = answered (\<lambda>rq'. is_validate c rq' \<and> rq_body rq' = rq_body rq) success e"

definition apply_guarded :: "client option \<Rightarrow> effect list \<Rightarrow> effect \<Rightarrow> bool" where
  "apply_guarded k pre e =
    (case e of
       HttpCall rq out \<Rightarrow>
         (case k of Some c \<Rightarrow> is_apply c rq \<longrightarrow> rq_body rq \<noteq> None \<and> list_ex (same_body rq c) pre
          | None \<Rightarrow> False)
     | _ \<Rightarrow> True)"

interpretation guard: evidence apply_guarded
  by unfold_locales
    (auto simp: apply_guarded_def list_ex_iff split: effect.splits option.splits)

section \<open>Stages that apply nothing\<close>

text \<open>Policies for one body: only validating it, only applying it, neither.\<close>

definition spares :: "client \<Rightarrow> http_request \<Rightarrow> bool" where
  "spares c rq \<longleftrightarrow> \<not> is_apply c rq"

definition applies_only :: "string \<Rightarrow> client \<Rightarrow> http_request \<Rightarrow> bool" where
  "applies_only raw c rq \<longleftrightarrow> (is_apply c rq \<longrightarrow> carries rq raw)"

interpretation spare: config_policy x cfg spares "\<lambda>_. True" "\<lambda>_. True" "\<lambda>_. True" "\<lambda>_. False"
    "\<lambda>_. True" "\<lambda>_. True" for x cfg
  by unfold_locales (auto simp: spares_def validate_request_kind storage_request_kind [OF live_storage] dest: storage_request_kind)

interpretation single: config_policy x cfg "applies_only raw" "\<lambda>_. True" "\<lambda>_. True" "\<lambda>_. False"
    "\<lambda>r. r = raw" "\<lambda>_. True" "\<lambda>_. True"
  for x cfg raw
  by unfold_locales (auto simp: applies_only_def apply_request_kind storage_request_kind [OF live_storage] dest: storage_request_kind)

lemma does_guarded: "does spares (\<lambda>_. True) w w' \<Longrightarrow> evident apply_guarded w w'"
  by (auto simp: does_def evident_def emits_def list_all_iff apply_guarded_def spares_def allowed_def
      intro!: guard.traced_all split: effect.splits option.splits)
    fastforce+

lemma rel_guarded: "rel (does spares (\<lambda>_. True)) m \<Longrightarrow> rel (evident apply_guarded) m"
  by (auto simp: rel_def intro: does_guarded)

lemma guarded_applies:
  assumes "list_all (allowed (Some c) (applies_only raw) (\<lambda>_. True)) es" "raw \<noteq> []"
    "HttpCall (validate_request c raw n) (Inr resp) \<in> set pre" "success (rs_status resp)"
  shows "traced (apply_guarded (Some c)) pre es"
proof (rule guard.traced_all)
  fix e
  assume "e \<in> set es"
  with assms(1) have "allowed (Some c) (applies_only raw) (\<lambda>_. True) e" by (simp add: list_all_iff)
  then show "apply_guarded (Some c) pre e"
    using assms(2-4) validate_request_kind [of c raw n]
    by (cases e)
      (auto simp: apply_guarded_def applies_only_def carries_def list_ex_iff same_body_def
        intro!: bexI [of _ "HttpCall (validate_request c raw n) (Inr resp)"])
qed

section \<open>The one path that applies\<close>

lemma validate_phase_passed:
  assumes "run_state (validate_phase x cfg c s h raw) w = (None, w')"
  shows "raw \<noteq> [] \<and> (\<exists>out n resp. w_trace w' = w_trace w @
     [HttpCall (version_request c) out, HttpCall (validate_request c raw n) (Inr resp)] \<and> success (rs_status resp))"
proof -
  obtain w1 where w1: "w_trace w1 = w_trace w" and v: "run_state (Validate x c raw) w1 = (None, w')"
    using assms
    by (intro that [of "snd (run_state (count_attempt ''validate'') w)"])
      (auto simp: validate_phase_def count_attempt_def split: prod.splits option.splits)
  from v have raw: "raw \<noteq> []" by (auto simp: Validate_def)
  with v have "run_state (post_raw x c validate_endpoint raw) w1 = (None, w')"
    by (simp add: Validate_def post_raw_instances)
  then show ?thesis
    using raw w1 by (auto elim!: post_raw_success simp: post_raw_instances(3))
qed

lemma push_config_cases:
  assumes "run_state (push_config x cfg s h raw) w = (r, w')"
  obtains (early) "run_state (prepare x cfg s h) w = (Inl r, w')"
  | (invalid) c st w1 where "run_state (prepare x cfg s h) w = (Inr (c, st), w1)"
      "run_state (validate_phase x cfg c st h raw) w1 = (Some r, w')"
  | (refused) c st w1 w2 where "run_state (prepare x cfg s h) w = (Inr (c, st), w1)"
      "run_state (validate_phase x cfg c st h raw) w1 = (None, w2)"
      "run_state (apply_phase x cfg c st h raw) w2 = (Some r, w')"
  | (applied) c st w1 w2 w3 where "run_state (prepare x cfg s h) w = (Inr (c, st), w1)"
      "run_state (validate_phase x cfg c st h raw) w1 = (None, w2)"
      "run_state (apply_phase x cfg c st h raw) w2 = (None, w3)"
      "run_state (record_phase x cfg c st h) w3 = (r, w')"
  using assms by (auto simp: push_config_def split: prod.splits sum.splits option.splits)

lemma does_with_run:
  "rel (does_with c P K) m \<Longrightarrow> run_state m w = (r, w') \<Longrightarrow> hclient w = Some c \<Longrightarrow>
   hclient w' = Some c \<and> emits (allowed (Some c) P K) w w'"
  by (drule relD [of _ _ w]) (auto simp: does_with_def does_def)

lemma guarded_after_validation:
  assumes "run_state (validate_phase x cfg c s h raw) w = (None, w1)" "hclient w = Some c" "hclient w1 = Some c"
    "hclient w2 = Some c" "emits (allowed (Some c) (applies_only raw) (\<lambda>_. True)) w1 w2"
  shows "evident apply_guarded w w2"
proof -
  from validate_phase_passed [OF assms(1)] obtain out n resp where raw: "raw \<noteq> []"
    and v: "w_trace w1 = w_trace w @ [HttpCall (version_request c) out, HttpCall (validate_request c raw n) (Inr resp)]"
      "success (rs_status resp)" by blast
  from assms(5) obtain es where es: "w_trace w2 = w_trace w1 @ es"
    "list_all (allowed (Some c) (applies_only raw) (\<lambda>_. True)) es" by (auto simp: emits_def)
  let ?v = "[HttpCall (version_request c) out, HttpCall (validate_request c raw n) (Inr resp)]"
  have "traced (apply_guarded (Some c)) [] ?v"
    using storage_request_kind [OF version_storage] validate_request_kind [of c raw n]
    by (simp add: apply_guarded_def)
  moreover have "traced (apply_guarded (Some c)) ?v es"
    by (rule guarded_applies [OF es(2) raw, of n resp]) (use v(2) in simp_all)
  ultimately have "traced (apply_guarded (Some c)) [] (?v @ es)" by (simp only: guard.traced_append) simp
  then show ?thesis using v es assms by (auto simp: evident_def)
qed

lemma push_config_guarded: "rel (evident apply_guarded) (push_config x cfg s h raw)"
  unfolding rel_def
proof
  fix w :: "'a world"
  obtain r w' where run: "run_state (push_config x cfg s h raw) w = (r, w')" by (metis surj_pair)
  have prep: "evident apply_guarded w w1" if "run_state (prepare x cfg s h) w = (q, w1)" for q w1
    using relD [OF rel_guarded [OF spare.prepare_does [OF TrueI, of x cfg s h]], of w] that by simp
  have "evident apply_guarded w w'"
    using run
  proof (cases rule: push_config_cases)
    case early
    then show ?thesis by (rule prep)
  next
    case (invalid c st w1)
    note c = prepare_client [OF invalid(1)]
    have "evident apply_guarded w1 w'"
      using does_with_run [OF spare.validate_phase_does [OF TrueI TrueI TrueI] invalid(2) c] c
      by (auto intro!: does_guarded simp: does_def)
    with prep [OF invalid(1)] show ?thesis by (rule guard.R_trans)
  next
    case (refused c st w1 w2)
    note c = prepare_client [OF refused(1)]
    note v = does_with_run [OF spare.validate_phase_does [OF TrueI TrueI TrueI] refused(2) c]
    have "evident apply_guarded w1 w'"
      using guarded_after_validation [OF refused(2) c] v
        does_with_run [OF single.apply_phase_does [OF refl TrueI TrueI] refused(3)] by blast
    with prep [OF refused(1)] show ?thesis by (rule guard.R_trans)
  next
    case (applied c st w1 w2 w3)
    note c = prepare_client [OF applied(1)]
    note v = does_with_run [OF spare.validate_phase_does [OF TrueI TrueI TrueI] applied(2) c]
    have a: "hclient w3 = Some c \<and> emits (allowed (Some c) (applies_only raw) (\<lambda>_. True)) w2 w3"
      using does_with_run [OF single.apply_phase_does [OF refl TrueI TrueI] applied(3)] v by blast
    have "hclient w' = Some c \<and> emits (allowed (Some c) (applies_only raw) (\<lambda>_. True)) w3 w'"
      using does_with_run [OF single.record_phase_does [OF TrueI TrueI] applied(4)] a by blast
    with a have "evident apply_guarded w1 w'"
      using guarded_after_validation [OF applied(2) c] v by (blast intro: emits_trans)
    with prep [OF applied(1)] show ?thesis by (rule guard.R_trans)
  qed
  with run show "evident apply_guarded w (snd (run_state (push_config x cfg s h raw) w))" by simp
qed

lemma reconcile_config_guarded: "rel (evident apply_guarded) (reconcile_config x cfg s)"
  unfolding reconcile_config_def Let_def
  by (intro guard.rel_control push_config_guarded rel_guarded [OF spare.check_drift_does]
      rel_guarded [OF spare.failWithStatus_does]) simp_all

lemma Reconcile_guarded: "rel (evident apply_guarded) (Reconcile x cfg req)"
  unfolding Reconcile_def Let_def
  by (intro guard.rel_control reconcile_config_guarded rel_guarded [OF spare.get_does]
      rel_guarded [OF spare.reconcile_cert_does])

text \<open>C1: every configuration a reconcile applies is non-empty and was validated before, by the same
  client in the same reconcile and byte for byte; without a client no request is sent at all.\<close>

theorem apply_only_validated:
  "\<exists>es. w_trace (snd (run_state (Reconcile x cfg req) w)) = w_trace w @ es
    \<and> traced (apply_guarded (hclient (snd (run_state (Reconcile x cfg req) w)))) [] es"
  using relD [OF Reconcile_guarded [of x cfg req], of w] by (auto simp: evident_def)

end
