(* ===== verification/Verdicts.thy ===== *)
theory Verdicts
  imports Ordering
begin

text \<open>
  What stands behind the two hashes the operator records. A last-applied hash is the hash of bytes
  whose apply the gateway acknowledged; a last-failed hash, which suppresses a configuration until
  its bytes change, is the hash of bytes the gateway refused with 400 or 422, or of no bytes.
\<close>

section \<open>Evidence\<close>

definition body_bytes :: "http_request \<Rightarrow> bytes" where
  "body_bytes rq = (case rq_body rq of None \<Rightarrow> [] | Some b \<Rightarrow> b)"

definition applied_evidence :: "client \<Rightarrow> string \<Rightarrow> effect \<Rightarrow> bool" where
  "applied_evidence c h e \<longleftrightarrow> answered (\<lambda>rq. is_apply c rq \<and> HashBytes (body_bytes rq) = h) success e"

definition refused_evidence :: "client \<Rightarrow> string \<Rightarrow> effect \<Rightarrow> bool" where
  "refused_evidence c h e \<longleftrightarrow>
     answered (\<lambda>rq. (is_apply c rq \<or> is_validate c rq) \<and> HashBytes (body_bytes rq) = h) rejecting e"

text \<open>A hash a patch sets is one the new annotations have and the old ones had not.\<close>

definition sets :: "string \<Rightarrow> secret \<Rightarrow> secret \<Rightarrow> bool" where
  "sets k orig new \<longleftrightarrow> annotation new k \<noteq> [] \<and> annotation new k \<noteq> annotation orig k"

definition hash_justified :: "client option \<Rightarrow> effect list \<Rightarrow> effect \<Rightarrow> bool" where
  "hash_justified k pre e =
    (case e of
       KubePatch orig new r \<Rightarrow>
         (sets LastAppliedHashAnnotation orig new \<longrightarrow>
            (case k of None \<Rightarrow> False
             | Some c \<Rightarrow> list_ex (applied_evidence c (annotation new LastAppliedHashAnnotation)) pre))
       \<and> (sets LastFailedHashAnnotation orig new \<longrightarrow>
            annotation new LastFailedHashAnnotation = HashBytes []
            \<or> (case k of None \<Rightarrow> False
               | Some c \<Rightarrow> list_ex (refused_evidence c (annotation new LastFailedHashAnnotation)) pre))
     | _ \<Rightarrow> True)"

interpretation just: evidence hash_justified
  by unfold_locales
    (auto simp: hash_justified_def list_ex_iff split: effect.splits option.splits)

section \<open>Stages by the hashes they record\<close>

definition records_only :: "(string \<Rightarrow> bool) \<Rightarrow> (string \<Rightarrow> bool) \<Rightarrow> effect \<Rightarrow> bool" where
  "records_only R Q e =
    (case e of
       KubePatch orig new r \<Rightarrow>
         (sets LastAppliedHashAnnotation orig new \<longrightarrow> Q (annotation new LastAppliedHashAnnotation))
       \<and> (sets LastFailedHashAnnotation orig new \<longrightarrow> R (annotation new LastFailedHashAnnotation))
     | _ \<Rightarrow> True)"

lemma base_records: "base_mutation f \<Longrightarrow> records_only R Q (KubePatch s (mutated f s) r)"
  by (auto simp: records_only_def sets_def base_mutation_def annotation_map mutation_defs annotation_defs)

lemma reject_records:
  "R h \<Longrightarrow> records_only R Q (KubePatch s (mutated (status_mutation v m t (reject_mutation h)) s) r)"
  by (auto simp: records_only_def sets_def annotation_map mutation_defs annotation_defs)

lemma applied_records:
  "Q h \<Longrightarrow> records_only R Q (KubePatch s (mutated (record_applied h ob t) s) r)"
  by (auto simp: records_only_def sets_def annotation_map mutation_defs annotation_defs)

interpretation rec: config_policy x cfg "\<lambda>_ _. True" "records_only R Q" "\<lambda>_. True" "\<lambda>_. True" "\<lambda>_. True" R Q
  for x cfg R Q
  by unfold_locales
    (auto intro: base_records reject_records applied_records simp: records_only_def [of _ _ "KubeGet _ _"]
      records_only_def [of _ _ "Recorded _"])

text \<open>A stage that records no hash, and one that records a hash it has evidence for.\<close>

lemma does_justified: "does (\<lambda>_ _. True) (records_only (\<lambda>_. False) (\<lambda>_. False)) w w' \<Longrightarrow> evident hash_justified w w'"
  by (auto simp: does_def evident_def emits_def list_all_iff hash_justified_def records_only_def allowed_def
      intro!: just.traced_all split: effect.splits) fastforce+

lemma rel_justified:
  "rel (does (\<lambda>_ _. True) (records_only (\<lambda>_. False) (\<lambda>_. False))) m \<Longrightarrow> rel (evident hash_justified) m"
  by (auto simp: rel_def intro: does_justified)

lemma traced_records:
  assumes "emits (allowed (Some c) (\<lambda>_ _. True) (records_only R Q)) w w'"
    "\<And>h. R h \<Longrightarrow> h = HashBytes [] \<or> list_ex (refused_evidence c h) pre"
    "\<And>h. Q h \<Longrightarrow> list_ex (applied_evidence c h) pre"
  shows "\<exists>es. w_trace w' = w_trace w @ es \<and> traced (hash_justified (Some c)) pre es"
proof -
  from assms(1) obtain es where es: "w_trace w' = w_trace w @ es"
    "list_all (allowed (Some c) (\<lambda>_ _. True) (records_only R Q)) es" by (auto simp: emits_def)
  have "hash_justified (Some c) pre e" if "e \<in> set es" for e
  proof -
    have "allowed (Some c) (\<lambda>_ _. True) (records_only R Q) e" using es(2) that by (simp add: list_all_iff)
    with assms(2,3) show ?thesis
      by (cases e) (auto simp: hash_justified_def records_only_def)
  qed
  with es(1) show ?thesis by (blast intro: just.traced_all)
qed

section \<open>The stages that record a hash\<close>

lemma evident_after:
  assumes "hclient w = Some c" "hclient w1 = Some c" "hclient w2 = Some c"
    "w_trace w1 = w_trace w @ pre" "emits (allowed (Some c) (\<lambda>_ _. True) (records_only (\<lambda>_. False) (\<lambda>_. False))) w w1"
    "emits (allowed (Some c) (\<lambda>_ _. True) (records_only R Q)) w1 w2"
    "\<And>h. R h \<Longrightarrow> h = HashBytes [] \<or> list_ex (refused_evidence c h) pre"
    "\<And>h. Q h \<Longrightarrow> list_ex (applied_evidence c h) pre"
  shows "evident hash_justified w w2"
proof -
  from traced_records [OF assms(6-8)] obtain es where
    es: "w_trace w2 = w_trace w1 @ es" "traced (hash_justified (Some c)) pre es" by blast
  have "\<exists>es. w_trace w1 = w_trace w @ es \<and> traced (hash_justified (Some c)) [] es"
    by (rule traced_records [OF assms(5)]) simp_all
  with assms(4) es have "w_trace w2 = w_trace w @ (pre @ es)" "traced (hash_justified (Some c)) [] (pre @ es)"
    by (simp_all add: just.traced_append)
  with assms(1,3) show ?thesis by (auto simp: evident_def)
qed

text \<open>What both phases do with an error.\<close>

definition phase_failure ::
  "'e ext \<Rightarrow> settings \<Rightarrow> string \<Rightarrow> secret \<Rightarrow> string \<Rightarrow> goerr \<Rightarrow> ('e, result option) go" where
  "phase_failure x cfg stage s h err = do {
     count_result (StatusValue (classify_err err));
     r \<leftarrow> (if classify_err err = ClassConfigRejected then reject_config x cfg s h err
           else transient_failure x cfg s stage err);
     ret (Some r)
   }"

lemma phase_failure_does:
  "(classify_err err = ClassConfigRejected \<Longrightarrow> R h) \<Longrightarrow>
   rel (does_with c (\<lambda>_ _. True) (records_only R Q)) (phase_failure x cfg stage s h err)"
  unfolding phase_failure_def
  by (intro rel_does_with does.rel_control rec.counts_does rec.reject_config_does rec.transient_failure_does) auto

lemma validate_phase_cases:
  assumes "run_state (validate_phase x cfg c s h raw) w = (r, w')"
  obtains wa v w1 where "w_trace wa = w_trace w" "hclient wa = hclient w"
    "run_state (Validate x c raw) wa = (v, w1)" "v = None \<longrightarrow> r = None \<and> w' = w1"
    "\<And>err. v = Some err \<Longrightarrow> run_state (phase_failure x cfg [] s h err) w1 = (r, w')"
proof (rule that [of "snd (run_state (count_attempt ''validate'') w)"
      "fst (run_state (Validate x c raw) (snd (run_state (count_attempt ''validate'') w)))"
      "snd (run_state (Validate x c raw) (snd (run_state (count_attempt ''validate'') w)))"])
qed (use assms in \<open>auto simp: validate_phase_def count_attempt_def phase_failure_def split: prod.splits\<close>)

lemma apply_phase_cases:
  assumes "run_state (apply_phase x cfg c s h raw) w = (r, w')"
  obtains wa v w1 where "emits (\<lambda>e. \<exists>ev. e = Recorded ev) w wa" "hclient wa = hclient w"
    "run_state (ApplyRawConfigurationValidated x c raw) wa = (v, w1)" "v = None \<longrightarrow> r = None \<and> w' = w1"
    "\<And>err. v = Some err \<Longrightarrow> run_state (phase_failure x cfg ''Apply'' s h err) w1 = (r, w')"
proof -
  define wa where "wa = snd (run_state (count_attempt ''apply'')
    (snd (run_state (emit (Recorder cfg) (key_of s) ValidationPassed []) w)))"
  show ?thesis
  proof (rule that [of wa "fst (run_state (ApplyRawConfigurationValidated x c raw) wa)"
        "snd (run_state (ApplyRawConfigurationValidated x c raw) wa)"])
    show "emits (\<lambda>e. \<exists>ev. e = Recorded ev) w wa"
      by (auto simp: wa_def emit_def count_attempt_def emits_def split: option.split)
    show "hclient wa = hclient w"
      by (simp add: wa_def emit_def count_attempt_def split: option.split)
  qed (use assms in \<open>auto simp: wa_def apply_phase_def count_attempt_def emit_def phase_failure_def split: prod.splits option.splits\<close>)
qed

lemma Validate_verdict:
  assumes "honest x" "run_state (Validate x c raw) w = (Some err, w')" "classify_err err = ClassConfigRejected"
    "w_trace w' = w_trace w @ es"
  shows "HashBytes raw = HashBytes [] \<or> list_ex (refused_evidence c (HashBytes raw)) es"
proof (cases "raw = []")
  case False
  with assms(2) have "run_state (post_raw x c validate_endpoint raw) w = (Some err, w')"
    by (simp add: Validate_def post_raw_instances)
  from post_raw_verdict [OF assms(1) this assms(3)] obtain out n resp where
    "w_trace w' = w_trace w @ [HttpCall (version_request c) out, HttpCall (validate_request c raw n) (Inr resp)]"
    "rejecting (rs_status resp)" by (metis post_raw_instances(3))
  then show ?thesis
    using assms(4) validate_request_kind [of c raw n] False
    by (auto simp: refused_evidence_def body_bytes_def carries_def)
qed simp

lemma Apply_verdict:
  assumes "honest x" "run_state (ApplyRawConfigurationValidated x c raw) w = (Some err, w')"
    "classify_err err = ClassConfigRejected" "w_trace w' = w_trace w @ es"
  shows "list_ex (refused_evidence c (HashBytes raw)) es"
proof -
  from apply_validated_verdict [OF assms(1-3)] obtain n resp pre where
    "w_trace w' = w_trace w @ pre @ [HttpCall (apply_request c raw n) (Inr resp)]" "rejecting (rs_status resp)"
    by blast
  then show ?thesis
    using assms(4) apply_request_kind [of c raw n]
    by (auto simp: refused_evidence_def body_bytes_def carries_def split: if_splits)
qed

lemma Apply_acknowledged:
  assumes "run_state (ApplyRawConfigurationValidated x c raw) w = (None, w')" "w_trace w' = w_trace w @ es"
  shows "list_ex (applied_evidence c (HashBytes raw)) es"
  using assms(1)
proof (cases rule: apply_validated_cases)
  case (ready w1)
  obtain pre where pre: "w_trace w1 = w_trace w @ pre"
    using relD [OF waitForReady_calls [of c x dataplaneReadyTimeout], of w] ready(1)
    by (auto simp: calls_def emits_def)
  from post_raw_success [OF ready(2)] obtain out n resp where
    "w_trace w' = w_trace w1 @ [HttpCall (version_request c) out, HttpCall (apply_request c raw n) (Inr resp)]"
    "success (rs_status resp)" by (metis post_raw_instances(4))
  then show ?thesis
    using assms(2) pre apply_request_kind [of c raw n]
    by (auto simp: applied_evidence_def body_bytes_def carries_def split: if_splits)
qed simp

lemma emits_prefix: "emits P w w' \<Longrightarrow> \<exists>es. w_trace w' = w_trace w @ es"
  by (auto simp: emits_def)

lemma gateway_then_failure:
  assumes "hclient w = Some c" "hclient wa = Some c" "emits (\<lambda>e. \<exists>ev. e = Recorded ev) w wa"
    "run_state m wa = (v, w1)" "rel (does_with c (\<lambda>_ _. True) (records_only (\<lambda>_. False) (\<lambda>_. False))) m"
    "v = None \<longrightarrow> w' = w1"
    "\<And>err. v = Some err \<Longrightarrow> run_state (phase_failure x cfg stage s h err) w1 = (r, w')"
    "\<And>err es. v = Some err \<Longrightarrow> classify_err err = ClassConfigRejected \<Longrightarrow> w_trace w1 = w_trace wa @ es \<Longrightarrow>
       h = HashBytes [] \<or> list_ex (refused_evidence c h) es"
  shows "evident hash_justified w w' \<and> hclient w' = Some c"
proof -
  let ?none = "allowed (Some c) (\<lambda>_ _. True) (records_only (\<lambda>_. False) (\<lambda>_. False))"
  note m = does_with_run [OF assms(5,4,2)]
  have a: "emits ?none w wa"
    using assms(3) by (rule emits_mono) (auto simp: records_only_def)
  with m have b: "emits ?none w w1" by (blast intro: emits_trans)
  from emits_prefix [OF a] obtain e1 where e1: "w_trace wa = w_trace w @ e1" by blast
  from emits_prefix [OF conjunct2 [OF m]] obtain e2 where e2: "w_trace w1 = w_trace wa @ e2" by blast
  show ?thesis
  proof (cases v)
    case None
    with assms(6) have "w' = w1" by simp
    with m b assms(1) show ?thesis
      by (auto intro!: does_justified simp: does_def)
  next
    case (Some err)
    define R where "R = (\<lambda>h'. h' = h \<and> classify_err err = ClassConfigRejected)"
    have "rel (does_with c (\<lambda>_ _. True) (records_only R (\<lambda>_. False))) (phase_failure x cfg stage s h err)"
      by (rule phase_failure_does) (simp add: R_def)
    from does_with_run [OF this assms(7) [OF Some] conjunct1 [OF m]]
    have f: "hclient w' = Some c" "emits (allowed (Some c) (\<lambda>_ _. True) (records_only R (\<lambda>_. False))) w1 w'"
      by simp_all
    have "evident hash_justified w w'"
      by (rule evident_after [OF assms(1) conjunct1 [OF m] f(1) _ b f(2), of "e1 @ e2"])
        (use e1 e2 assms(8) [OF Some] in \<open>auto simp: R_def\<close>)
    with f show ?thesis by simp
  qed
qed

lemma validate_phase_justified:
  assumes "honest x" "hclient w = Some c" "run_state (validate_phase x cfg c s (HashBytes raw) raw) w = (r, w')"
  shows "evident hash_justified w w' \<and> hclient w' = Some c"
  using assms(3)
proof (cases rule: validate_phase_cases)
  case (1 wa v w1)
  show ?thesis
  proof (rule gateway_then_failure [OF assms(2) _ _ 1(3), where stage = "[]"])
    show "HashBytes raw = HashBytes [] \<or> list_ex (refused_evidence c (HashBytes raw)) es"
      if "v = Some err" "classify_err err = ClassConfigRejected" "w_trace w1 = w_trace wa @ es" for err es
      using Validate_verdict [OF assms(1) _ that(2,3)] 1(3) that(1) by blast
  qed (use 1 assms rec.Validate_does [OF TrueI] in \<open>auto simp: emits_def\<close>)
qed

lemma apply_phase_justified:
  assumes "honest x" "hclient w = Some c" "run_state (apply_phase x cfg c s (HashBytes raw) raw) w = (r, w')"
  shows "evident hash_justified w w' \<and> hclient w' = Some c"
  using assms(3)
proof (cases rule: apply_phase_cases)
  case (1 wa v w1)
  show ?thesis
    by (rule gateway_then_failure [OF assms(2) _ 1(1) 1(3), where stage = "''Apply''"])
      (use 1 assms Apply_verdict [OF assms(1)] rec.Apply_does [OF TrueI] in auto)
qed

lemma record_phase_justified:
  assumes "hclient w = Some c" "run_state (apply_phase x cfg c s h raw) w = (None, w1)" "h = HashBytes raw"
    "run_state (record_phase x cfg c s h) w1 = (r, w')"
  shows "evident hash_justified w w'"
  using assms(2)
proof (cases rule: apply_phase_cases)
  case (1 wa v wb)
  have v: "v = None \<and> wb = w1"
  proof (cases v)
    case (Some err)
    from 1(5) [OF Some] show ?thesis
      by (auto simp: phase_failure_def split: prod.splits if_splits)
  qed (use 1(4) in simp)
  have wa: "hclient wa = Some c" using 1 assms(1) by simp
  from emits_prefix [OF 1(1)] obtain e1 where e1: "w_trace wa = w_trace w @ e1" by blast
  have a: "emits (allowed (Some c) (\<lambda>_ _. True) (records_only (\<lambda>_. False) (\<lambda>_. False))) w wa"
    using 1(1) by (rule emits_mono) (auto simp: records_only_def)
  note m = does_with_run [OF rec.Apply_does [OF TrueI] 1(3) wa, of "\<lambda>_. False" "\<lambda>_. False"]
  then obtain e2 where e2: "w_trace wb = w_trace wa @ e2" using emits_prefix by blast
  have ack: "list_ex (applied_evidence c h) e2"
    using Apply_acknowledged [of x c raw wa wb e2] 1(3) v e2 assms(3) by simp
  have c1: "hclient w1 = Some c" using m v by simp
  note f = does_with_run [OF rec.record_phase_does [of "\<lambda>h'. h' = h", OF refl TrueI] assms(4) c1, of "\<lambda>_. False"]
  show ?thesis
    by (rule evident_after [OF assms(1) c1 conjunct1 [OF f] _ _ conjunct2 [OF f], of "e1 @ e2"])
      (use e1 e2 v a m ack in \<open>auto intro: emits_trans\<close>)
qed

lemma push_config_justified:
  assumes "honest x"
  shows "rel (evident hash_justified) (push_config x cfg s (HashBytes raw) raw)"
  unfolding rel_def
proof
  fix w :: "'a world"
  let ?h = "HashBytes raw"
  obtain r w' where run: "run_state (push_config x cfg s ?h raw) w = (r, w')" by (metis surj_pair)
  have prep: "evident hash_justified w w1" if "run_state (prepare x cfg s ?h) w = (q, w1)" for q w1
    using relD [OF rel_justified [OF rec.prepare_does [OF TrueI]], of w x cfg s ?h] that by simp
  have "evident hash_justified w w'"
    using run
  proof (cases rule: push_config_cases)
    case early
    then show ?thesis by (rule prep)
  next
    case (invalid c st w1)
    from prep [OF invalid(1)] validate_phase_justified [OF assms prepare_client [OF invalid(1)] invalid(2)]
    show ?thesis by (blast intro: just.R_trans)
  next
    case (refused c st w1 w2)
    note v = validate_phase_justified [OF assms prepare_client [OF refused(1)] refused(2)]
    from prep [OF refused(1)] v apply_phase_justified [OF assms conjunct2 [OF v] refused(3)]
    show ?thesis by (blast intro: just.R_trans)
  next
    case (applied c st w1 w2 w3)
    note v = validate_phase_justified [OF assms prepare_client [OF applied(1)] applied(2)]
    from prep [OF applied(1)] v record_phase_justified [OF conjunct2 [OF v] applied(3) refl applied(4)]
    show ?thesis by (blast intro: just.R_trans)
  qed
  with run show "evident hash_justified w (snd (run_state (push_config x cfg s ?h raw) w))" by simp
qed

lemma Reconcile_justified:
  assumes "honest x"
  shows "rel (evident hash_justified) (Reconcile x cfg req)"
proof -
  have "rel (evident hash_justified) (reconcile_config x cfg s)" for s
    unfolding reconcile_config_def Let_def
    by (intro just.rel_control push_config_justified assms rel_justified [OF rec.check_drift_does]
        rel_justified [OF rec.failWithStatus_does]) simp_all
  then show ?thesis
    unfolding Reconcile_def Let_def
    by (intro just.rel_control rel_justified [OF rec.get_does] rel_justified [OF rec.reconcile_cert_does])
qed

text \<open>C2: a configuration is recorded as applied only when the gateway acknowledged an apply of bytes
  with that hash earlier in the reconcile, and as failed (which suppresses it until the bytes change)
  only when the gateway answered 400 or 422 to a validation or an apply of bytes with that hash, or
  the configuration is empty. Version conflicts, timeouts, TLS, auth and server errors never do.\<close>

theorem recorded_hashes_justified:
  assumes "honest x"
  shows "\<exists>es. w_trace (snd (run_state (Reconcile x cfg req) w)) = w_trace w @ es
    \<and> traced (hash_justified (hclient (snd (run_state (Reconcile x cfg req) w)))) [] es"
  using relD [OF Reconcile_justified [OF assms, of cfg req], of w] by (auto simp: evident_def)

end
