(* ===== verification/Stages.thy ===== *)
theory Stages
  imports Verdicts
begin

text \<open>
  What single situations lead to: Secrets that are none of the operator's business, a configuration
  that was rejected before, live drift in alert-only mode, and the delay until the
  next reconcile.
\<close>

section \<open>Secrets of others\<close>

text \<open>An event for a Secret that is neither the named config Secret nor a managed certificate has no
  effect at all, not even a read.\<close>

theorem other_secret_ignored:
  assumes "SecretName cfg \<noteq> []" "snd req \<noteq> SecretName cfg" "snd req \<notin> set (CertsSecretNames cfg)"
  shows "run_state (Reconcile x cfg req) w = (RequeueAfter 0, w)"
  using assms by (simp add: Reconcile_def)

section \<open>Reading the config Secret\<close>

text \<open>The situations below start from an event for the config Secret that the API server still has.\<close>

definition config_event :: "'e ext \<Rightarrow> settings \<Rightarrow> object_key \<Rightarrow> secret \<Rightarrow> string \<Rightarrow> 'e world \<Rightarrow> bool" where
  "config_event x cfg req s raw w \<longleftrightarrow>
     snd req \<notin> set (CertsSecretNames cfg) \<and> fst (x_get x req (w_env w)) = Inr s
   \<and> s_name s = snd req \<and> (SecretName cfg = [] \<or> SecretName cfg = snd req)
   \<and> go_lookup (s_data s) (SecretKey cfg) = Some raw"

definition after_get :: "'e ext \<Rightarrow> object_key \<Rightarrow> secret \<Rightarrow> 'e world \<Rightarrow> 'e world" where
  "after_get x req s w = w\<lparr>w_env := snd (x_get x req (w_env w)), w_trace := w_trace w @ [KubeGet req (Inr s)]\<rparr>"

lemma after_get_simps [simp]:
  "w_rec (after_get x req s w) = w_rec w" "w_metrics (after_get x req s w) = w_metrics w"
  "w_now (after_get x req s w) = w_now w"
  "w_trace (after_get x req s w) = w_trace w @ [KubeGet req (Inr s)]"
  by (simp_all add: after_get_def)

lemma config_event_run:
  assumes "config_event x cfg req s raw w"
  shows "run_state (Reconcile x cfg req) w =
    (if HashBytes raw = annotation s LastAppliedHashAnnotation then
       run_state (do {
         d \<leftarrow> check_drift x cfg s (HashBytes raw);
         (case d of Some r \<Rightarrow> ret r | None \<Rightarrow> push_config x cfg s (HashBytes raw) raw)
       }) (after_get x req s w)
     else run_state (push_config x cfg s (HashBytes raw) raw) (after_get x req s w))"
proof -
  have g: "run_state (kube_get x req) w = (Inr s, after_get x req s w)"
    using assms by (auto simp: config_event_def kube_get_def after_get_def split: prod.splits)
  have facts: "snd req \<notin> set (CertsSecretNames cfg)" "\<not> (SecretName cfg \<noteq> [] \<and> snd req \<noteq> SecretName cfg)"
    "shouldReconcile cfg s" "go_lookup (s_data s) (SecretKey cfg) = Some raw"
    using assms by (auto simp: config_event_def shouldReconcile_def)
  then have "run_state (Reconcile x cfg req) w = run_state (reconcile_config x cfg s) (after_get x req s w)"
    unfolding Reconcile_def Let_def by (auto simp: g)
  also have "reconcile_config x cfg s =
      (if HashBytes raw = annotation s LastAppliedHashAnnotation then do {
         d \<leftarrow> check_drift x cfg s (HashBytes raw);
         (case d of Some r \<Rightarrow> ret r | None \<Rightarrow> push_config x cfg s (HashBytes raw) raw)
       } else push_config x cfg s (HashBytes raw) raw)"
    using facts by (simp add: reconcile_config_def Let_def)
  finally show ?thesis
    by (simp only: if_distrib [where f = "\<lambda>m. run_state m (after_get x req s w)"])
qed

text \<open>C17: an event of the config Secret whose bytes are recorded as failed, and not as applied, is left
  alone: the reconcile reads the Secret, sends nothing to the gateway, writes nothing, and comes back
  after the regular interval. (An event of a managed certificate is another matter: it forgets the
  record first, so the same bytes are sent again.)\<close>

theorem rejected_config_suppressed:
  assumes "config_event x cfg req s raw w" "annotation s LastFailedHashAnnotation = HashBytes raw"
    "annotation s LastAppliedHashAnnotation \<noteq> HashBytes raw"
  shows "\<exists>w'. run_state (Reconcile x cfg req) w = (RequeueAfter RequeueInterval, w')
    \<and> w_trace w' = w_trace w @ [KubeGet req (Inr s)] \<and> w_metrics w' = w_metrics w
    \<and> hclient w' = hclient w"
  using assms(2,3)
  by (simp add: config_event_run [OF assms(1)] push_config_def prepare_def note_desired_def)

section \<open>The next reconcile is scheduled\<close>

definition scheduled :: "result \<Rightarrow> bool" where
  "scheduled r = (case r of RequeueAfter d \<Rightarrow> baseRetryInterval \<le>s d \<and> d \<le>s maxRetryInterval | _ \<Rightarrow> True)"

lemma backoff_scheduled: "scheduled (RequeueAfter (backoffForFailure n))"
proof (cases "7 < n")
  case True
  then show ?thesis by (simp add: scheduled_def backoff_outside word_sle_eq)
next
  case False
  then consider "n < 0" | "n = 0" | "n = 1" | "n = 2" | "n = 3" | "n = 4" | "n = 5" | "n = 6" | "n = 7" by linarith
  then show ?thesis
    by cases (simp_all add: scheduled_def backoff_outside backoff_table word_sle_eq)
qed

lemma fixed_scheduled [simp]:
  "scheduled (RequeueAfter 300000000000)" "scheduled (RequeueAfter 30000000000)" "scheduled (Failed e)"
  "scheduled PanicResult"
  by (simp_all add: scheduled_def word_sle_eq)

lemma count_failure_scheduled: "returns (\<lambda>d. scheduled (RequeueAfter d)) count_failure"
  by (simp add: returns_def count_failure_def backoff_scheduled del: duration_values)

lemma failures_scheduled:
  "returns scheduled (fail_transient x s v err)" "returns scheduled (transient_failure x cfg s stage err)"
  "returns scheduled (client_failure x s err)" "returns scheduled (reject_config x cfg s h err)"
proof -
  have f: "returns scheduled (fail_transient x s v err)" for v
    unfolding fail_transient_def
    by (intro returns_bind returns_control returns_bind' [OF count_failure_scheduled]) simp_all
  show "returns scheduled (fail_transient x s v err)" by (rule f)
  show "returns scheduled (transient_failure x cfg s stage err)" "returns scheduled (client_failure x s err)"
    unfolding transient_failure_def client_failure_def Let_def by (intro returns_bind f)+
  show "returns scheduled (reject_config x cfg s h err)"
    unfolding reject_config_def by (intro returns_bind returns_ret) (simp split: option.split)
qed

lemma prepare_scheduled: "returns (\<lambda>r. \<forall>q. r = Inl q \<longrightarrow> scheduled q) (prepare x cfg s h)"
proof -
  have l: "returns (\<lambda>r. \<forall>q. r = Inl q \<longrightarrow> scheduled q) (State_Monad.bind m (\<lambda>r. ret (Inl r)))"
    if "returns scheduled m" for m :: "('a, result) go"
    by (rule returns_bind' [OF that]) (simp add: returns_def)
  show ?thesis
    unfolding prepare_def
    by (rule returns_bind, rule returns_if, simp add: returns_def, rule returns_bind)
      (intro returns_control l failures_scheduled returns_bind [where m = "count_attempt _"]
        returns_bind [where m = "ensureCertSecretsSynced _ _ _ _ _"]; simp)
qed

lemma phases_scheduled:
  "returns (\<lambda>r. \<forall>q. r = Some q \<longrightarrow> scheduled q) (validate_phase x cfg c s h raw)"
  "returns (\<lambda>r. \<forall>q. r = Some q \<longrightarrow> scheduled q) (apply_phase x cfg c s h raw)"
proof -
  have some: "returns (\<lambda>r. \<forall>q. r = Some q \<longrightarrow> scheduled q) (State_Monad.bind m (\<lambda>r. ret (Some r)))"
    if "returns scheduled m" for m :: "('a, result) go"
    by (rule returns_bind' [OF that]) (simp add: returns_def)
  show "returns (\<lambda>r. \<forall>q. r = Some q \<longrightarrow> scheduled q) (validate_phase x cfg c s h raw)"
    unfolding validate_phase_def
    by (rule returns_bind, rule returns_bind, rule returns_option, simp add: returns_def, rule returns_bind)
      (intro some returns_if failures_scheduled)
  show "returns (\<lambda>r. \<forall>q. r = Some q \<longrightarrow> scheduled q) (apply_phase x cfg c s h raw)"
    unfolding apply_phase_def
    by (rule returns_bind, rule returns_bind, rule returns_bind, rule returns_option, simp add: returns_def,
        rule returns_bind) (intro some returns_if failures_scheduled)
qed

lemma record_phase_scheduled: "returns scheduled (record_phase x cfg c s h)"
  unfolding record_phase_def
  by (intro returns_bind returns_ret) (simp add: backoff_scheduled split: option.split)

lemma push_config_scheduled: "returns scheduled (push_config x cfg s h raw)"
  unfolding push_config_def
  by (intro returns_bind' [OF prepare_scheduled] returns_bind' [OF phases_scheduled(1)]
      returns_bind' [OF phases_scheduled(2)] returns_control record_phase_scheduled) simp_all

lemma check_drift_scheduled: "returns (\<lambda>r. \<forall>q. r = Some q \<longrightarrow> scheduled q) (check_drift x cfg s h)"
proof -
  have some: "returns (\<lambda>r. \<forall>q. r = Some q \<longrightarrow> scheduled q) (State_Monad.bind m (\<lambda>r. ret (Some r)))"
    if "returns scheduled m" for m :: "('a, result) go"
    by (rule returns_bind' [OF that]) (simp add: returns_def)
  have c: "returns (\<lambda>r. \<forall>q. r = Some q \<longrightarrow> scheduled q) (compare_live x cfg s h live)" for live
    unfolding compare_live_def drift_found_def Let_def
    by (rule returns_bind, rule returns_if)
      (intro returns_bind returns_if returns_ret; simp)+
  show ?thesis
    unfolding check_drift_def
    by (rule returns_bind, rule returns_sum)
      (intro some failures_scheduled returns_bind [where m = "GetRawConfiguration _ _"] returns_sum c)+
qed

text \<open>C34: the config Secret is never forgotten: every reconcile of it that does not fail (and failed ones
  are retried by the controller) is followed by another one after between thirty seconds and five
  minutes.\<close>

theorem config_reconcile_scheduled:
  assumes "shouldReconcile cfg s"
  shows "scheduled (fst (run_state (reconcile_config x cfg s) w))"
proof -
  have "returns scheduled (reconcile_config x cfg s)"
    unfolding reconcile_config_def Let_def
    by (intro returns_if returns_option)
      (use assms in \<open>auto intro!: returns_bind returns_ret returns_bind' [OF check_drift_scheduled]
        push_config_scheduled split: option.split\<close>)
  then show ?thesis by (simp add: returns_def)
qed

section \<open>Drift that is only reported\<close>

text \<open>The policy of a reconcile that only looks: the one request it may send is the live read.\<close>

definition looks_only :: "effect \<Rightarrow> bool" where
  "looks_only e = (case e of HttpCall rq out \<Rightarrow> rq_method rq = ''GET'' \<and> rq_body rq = None | _ \<Rightarrow> True)"

interpretation look: read_policy x cfg "\<lambda>c rq. rq = live_request c" "\<lambda>_. True" "\<lambda>_. True" for x cfg
  by unfold_locales simp_all

lemma check_drift_looks:
  assumes "run_state (check_drift x cfg s h) w = (r, w')"
  shows "emits looks_only w w'"
proof -
  have "does (\<lambda>c rq. rq = live_request c) (\<lambda>_. True) w w'"
    using relD [OF look.check_drift_does [OF TrueI, of x cfg s h], of w] assms by simp
  then show ?thesis
    by (auto simp: does_def looks_only_def allowed_def live_request_def elim!: emits_mono split: effect.splits)
qed

lemma drift_found_ends:
  "returns (\<lambda>r. \<not> DriftRemediate cfg \<or> h = annotation s LastFailedHashAnnotation \<longrightarrow> r \<noteq> None) (drift_found cfg s h)"
  unfolding drift_found_def
  by (rule returns_bind, intro returns_if) (auto simp: returns_def emit_def split: option.split)

lemma check_drift_ends:
  "returns (\<lambda>r. \<not> DriftRemediate cfg \<or> h = annotation s LastFailedHashAnnotation \<longrightarrow> r \<noteq> None) (check_drift x cfg s h)"
proof -
  have some: "returns (\<lambda>r. P \<longrightarrow> r \<noteq> None) (State_Monad.bind m (\<lambda>r. ret (Some r)))"
    for m :: "('a, result) go" and P
    by (rule returns_bind) (simp add: returns_def)
  have "returns (\<lambda>r. \<not> DriftRemediate cfg \<or> h = annotation s LastFailedHashAnnotation \<longrightarrow> r \<noteq> None)
      (compare_live x cfg s h live)" for live
    unfolding compare_live_def Let_def
    by (rule returns_bind, intro returns_if drift_found_ends) (auto simp: returns_def split: prod.splits)
  then show ?thesis
    unfolding check_drift_def
    by (intro returns_bind returns_sum some)
qed

text \<open>C18: while the desired bytes are the applied ones and remediation is off (or the bytes are recorded
  as rejected), a reconcile sends no request but the read of the live configuration: drift is
  reported and nothing is written to the gateway.\<close>

theorem drift_alert_only:
  assumes "config_event x cfg req s raw w" "annotation s LastAppliedHashAnnotation = HashBytes raw"
    "\<not> DriftRemediate cfg \<or> annotation s LastFailedHashAnnotation = HashBytes raw"
  shows "\<exists>es. w_trace (snd (run_state (Reconcile x cfg req) w)) = w_trace w @ es \<and> list_all looks_only es"
proof -
  obtain d w1 where d: "run_state (check_drift x cfg s (HashBytes raw)) (after_get x req s w) = (d, w1)"
    by (metis surj_pair)
  have "d \<noteq> None"
    using check_drift_ends [of cfg "HashBytes raw" s x] d assms(3) unfolding returns_def by (metis fst_conv)
  then obtain r where "d = Some r" by blast
  with d assms(2) have "snd (run_state (Reconcile x cfg req) w) = w1"
    by (simp add: config_event_run [OF assms(1)])
  moreover from check_drift_looks [OF d] obtain es where
    "w_trace w1 = w_trace (after_get x req s w) @ es" "list_all looks_only es"
    by (auto simp: emits_def)
  ultimately have "w_trace (snd (run_state (Reconcile x cfg req) w)) = w_trace w @ (KubeGet req (Inr s) # es)
      \<and> list_all looks_only (KubeGet req (Inr s) # es)"
    by (simp add: looks_only_def)
  then show ?thesis by blast
qed

end
