(* ===== verification/Readiness.thy ===== *)
theory Readiness
  imports Client_Laws
begin

text \<open>
  How long \<^verbatim>\<open>waitForReady\<close> can take and how many requests it can send, and the gateway
  it takes longest with. The loop looks at the clock only before a round, so the last round may
  start just before the deadline and run for a whole request.
\<close>

section \<open>Bounds\<close>

text \<open>A request takes at most \<open>H\<close> (the HTTP client's timeout), and a timer fires at most \<open>D\<close> late.\<close>

definition timely :: "'e ext \<Rightarrow> nat \<Rightarrow> nat \<Rightarrow> bool" where
  "timely x H D \<longleftrightarrow>
     (\<forall>rq e. fst (snd (x_http x rq e)) \<le> H)
   \<and> (\<forall>d e. fst (snd (x_wait x d e)) \<le> (case fst (x_wait x d e) of None \<Rightarrow> D | Some _ \<Rightarrow> d + D))"

lemma do_request_time:
  assumes "timely x H D" "run_state (do_request x c m p b t) w = (r, w')"
  shows "w_now w' \<le> w_now w + H"
proof -
  let ?rq = "make_request c m p b t"
  have "fst (snd (x_http x ?rq (w_env w))) \<le> H" using assms(1) by (simp add: timely_def)
  then show ?thesis
    using assms(2)
    by (auto simp: do_request_def Let_def do_http_def observe_leaf_def modify_metrics_def
        split: option.splits sum.splits prod.splits)
qed

lemma getConfigVersion_time:
  assumes "timely x H D" "run_state (getConfigVersion x c) w = (r, w')"
  shows "w_now w' \<le> w_now w + H"
  using assms(2) do_request_time [OF assms(1)]
  by (auto simp: getConfigVersion_def doRequest_def split: prod.splits)

lemma select_after_time:
  assumes "timely x H D" "run_state (select_after x d) w = (r, w')"
  shows "w_now w' \<le> w_now w + d + D"
proof -
  have "fst (snd (x_wait x d (w_env w))) \<le> (case fst (x_wait x d (w_env w)) of None \<Rightarrow> D | Some _ \<Rightarrow> d + D)"
    using assms(1) by (simp add: timely_def)
  then show ?thesis
    using assms(2) by (auto simp: select_after_def split: prod.splits option.splits)
qed

lemma wait_loop_time:
  assumes "timely x H D"
  shows "w_now (snd (wait_loop x c deadline lastErr w)) \<le> max (w_now w) (deadline + H + readyPollInterval + D)"
  using assms
proof (induction x c deadline lastErr w rule: wait_loop.induct)
  case (1 x c deadline lastErr w)
  obtain r w1 where r: "run_state (getConfigVersion x c) w = (r, w1)" by (metis surj_pair)
  obtain dn w2 where s: "run_state (select_after x readyPollInterval) w1 = (dn, w2)" by (metis surj_pair)
  have t: "w_now w1 \<le> w_now w + H" "w_now w2 \<le> w_now w1 + readyPollInterval + D"
    using getConfigVersion_time [OF "1.prems" r] select_after_time [OF "1.prems" s] by simp_all
  show ?case
  proof (cases "w_now w < deadline")
    case True
    have "w_now (snd (wait_loop x c deadline (Some err) w2)) \<le> max (w_now w2) (deadline + H + readyPollInterval + D)"
      if "r = Inl err" "dn = None" for err
      using "1.IH" [OF True r [symmetric] that(1) s [symmetric] that(2) "1.prems"] .
    with True r s t show ?thesis
      by (subst wait_loop.simps) (fastforce split: sum.split option.split)
  next
    case False
    then show ?thesis by (subst wait_loop.simps) simp
  qed
qed

lemma getConfigVersion_once:
  "run_state (getConfigVersion x c) w = (r, w') \<Longrightarrow> \<exists>es. w_trace w' = w_trace w @ es \<and> length es \<le> 1"
  by (erule getConfigVersion_cases) auto

lemma select_after_trace: "run_state (select_after x d) w = (r, w') \<Longrightarrow> w_trace w' = w_trace w"
  by (auto simp: select_after_def split: prod.splits)

lemma wait_loop_count:
  "\<exists>es. w_trace (snd (wait_loop x c deadline lastErr w)) = w_trace w @ es
     \<and> (es = [] \<or> w_now w + (length es - 1) * readyPollInterval < deadline)"
proof (induction x c deadline lastErr w rule: wait_loop.induct)
  case (1 x c deadline lastErr w)
  obtain r w1 where r: "run_state (getConfigVersion x c) w = (r, w1)" by (metis surj_pair)
  obtain dn w2 where s: "run_state (select_after x readyPollInterval) w1 = (dn, w2)" by (metis surj_pair)
  from getConfigVersion_once [OF r] obtain e1 where e1: "w_trace w1 = w_trace w @ e1" "length e1 \<le> 1"
    by blast
  have e2: "w_trace w2 = w_trace w @ e1" using select_after_trace [OF s] e1 by simp
  show ?case
  proof (cases "w_now w < deadline")
    case False
    then show ?thesis by (subst wait_loop.simps) simp
  next
    case True
    consider (more) err where "r = Inl err" "dn = None"
      | (stop) w3 where "snd (wait_loop x c deadline lastErr w) = w3" "w_trace w3 = w_trace w @ e1"
      using True r s e1 e2 by (subst (asm) wait_loop.simps) (cases r; cases dn; auto)
    then show ?thesis
    proof cases
      case stop
      have "(length e1 - 1) * readyPollInterval = 0" using e1(2) by simp
      with stop True show ?thesis by (metis add_0_right)
    next
      case (more err)
      then obtain es where es: "w_trace (snd (wait_loop x c deadline (Some err) w2)) = w_trace w2 @ es"
          "es = [] \<or> w_now w2 + (length es - 1) * readyPollInterval < deadline"
        using "1.IH" [OF True r [symmetric] _ s [symmetric]] by blast
      have eq: "wait_loop x c deadline lastErr w = wait_loop x c deadline (Some err) w2"
        using True r s more by (subst wait_loop.simps) simp
      have "w_now w + readyPollInterval \<le> w_now w2"
        using getConfigVersion_now [OF r] select_after_now s more by fastforce
      then have "w_now w + (length (e1 @ es) - 1) * readyPollInterval < deadline"
        using es(2) e1(2) True by (cases es) auto
      then show ?thesis using es(1) e2 unfolding eq by (metis append.assoc)
    qed
  qed
qed

text \<open>C33: the readiness loop ends for every gateway: after at most the timeout, one whole request and
  one poll, with at most one version read per poll interval of the timeout.\<close>

theorem readiness_bounded:
  assumes "timely x H D" "run_state (waitForReady x c timeout) w = (r, w')"
  shows "w_now w' \<le> w_now w + timeout + H + readyPollInterval + D
    \<and> (\<exists>es. w_trace w' = w_trace w @ es \<and> list_all (version_read c) es
      \<and> (es = [] \<or> (length es - 1) * readyPollInterval < timeout))"
proof -
  have w': "w' = snd (wait_loop x c (w_now w + timeout) None w)"
    using assms(2) by (simp add: waitForReady_def)
  from wait_loop_count [of x c "w_now w + timeout" None w] obtain es where
    es: "w_trace w' = w_trace w @ es" "es = [] \<or> (length es - 1) * readyPollInterval < timeout"
    by (auto simp: w')
  moreover have "list_all (version_read c) es"
    using emits_last [OF calls_emits [OF wait_loop_calls] es(1) [unfolded w']] .
  ultimately show ?thesis
    using wait_loop_time [OF assms(1), of c "w_now w + timeout" None w] by (auto simp: w')
qed

section \<open>A gateway that never answers\<close>

text \<open>The environment of the examples: an HTTP behaviour, nothing stored, files and SPIRE fine.\<close>

definition plain_ext :: "(http_request \<Rightarrow> 'e \<Rightarrow> http_outcome \<times> nat \<times> 'e) \<Rightarrow> 'e ext" where
  "plain_ext http = \<lparr>
     x_http = http,
     x_new_request = (\<lambda>rq. None),
     x_wait = (\<lambda>d e. (None, 0, e)),
     x_get = (\<lambda>k e. (Inl (KubeError KNotFound ''not found''), e)),
     x_patch = (\<lambda>orig new e. (Inr new, e)),
     x_format_time = (\<lambda>t. ''2025-01-01T00:00:00Z''),
     x_url_parse = (\<lambda>s. Inr \<lparr>u_scheme = ''http'', u_host = ''gw'', u_path = ''/v3'', u_query = []\<rparr>),
     x_read_file = (\<lambda>p e. (Inr [], e)),
     x_has_certs = (\<lambda>b. True),
     x_load_pair = (\<lambda>a b e. (None, e)),
     x_spire_source = (\<lambda>p e. (None, e)),
     x_pem_decode = (\<lambda>b. None),
     x_parse_cert = (\<lambda>d. Inr \<lparr>cert_raw = d, cert_serial = ''1'', cert_not_after = 0\<rparr>),
     x_boundary = (\<lambda>e. (''boundary'', e)),
     x_json_text = (\<lambda>b. ''invalid JSON'')\<rparr>"

lemma plain_ext_simps [simp]:
  "x_http (plain_ext h) = h" "x_new_request (plain_ext h) = (\<lambda>rq. None)"
  "x_wait (plain_ext h) = (\<lambda>d e. (None, 0, e))"
  "x_patch (plain_ext h) = (\<lambda>orig new e. (Inr new, e))"
  "x_json_text (plain_ext h) = (\<lambda>b. ''invalid JSON'')"
  "x_pem_decode (plain_ext h) = (\<lambda>b. None)"
  by (simp_all add: plain_ext_def)

definition silent_http :: "http_request \<Rightarrow> unit \<Rightarrow> http_outcome \<times> nat \<times> unit" where
  "silent_http rq e = (Inl (URLError ''Get'' (Some DeadlineExceeded)), defaultHTTPTimeout, e)"

definition demo_config :: api_config where
  "demo_config = \<lparr>BaseURL = ''http://gw/v3'', Insecure = False, CACertPath = [], ClientCertPath = [],
     ClientKeyPath = [], Username = [], Password = []\<rparr>"

definition demo_client :: client where
  "demo_client = newClient demo_config
     \<lparr>u_scheme = ''http'', u_host = ''gw'', u_path = ''/v3'', u_query = []\<rparr> DefaultTransport"

lemma silent_version:
  "run_state (getConfigVersion (plain_ext silent_http) c) w =
     (Inl (VersionCheckError (URLError ''Get'' (Some DeadlineExceeded))),
      w\<lparr>w_now := w_now w + defaultHTTPTimeout,
        w_trace := w_trace w @ [HttpCall (version_request c) (Inl (URLError ''Get'' (Some DeadlineExceeded)))]\<rparr>)"
  by (simp add: getConfigVersion_def doRequest_def do_request_def do_http_def silent_http_def
      json_result_def version_request_def)

lemma silent_wait:
  "run_state (select_after (plain_ext silent_http) d) w = (None, w\<lparr>w_now := w_now w + d\<rparr>)"
  by (simp add: select_after_def)

text \<open>C35: the ten-second bound on waiting is not one: with a gateway that accepts connections and never
  answers, the loop returns after thirty and a quarter seconds, having asked once.\<close>

theorem readiness_overrun:
  "(case run_state (waitForReady (plain_ext silent_http) demo_client dataplaneReadyTimeout) (initial_world ()) of
      (r, w) \<Rightarrow> r \<noteq> None \<and> w_now w = 30250000000 \<and> length (w_trace w) = 1)
   \<and> dataplaneReadyTimeout = 10000000000"
proof -
  have "wait_loop (plain_ext silent_http) demo_client dataplaneReadyTimeout None (initial_world ()) =
      (Some (VersionCheckError (URLError ''Get'' (Some DeadlineExceeded))),
       (initial_world ())\<lparr>w_now := 30250000000, w_trace :=
          [HttpCall (version_request demo_client) (Inl (URLError ''Get'' (Some DeadlineExceeded)))]\<rparr>)"
    by (subst wait_loop.simps, simp add: silent_version silent_wait initial_world_def)
      (subst wait_loop.simps, simp)
  then show ?thesis by (simp add: waitForReady_def initial_world_def)
qed

theorem readiness_bounded_witness:
  "w_now (snd (run_state (waitForReady (plain_ext silent_http) demo_client dataplaneReadyTimeout) (initial_world ())))
     \<le> 0 + dataplaneReadyTimeout + defaultHTTPTimeout + readyPollInterval + 0"
proof -
  have "timely (plain_ext silent_http) defaultHTTPTimeout 0"
    by (simp add: timely_def silent_http_def)
  from readiness_bounded [OF this surjective_pairing, of demo_client dataplaneReadyTimeout "initial_world ()"]
  show ?thesis by (simp add: initial_world_def)
qed

end
