(* ===== verification/Cert_Laws.thy ===== *)
theory Cert_Laws
  imports Readiness
begin

text \<open>
  The certificate side of the client: building it never gives a TLS transport that accepts an
  unverified server unless that was asked for (plain http is not TLS), the search for the leaf certificate ends, and a stored
  certificate is left alone only when everything the gateway reports matches.
\<close>

section \<open>Who is trusted\<close>

text \<open>The transport of a client that leaves no TLS connection unverified. Over https the standard
  verification is switched off, the peer callback takes its place, and the client certificate is
  presented. Over plain http there is no TLS and no server is verified; there the predicate only says
  that a TLS configuration, if there is one, does not switch verification off without the callback.\<close>

definition no_unverified_tls :: "client \<Rightarrow> bool" where
  "no_unverified_tls c =
    (case c_transport c of
       DefaultTransport \<Rightarrow> u_scheme (c_base c) = ''http''
     | HTTPTransport skip verify pair \<Rightarrow>
         if u_scheme (c_base c) = ''https'' then skip \<and> verify \<and> pair else skip \<longrightarrow> verify
     | SpireTransport \<Rightarrow> False)"

definition web_scheme :: "client \<Rightarrow> bool" where
  "web_scheme c \<longleftrightarrow> u_scheme (c_base c) = ''http'' \<or> u_scheme (c_base c) = ''https''"

lemma NewClient_result:
  "wp (NewClient x cfg) (\<lambda>r w'. case r of Inl _ \<Rightarrow> True | Inr c \<Rightarrow>
     c_config c = cfg \<and> web_scheme c \<and> (Insecure cfg \<or> no_unverified_tls c)) w"
proof (cases "x_url_parse x (BaseURL cfg)")
  case (Inl err)
  then show ?thesis by (simp add: NewClient_def)
next
  case (Inr u)
  consider "u_scheme u \<noteq> ''http''" "u_scheme u \<noteq> ''https''" | "u_scheme u = ''http''" | "u_scheme u = ''https''"
    by blast
  then show ?thesis
  proof cases
    case 1
    with Inr show ?thesis by (simp add: NewClient_def)
  next
    case 2
    with Inr show ?thesis
      by (auto simp: NewClient_def Let_def newClient_def no_unverified_tls_def web_scheme_def wp_def
          split: option.splits prod.splits sum.splits)
  next
    case 3
    with Inr show ?thesis
      by (auto simp: NewClient_def Let_def newClient_def no_unverified_tls_def web_scheme_def wp_def
          split: option.splits prod.splits sum.splits)
  qed
qed

text \<open>Unless verification is switched off, every client the operator builds from mounted files talks
  plain http or verifies the server, and over https it also presents a client certificate.\<close>

theorem new_client_verifies:
  "case fst (run_state (NewClient x cfg) w) of
     Inl err \<Rightarrow> True
   | Inr c \<Rightarrow> c_config c = cfg \<and> web_scheme c \<and> (Insecure cfg \<or> no_unverified_tls c)"
  using NewClient_result [of x cfg w] by (simp add: wp_run)

section \<open>The leaf serial\<close>

text \<open>Decoding a block leaves less to decode.\<close>

definition pem_shrinks :: "'e ext \<Rightarrow> bool" where
  "pem_shrinks x \<longleftrightarrow> (\<forall>b t d r. x_pem_decode x b = Some (t, d, r) \<longrightarrow> length r < length b)"

lemma cert_block_some:
  assumes "pem_shrinks x"
  shows "length pem < n \<Longrightarrow> first_cert_block x n pem \<noteq> None"
proof (induction n arbitrary: pem)
  case (Suc n)
  have "length r < length pem" if "x_pem_decode x pem = Some (t, d, r)" for t d r
    using assms that unfolding pem_shrinks_def by blast
  then show ?case
    using Suc by (fastforce simp: first_cert_block.simps split: option.split)
qed simp

lemma cert_block_more: "first_cert_block x n pem = Some r \<Longrightarrow> n \<le> m \<Longrightarrow> first_cert_block x m pem = Some r"
proof (induction n arbitrary: pem m)
  case (Suc n)
  then obtain m' where "m = Suc m'" "n \<le> m'" by (cases m) auto
  with Suc show ?case by (auto simp: first_cert_block.simps split: option.splits)
qed (simp add: first_cert_block.simps)

lemma leafSerial_some: "pem_shrinks x \<Longrightarrow> leafSerial x pem \<noteq> None"
  using cert_block_some [of x pem "Suc (length pem)"] by (simp add: leafSerial_def)

text \<open>The search for the leaf certificate ends on every bundle, with the serial or an error, and a
  bundle's own length bounds the number of blocks it can look at: more fuel changes nothing.\<close>

theorem leaf_serial_total:
  assumes "pem_shrinks x" "length pem < n"
  shows "leafSerial x pem \<noteq> None \<and> first_cert_block x n pem = first_cert_block x (Suc (length pem)) pem"
proof -
  obtain r where r: "first_cert_block x (Suc (length pem)) pem = Some r"
    using cert_block_some [OF assms(1), of pem "Suc (length pem)"] by auto
  with cert_block_more [OF r, of n] assms(2) leafSerial_some [OF assms(1)] show ?thesis by simp
qed

section \<open>Skipping and writing\<close>

lemma pem_body: "str_contains (multipart_body boundary name pem) pem"
proof -
  have "\<exists>a b. multipart_body boundary name pem = a @ pem @ b"
    unfolding multipart_body_def by (metis append.assoc)
  then show ?thesis by (simp add: str_contains_iff)
qed

lemma decode_stream_answer:
  assumes "json_result x zero dec (answer out) = Inr v"
  shows "\<exists>resp. out = Inr resp \<and> success (rs_status resp)"
  using assms by (auto simp: json_result_def answer_def split: sum.splits if_splits)

lemma SyncSSL_skip:
  assumes "run_state (SyncSSLCertificate x c name pem prev) w = ((False, None), w')" "pem_shrinks x"
  shows "\<exists>serial out remote es. leafSerial x pem = Some (Inr serial)
   \<and> w_trace w' = w_trace w @ es @ [HttpCall (cert_read c name) out] \<and> list_all (version_read c) es
   \<and> json_result x ssl_zero ssl_of_json (answer out) = Inr remote
   \<and> up_to_date remote serial pem prev"
proof -
  have total: "leafSerial x pem \<noteq> None"
    by (rule leafSerial_some [OF assms(2)])
  with assms(1) obtain serial where serial: "leafSerial x pem = Some (Inr serial)"
    by (auto simp: SyncSSLCertificate_def split: option.splits sum.splits)
  obtain rd w1 where rd: "run_state (waitForReady x c dataplaneReadyTimeout) w = (rd, w1)" by (metis surj_pair)
  from assms(1) serial rd have "rd = None"
    by (auto simp: SyncSSLCertificate_def split: option.splits)
  have "calls (version_read c) w w1"
    using relD [OF waitForReady_calls [of c x dataplaneReadyTimeout], of w] rd by simp
  then obtain es where es: "w_trace w1 = w_trace w @ es" "list_all (version_read c) es"
    by (auto simp: calls_def emits_def)
  obtain r w2 where r: "run_state (do_request x c ''GET'' (cert_endpoint name) None ''application/json'') w1 = (r, w2)"
    by (metis surj_pair)
  from r show ?thesis
  proof (cases rule: do_request_cases)
    case (not_sent err)
    with assms(1) serial rd \<open>rd = None\<close> r show ?thesis
      by (auto simp: SyncSSLCertificate_def cert_endpoint_def doRequest_def json_result_def Let_def
          split: if_splits prod.splits)
  next
    case (sent out)
    with assms(1) serial rd \<open>rd = None\<close> r es show ?thesis
      by (auto simp: SyncSSLCertificate_def cert_endpoint_def cert_read_def doRequest_def Let_def
          up_to_date_def split: if_splits prod.splits sum.splits)
  qed
qed

end
