(* ===== verification/Convergence.thy ===== *)
theory Convergence
  imports Stages Cert_Laws
begin

text \<open>
  What happens when everything outside works: a new configuration is validated, applied and
  recorded in one reconcile, and a recorded configuration that the gateway still serves leads to
  nothing but a read. The gateway and the API server are described by what they answer to the
  requests of the reconcile, not by a model of their own.
\<close>

section \<open>A gateway that serves\<close>

definition answers :: "'e ext \<Rightarrow> http_request \<Rightarrow> (http_response \<Rightarrow> bool) \<Rightarrow> bool" where
  "answers x rq Q \<longleftrightarrow> x_new_request x rq = None
     \<and> (\<forall>e. case fst (x_http x rq e) of Inr resp \<Rightarrow> success (rs_status resp) \<and> Q resp | Inl _ \<Rightarrow> False)"

text \<open>The same in one state of the environment.\<close>

definition answers_in :: "'e ext \<Rightarrow> 'e \<Rightarrow> http_request \<Rightarrow> (http_response \<Rightarrow> bool) \<Rightarrow> bool" where
  "answers_in x e rq Q \<longleftrightarrow> x_new_request x rq = None
     \<and> (case fst (x_http x rq e) of Inr resp \<Rightarrow> success (rs_status resp) \<and> Q resp | Inl _ \<Rightarrow> False)"

lemma answers_in_any: "answers x rq Q \<Longrightarrow> answers_in x e rq Q"
  by (simp add: answers_def answers_in_def)

text \<open>It reports a version and accepts the bytes for validation and apply.\<close>

definition accepts :: "'e ext \<Rightarrow> client \<Rightarrow> string \<Rightarrow> bool" where
  "accepts x c raw \<longleftrightarrow>
     answers x (version_request c) (\<lambda>resp. \<exists>n. version_answer x (Inr resp) = Inr n)
   \<and> (\<forall>n. answers x (validate_request c raw n) (\<lambda>_. True))
   \<and> (\<forall>n. answers x (apply_request c raw n) (\<lambda>_. True))"

text \<open>The environment's state after a request.\<close>

abbreviation sent_env :: "'e ext \<Rightarrow> http_request \<Rightarrow> 'e \<Rightarrow> 'e" where
  "sent_env x rq e \<equiv> snd (snd (x_http x rq e))"

text \<open>The gateway as a component of the environment's state: \<open>g\<close> is the configuration it runs. The live
  read shows it, an accepted apply of \<open>raw\<close> makes it \<open>stored\<close>, what the gateway makes of these bytes;
  version reads, live reads, validations and the API server's operations leave it alone.\<close>

definition serves :: "'e ext \<Rightarrow> client \<Rightarrow> string \<Rightarrow> string \<Rightarrow> ('e \<Rightarrow> string) \<Rightarrow> bool" where
  "serves x c raw stored g \<longleftrightarrow> accepts x c raw
   \<and> (\<forall>e. answers_in x e (live_request c) (\<lambda>resp. string_result (Inr resp) = Inr (g e)))
   \<and> (\<forall>e n. g (sent_env x (apply_request c raw n) e) = stored)
   \<and> (\<forall>e n. g (sent_env x (validate_request c raw n) e) = g e)
   \<and> (\<forall>e. g (sent_env x (version_request c) e) = g e \<and> g (sent_env x (live_request c) e) = g e)
   \<and> (\<forall>k e. g (snd (x_get x k e)) = g e) \<and> (\<forall>orig new e. g (snd (x_patch x orig new e)) = g e)"

lemma servesD:
  assumes "serves x c raw stored g"
  shows "accepts x c raw" "answers_in x e (live_request c) (\<lambda>resp. string_result (Inr resp) = Inr (g e))"
    "g (sent_env x (apply_request c raw n) e) = stored" "g (sent_env x (validate_request c raw n) e) = g e"
    "g (sent_env x (version_request c) e) = g e" "g (sent_env x (live_request c) e) = g e"
    "g (snd (x_get x k e)) = g e" "g (snd (x_patch x orig new e)) = g e"
  using assms unfolding serves_def by blast+

definition patches_succeed :: "'e ext \<Rightarrow> bool" where
  "patches_succeed x \<longleftrightarrow> (\<forall>orig new e. case fst (x_patch x orig new e) of Inr _ \<Rightarrow> True | Inl _ \<Rightarrow> False)"

text \<open>A view of the environment that requests to the gateway and waiting leave alone, such as a Secret
  on the API server.\<close>

definition silent :: "'e ext \<Rightarrow> ('e \<Rightarrow> secret) \<Rightarrow> bool" where
  "silent x v \<longleftrightarrow> (\<forall>rq e. v (snd (snd (x_http x rq e))) = v e) \<and> (\<forall>d e. v (snd (snd (x_wait x d e))) = v e)"

text \<open>A step that may only talk to the gateway: the reconciler keeps its state and every silent view
  stays.\<close>

definition talks :: "'e ext \<Rightarrow> 'e world \<Rightarrow> 'e world \<Rightarrow> bool" where
  "talks x w w' \<longleftrightarrow> w_rec w' = w_rec w \<and> (\<exists>es. w_trace w' = w_trace w @ es)
     \<and> (\<forall>v. silent x v \<longrightarrow> v (w_env w') = v (w_env w))"

interpretation talks: world_rel "talks x" for x
  by unfold_locales (auto simp: talks_def)

lemma do_http_talks: "rel (talks x) (do_http x rq)"
proof -
  have "talks x w (snd (run_state (do_http x rq) w))" for w
    by (cases "x_http x rq (w_env w)") (auto simp: do_http_def talks_def silent_def dest: spec2 [of _ rq "w_env w"])
  then show ?thesis by (simp add: rel_def)
qed

lemma do_request_talks: "rel (talks x) (do_request x c m p b t)"
  unfolding do_request_def Let_def observe_leaf_def
  by (intro talks.rel_control do_http_talks) (auto simp: rel_def talks_def)

lemma do_request_answered:
  assumes "answers_in x (w_env w) (make_request c m p b t) Q"
  obtains resp w' where "run_state (do_request x c m p b t) w = (Inr resp, w')" "Q resp"
    "success (rs_status resp)" "talks x w w'"
    "w_trace w' = w_trace w @ [HttpCall (make_request c m p b t) (Inr resp)]"
    "w_env w' = sent_env x (make_request c m p b t) (w_env w)"
proof -
  let ?rq = "make_request c m p b t"
  obtain out dt e where h: "x_http x ?rq (w_env w) = (out, dt, e)" by (metis prod_cases3)
  have n: "x_new_request x ?rq = None"
    and "case fst (x_http x ?rq (w_env w)) of Inr resp \<Rightarrow> success (rs_status resp) \<and> Q resp | Inl _ \<Rightarrow> False"
    using assms by (simp_all add: answers_in_def)
  with h obtain resp where resp: "out = Inr resp" "success (rs_status resp)" "Q resp"
    by (auto split: sum.splits)
  obtain r w' where run: "run_state (do_request x c m p b t) w = (r, w')" by (metis surj_pair)
  have t: "talks x w w'"
    using relD [OF do_request_talks [of x c m p b t], of w] run by simp
  have "w_trace w' = w_trace w @ [HttpCall ?rq (Inr resp)]" "w_env w' = sent_env x ?rq (w_env w)" "r = Inr resp"
    using run n h resp
    by (auto simp: do_request_def Let_def do_http_def observe_leaf_def modify_metrics_def success_def
        split: option.splits if_splits)
  with resp run t that show ?thesis by blast
qed

text \<open>A part of a reconcile between its decisive requests: version reads and Events only, with the
  client, the gateway's configuration and every silent view kept.\<close>

definition between :: "client \<Rightarrow> effect \<Rightarrow> bool" where
  "between c e = (case e of Recorded ev \<Rightarrow> True | HttpCall rq out \<Rightarrow> rq = version_request c | _ \<Rightarrow> False)"

definition idles :: "'e ext \<Rightarrow> client \<Rightarrow> ('e \<Rightarrow> string) \<Rightarrow> 'e world \<Rightarrow> 'e world \<Rightarrow> bool" where
  "idles x c g w w' \<longleftrightarrow> hclient w' = hclient w \<and> emits (between c) w w' \<and> g (w_env w') = g (w_env w)
     \<and> (\<forall>v. silent x v \<longrightarrow> v (w_env w') = v (w_env w))"

interpretation idles: world_rel "idles x c g" for x c g
  by unfold_locales (auto simp: idles_def intro: emits_refl emits_trans)

text \<open>A view that version reads leave alone.\<close>

definition version_keeps :: "'e ext \<Rightarrow> client \<Rightarrow> ('e \<Rightarrow> string) \<Rightarrow> bool" where
  "version_keeps x c g \<longleftrightarrow> (\<forall>e. g (sent_env x (version_request c) e) = g e)"

lemma serves_quiet: "serves x c raw stored g \<Longrightarrow> version_keeps x c g"
  by (simp add: serves_def version_keeps_def)

text \<open>One accepted request.\<close>

definition posts :: "'e ext \<Rightarrow> http_request \<Rightarrow> 'e world \<Rightarrow> 'e world \<Rightarrow> bool" where
  "posts x rq w w' \<longleftrightarrow> hclient w' = hclient w \<and> w_env w' = sent_env x rq (w_env w)
     \<and> (\<exists>resp. success (rs_status resp) \<and> w_trace w' = w_trace w @ [HttpCall rq (Inr resp)])
     \<and> (\<forall>v. silent x v \<longrightarrow> v (w_env w') = v (w_env w))"

lemma version_answered:
  assumes "accepts x c raw" "version_keeps x c g"
  obtains n w' where "run_state (getConfigVersion x c) w = (Inr n, w')" "idles x c g w w'"
proof -
  from assms(1) have "answers_in x (w_env w) (make_request c ''GET'' version_path None ''application/json'')
      (\<lambda>resp. \<exists>n. version_answer x (Inr resp) = Inr n)"
    by (auto simp: accepts_def version_request_def intro: answers_in_any)
  then obtain resp w' n where r: "run_state (do_request x c ''GET'' version_path None ''application/json'') w = (Inr resp, w')"
    "version_answer x (Inr resp) = Inr n" "success (rs_status resp)" "talks x w w'"
    "w_trace w' = w_trace w @ [HttpCall (version_request c) (Inr resp)]" "w_env w' = sent_env x (version_request c) (w_env w)"
    unfolding version_request_def by (elim do_request_answered) blast
  then have "run_state (getConfigVersion x c) w = (Inr n, w')"
    by (simp add: getConfigVersion_def doRequest_def version_answer_def answer_def)
  moreover have "idles x c g w w'"
    using r(4-6) assms(2) by (simp add: idles_def talks_def emits_def between_def version_keeps_def)
  ultimately show ?thesis by (rule that)
qed

lemma ready_answered:
  assumes "accepts x c raw" "version_keeps x c g"
  obtains w' where "run_state (waitForReady x c dataplaneReadyTimeout) w = (None, w')" "idles x c g w w'"
proof -
  obtain n w' where v: "run_state (getConfigVersion x c) w = (Inr n, w')" "idles x c g w w'"
    by (rule version_answered [OF assms])
  then have "wait_loop x c (w_now w + dataplaneReadyTimeout) None w = (None, w')"
    by (subst wait_loop.simps) simp
  with v that show ?thesis by (simp add: waitForReady_def)
qed

lemma post_answered:
  assumes "accepts x c raw" "version_keeps x c g"
    "\<And>n. answers x (post_request c ep raw n) (\<lambda>_. True)"
  obtains n w1 w' where "run_state (post_raw x c ep raw) w = (None, w')" "idles x c g w w1"
    "posts x (post_request c ep raw n) w1 w'"
proof -
  obtain n w1 where v: "run_state (getConfigVersion x c) w = (Inr n, w1)" "idles x c g w w1"
    by (rule version_answered [OF assms(1,2)])
  have "answers_in x (w_env w1) (make_request c ''POST'' (ep n) (if raw \<noteq> [] then Some raw else None) ''text/plain'') (\<lambda>_. True)"
    using answers_in_any [OF assms(3) [of n]] by (simp only: post_request_def)
  then obtain resp w' where r: "run_state (do_request x c ''POST'' (ep n) (if raw \<noteq> [] then Some raw else None) ''text/plain'') w1 = (Inr resp, w')"
    "success (rs_status resp)" "talks x w1 w'" "w_trace w' = w_trace w1 @ [HttpCall (post_request c ep raw n) (Inr resp)]"
    "w_env w' = sent_env x (post_request c ep raw n) (w_env w1)"
    unfolding post_request_def by (rule do_request_answered)
  then have "run_state (post_raw x c ep raw) w = (None, w')"
    using v by (simp add: post_raw_def doRequestPlain_def no_result_def)
  moreover have "posts x (post_request c ep raw n) w1 w'"
    using r(2-5) by (auto simp: posts_def talks_def)
  ultimately show ?thesis using v(2) that by blast
qed

lemma live_answered:
  assumes "answers_in x (w_env w) (live_request c) (\<lambda>resp. string_result (Inr resp) = Inr stored)"
  obtains resp w' where "run_state (GetRawConfiguration x c) w = (Inr stored, w')" "talks x w w'"
    "w_trace w' = w_trace w @ [HttpCall (live_request c) (Inr resp)]"
    "w_env w' = sent_env x (live_request c) (w_env w)" "string_result (Inr resp) = Inr stored"
proof -
  from assms have "answers_in x (w_env w) (make_request c ''GET'' raw_path None ''text/plain'')
      (\<lambda>resp. string_result (Inr resp) = Inr stored)" by (simp add: live_request_def)
  then obtain resp w' where r: "run_state (do_request x c ''GET'' raw_path None ''text/plain'') w = (Inr resp, w')"
    "string_result (Inr resp) = Inr stored" "talks x w w'"
    "w_trace w' = w_trace w @ [HttpCall (live_request c) (Inr resp)]" "w_env w' = sent_env x (live_request c) (w_env w)"
    unfolding live_request_def by (rule do_request_answered)
  then have "run_state (GetRawConfiguration x c) w = (Inr stored, w')"
    by (simp add: GetRawConfiguration_def doRequestPlain_def)
  with r that show ?thesis by blast
qed

section \<open>Quiescence\<close>

lemma in_sync_reconcile:
  assumes "config_event x cfg req s raw w" "annotation s LastAppliedHashAnnotation = HashBytes raw"
    "annotation s LastObservedHashAnnotation = HashBytes stored"
    "\<not> has_prefix (annotation s StatusAnnotation) ''DriftCheck''" "hclient w = Some c"
    "answers_in x (snd (x_get x req (w_env w))) (live_request c) (\<lambda>resp. string_result (Inr resp) = Inr stored)"
  shows "\<exists>w' resp. run_state (Reconcile x cfg req) w = (RequeueAfter RequeueInterval, w')
    \<and> w_trace w' = w_trace w @ [KubeGet req (Inr s), HttpCall (live_request c) (Inr resp)]
    \<and> transientFailures (w_rec w') = 0 \<and> fmlookup (ConfigInSync (w_metrics w')) (s_name s) = Some 1
    \<and> hclient w' = Some c \<and> w_env w' = sent_env x (live_request c) (snd (x_get x req (w_env w)))"
proof -
  let ?w0 = "after_get x req s w"
  have c: "run_state (getOrCreateClient x cfg) ?w0 = (Inr c, ?w0)"
    using assms(5) by (simp add: getOrCreateClient_def)
  have "answers_in x (w_env ?w0) (live_request c) (\<lambda>resp. string_result (Inr resp) = Inr stored)"
    using assms(6) by (simp add: after_get_def)
  then obtain resp w1 where l: "run_state (GetRawConfiguration x c) ?w0 = (Inr stored, w1)" "talks x ?w0 w1"
    "w_trace w1 = w_trace ?w0 @ [HttpCall (live_request c) (Inr resp)]" "w_env w1 = sent_env x (live_request c) (w_env ?w0)"
    by (rule live_answered)
  have np: "HashBytes stored \<noteq> observedHashPending" "HashBytes stored \<noteq> []"
    using sha.hash_not_short [of observedHashPending] sha.hash_nonempty
    by (auto simp: observedHashPending_def)
  have "run_state (check_drift x cfg s (HashBytes raw)) ?w0 =
      (Some (RequeueAfter RequeueInterval), w1\<lparr>w_rec := (w_rec w1)\<lparr>transientFailures := 0\<rparr>,
        w_metrics := (w_metrics w1)\<lparr>ConfigInSync := fmupd (s_name s) 1 (ConfigInSync (w_metrics w1))\<rparr>\<rparr>)"
    using np assms(3,4)
    by (simp add: check_drift_def c l compare_live_def Let_def set_in_sync_def clear_stale_def)
  then show ?thesis
    using assms(2,5) l by (simp add: config_event_run [OF assms(1)] talks_def after_get_def)
qed

text \<open>A configuration that is recorded as applied and that the gateway serves as it was observed is
  left alone: one read of the Secret, one read of the live configuration, no write anywhere, and
  the regular interval.\<close>

theorem in_sync_quiescent:
  assumes "config_event x cfg req s raw w" "annotation s LastAppliedHashAnnotation = HashBytes raw"
    "annotation s LastObservedHashAnnotation = HashBytes stored"
    "\<not> has_prefix (annotation s StatusAnnotation) ''DriftCheck''" "hclient w = Some c"
    "answers x (live_request c) (\<lambda>resp. string_result (Inr resp) = Inr stored)"
  shows "\<exists>w' resp. run_state (Reconcile x cfg req) w = (RequeueAfter RequeueInterval, w')
    \<and> w_trace w' = w_trace w @ [KubeGet req (Inr s), HttpCall (live_request c) (Inr resp)]
    \<and> transientFailures (w_rec w') = 0 \<and> fmlookup (ConfigInSync (w_metrics w')) (s_name s) = Some 1"
  using in_sync_reconcile [OF assms(1-5) answers_in_any [OF assms(6)]] by blast

section \<open>Applying a new configuration\<close>

lemma validate_phase_answered:
  assumes "serves x c raw stored g" "raw \<noteq> []"
  obtains n w1 w' where "run_state (validate_phase x cfg c s h raw) w = (None, w')" "idles x c g w w1"
    "posts x (validate_request c raw n) w1 w'"
proof -
  let ?w0 = "snd (run_state (count_attempt ''validate'') w)"
  have "answers x (post_request c validate_endpoint raw n) (\<lambda>_. True)" for n
    using servesD(1) [OF assms(1)] by (simp add: accepts_def post_raw_instances(3) [symmetric])
  then obtain n w1 w' where p: "run_state (post_raw x c validate_endpoint raw) ?w0 = (None, w')" "idles x c g ?w0 w1"
    "posts x (validate_request c raw n) w1 w'"
    unfolding post_raw_instances(3) by (rule post_answered [OF servesD(1) [OF assms(1)] serves_quiet [OF assms(1)], of validate_endpoint ?w0])
  have "run_state (validate_phase x cfg c s h raw) w = (None, w')"
    using assms(2) p(1) by (simp add: validate_phase_def Validate_def post_raw_instances count_attempt_def)
  moreover have "idles x c g w ?w0" by (simp add: count_attempt_def idles_def emits_def)
  ultimately show ?thesis using p(2,3) that by (blast intro: idles.R_trans)
qed

lemma emit_idles: "rel (idles x c g) (emit rc obj reason m)"
  by (auto simp: rel_def emit_def idles_def emits_def between_def split: option.split)

lemma apply_phase_answered:
  assumes "serves x c raw stored g"
  obtains n w1 w' where "run_state (apply_phase x cfg c s h raw) w = (None, w')" "idles x c g w w1"
    "posts x (apply_request c raw n) w1 w'"
proof -
  obtain w0 where e: "run_state (emit (Recorder cfg) (key_of s) ValidationPassed []) w = ((), w0)"
    by (simp add: emit_def)
  define wa where "wa = snd (run_state (count_attempt ''apply'') w0)"
  have "idles x c g w0 wa" by (simp add: wa_def count_attempt_def idles_def emits_def)
  then have a: "idles x c g w wa"
    using relD [OF emit_idles [of x c g "Recorder cfg" "key_of s" ValidationPassed "[]"], of w] e
    by (auto intro: idles.R_trans)
  obtain wb where b: "run_state (waitForReady x c dataplaneReadyTimeout) wa = (None, wb)" "idles x c g wa wb"
    by (rule ready_answered [OF servesD(1) [OF assms] serves_quiet [OF assms]])
  have "answers x (post_request c apply_endpoint raw n) (\<lambda>_. True)" for n
    using servesD(1) [OF assms] by (simp add: accepts_def post_raw_instances(4) [symmetric])
  then obtain n w1 w' where p: "run_state (post_raw x c apply_endpoint raw) wb = (None, w')" "idles x c g wb w1"
    "posts x (apply_request c raw n) w1 w'"
    unfolding post_raw_instances(4) by (rule post_answered [OF servesD(1) [OF assms] serves_quiet [OF assms], of apply_endpoint wb])
  have "run_state (apply_phase x cfg c s h raw) w = (None, w')"
    using b(1) p(1)
    by (simp add: e apply_phase_def ApplyRawConfigurationValidated_def post_raw_instances wa_def count_attempt_def)
  moreover have "idles x c g w w1" using a b(2) p(2) by (blast intro: idles.R_trans)
  ultimately show ?thesis using p(3) by (rule that)
qed

lemma patch_succeeds:
  assumes "patches_succeed x"
  obtains s' w' where "run_state (patchAnnotations x s f) w = ((None, s'), w')" "w_rec w' = w_rec w"
    "w_metrics w' = w_metrics w" "w_trace w' = w_trace w @ [KubePatch s (mutated f s) (Inr s')]"
    "x_patch x s (mutated f s) (w_env w) = (Inr s', w_env w')"
proof -
  have "case fst (x_patch x s (mutated f s) (w_env w)) of Inr _ \<Rightarrow> True | Inl _ \<Rightarrow> False"
    using assms unfolding patches_succeed_def by blast
  then obtain s' e where p: "x_patch x s (mutated f s) (w_env w) = (Inr s', e)"
    by (cases "x_patch x s (mutated f s) (w_env w)") (auto split: sum.splits)
  then have "run_state (patchAnnotations x s f) w =
      ((None, s'), w\<lparr>w_env := e, w_trace := w_trace w @ [KubePatch s (mutated f s) (Inr s')]\<rparr>)"
    by (simp add: patchAnnotations_def kube_patch_def)
  then show ?thesis by (rule that) (simp_all add: p)
qed

text \<open>What is recorded after a successful apply.\<close>

definition recorded_applied :: "secret \<Rightarrow> string \<Rightarrow> string \<Rightarrow> bool" where
  "recorded_applied s h observed \<longleftrightarrow>
     annotation s LastAppliedHashAnnotation = h \<and> annotation s LastObservedHashAnnotation = observed
   \<and> annotation s StatusAnnotation = ''Applied'' \<and> annotation s LastFailedHashAnnotation = []
   \<and> annotation s StatusMessageAnnotation = []"

lemma record_applied_annotations: "recorded_applied (mutated (record_applied h ob t) s) h ob"
  by (simp add: recorded_applied_def annotation_map record_applied_def annotation_defs)

text \<open>What recording does with a gateway that runs \<open>g\<close>: it reads the live configuration, and the write is
  the last thing that happens.\<close>

lemma record_phase_answered:
  fixes w :: "'e world"
  assumes "serves x c raw stored g" "patches_succeed x"
  obtains wa wb :: "'e world" and w' live new s' where "run_state (record_phase x cfg c s h) w = (RequeueAfter RequeueInterval, w')"
    "idles x c g w wa" "w_trace wb = w_trace wa @ [HttpCall (live_request c) (Inr live)]"
    "string_result (Inr live) = Inr (g (w_env w))" "g (w_env wb) = g (w_env w)"
    "\<forall>v. silent x v \<longrightarrow> v (w_env wb) = v (w_env w)"
    "w_trace w' = w_trace wb @ [KubePatch s new (Inr s')]" "x_patch x s new (w_env wb) = (Inr s', w_env w')"
    "\<exists>t. new = mutated (record_applied h (HashBytes (g (w_env w))) t) s"
    "hclient w' = hclient w" "transientFailures (w_rec w') = 0"
proof -
  define wa where "wa = (let
      w1 = snd (run_state (emit (Recorder cfg) (key_of s) ApplySucceeded []) w);
      w2 = snd (run_state (count_result ''applied'') w1);
      w3 = snd (run_state (exportConfigHash h ''applied'') w2);
      w4 = w3\<lparr>w_metrics := (w_metrics w3)\<lparr>LastSuccessfulApply := w_now w3\<rparr>\<rparr>;
      w5 = snd (run_state (set_in_sync (s_name s) 1) w4)
    in w5\<lparr>w_rec := (w_rec w5)\<lparr>transientFailures := 0\<rparr>\<rparr>)"
  have a: "transientFailures (w_rec wa) = 0" "idles x c g w wa"
    by (auto simp: wa_def Let_def emit_def count_result_def exportConfigHash_run set_in_sync_def idles_def
        emits_def between_def split: option.split)
  then have ga: "g (w_env wa) = g (w_env w)" by (simp add: idles_def)
  then obtain resp wb where b: "run_state (GetRawConfiguration x c) wa = (Inr (g (w_env w)), wb)" "talks x wa wb"
    "w_trace wb = w_trace wa @ [HttpCall (live_request c) (Inr resp)]" "w_env wb = sent_env x (live_request c) (w_env wa)"
    "string_result (Inr resp) = Inr (g (w_env w))"
    using live_answered [OF servesD(2) [OF assms(1)], of wa] by metis
  let ?f = "record_applied h (HashBytes (g (w_env w))) (x_format_time x (w_now wb))"
  obtain s' w' where p: "run_state (patchAnnotations x s ?f) wb = ((None, s'), w')" "w_rec w' = w_rec wb"
    "w_trace w' = w_trace wb @ [KubePatch s (mutated ?f s) (Inr s')]"
    "x_patch x s (mutated ?f s) (w_env wb) = (Inr s', w_env w')"
    by (rule patch_succeeds [OF assms(2), of s ?f wb])
  have run: "run_state (record_phase x cfg c s h) w = (RequeueAfter RequeueInterval, w')"
    using b(1) p(1)
    by (simp add: record_phase_def observe_applied_def wa_def Let_def emit_def count_result_def
        exportConfigHash_run set_in_sync_def)
  have "g (w_env wb) = g (w_env w)" using ga b(4) servesD(6) [OF assms(1)] by simp
  moreover from a b(2) p(2) have "\<forall>v. silent x v \<longrightarrow> v (w_env wb) = v (w_env w)"
    "hclient w' = hclient w" "transientFailures (w_rec w') = 0"
    by (auto simp: talks_def idles_def)
  ultimately show ?thesis using that [OF run a(2) b(3,5)] p(3,4) by blast
qed

text \<open>The requests of a successful push: an accepted validation of the bytes, then an accepted apply of
  the same bytes, then a live read that shows what the gateway made of them; between them only
  version reads and Events.\<close>

definition pushes :: "client \<Rightarrow> string \<Rightarrow> string \<Rightarrow> effect list \<Rightarrow> bool" where
  "pushes c raw stored es \<longleftrightarrow> (\<exists>as n validated bs m applied cs live.
     es = as @ HttpCall (validate_request c raw n) (Inr validated) # bs
        @ HttpCall (apply_request c raw m) (Inr applied) # cs @ [HttpCall (live_request c) (Inr live)]
   \<and> success (rs_status validated) \<and> success (rs_status applied) \<and> string_result (Inr live) = Inr stored
   \<and> list_all (between c) (as @ bs @ cs))"

lemma pushes_chain:
  assumes "idles x c g w0 w1" "posts x (validate_request c raw n) w1 w2" "idles x c g w2 w3"
    "posts x (apply_request c raw m) w3 w4" "idles x c g w4 w5"
    "w_trace w6 = w_trace w5 @ [HttpCall (live_request c) (Inr live)]" "string_result (Inr live) = Inr stored"
  shows "\<exists>es. w_trace w6 = w_trace w0 @ es \<and> pushes c raw stored es"
proof -
  obtain as bs cs where e: "w_trace w1 = w_trace w0 @ as" "w_trace w3 = w_trace w2 @ bs" "w_trace w5 = w_trace w4 @ cs"
    "list_all (between c) (as @ bs @ cs)"
    using assms(1,3,5) by (auto simp: idles_def emits_def)
  obtain validated applied where p: "success (rs_status validated)" "success (rs_status applied)"
    "w_trace w2 = w_trace w1 @ [HttpCall (validate_request c raw n) (Inr validated)]"
    "w_trace w4 = w_trace w3 @ [HttpCall (apply_request c raw m) (Inr applied)]"
    using assms(2,4) unfolding posts_def by blast
  have "w_trace w6 = w_trace w0 @ (as @ HttpCall (validate_request c raw n) (Inr validated) # bs
        @ HttpCall (apply_request c raw m) (Inr applied) # cs @ [HttpCall (live_request c) (Inr live)])"
    by (simp add: assms(6) e(1-3) p(3,4))
  then show ?thesis using e(4) p(1,2) assms(7) unfolding pushes_def by blast
qed

lemma push_config_applied:
  fixes w :: "'e world"
  assumes "hclient w = Some c" "h \<noteq> annotation s LastFailedHashAnnotation" "raw \<noteq> []"
    "CertsSecretNames cfg = []" "serves x c raw stored g" "patches_succeed x"
  obtains w' es s' new e where "run_state (push_config x cfg s h raw) w = (RequeueAfter RequeueInterval, w')"
    "transientFailures (w_rec w') = 0" "w_trace w' = w_trace w @ es @ [KubePatch s new (Inr s')]"
    "pushes c raw stored es" "\<exists>t. new = mutated (record_applied h (HashBytes stored) t) s"
    "hclient w' = Some c" "g (w_env w') = stored"
    "x_patch x s new e = (Inr s', w_env w')" "\<forall>v. silent x v \<longrightarrow> v e = v (w_env w)"
proof -
  let ?w1 = "snd (run_state (note_desired h) w)"
  have "hclient ?w1 = Some c" using assms(1) by (simp add: note_desired_def)
  then have p: "run_state (prepare x cfg s h) w = (Inr (c, s), ?w1)"
    using assms(2,4) by (simp add: prepare_def getOrCreateClient_def note_desired_def)
  obtain n u1 w2 where v: "run_state (validate_phase x cfg c s h raw) ?w1 = (None, w2)" "idles x c g ?w1 u1"
    "posts x (validate_request c raw n) u1 w2"
    by (rule validate_phase_answered [OF assms(5,3), of cfg s h ?w1])
  obtain m u3 w4 where a: "run_state (apply_phase x cfg c s h raw) w2 = (None, w4)" "idles x c g w2 u3"
    "posts x (apply_request c raw m) u3 w4"
    by (rule apply_phase_answered [OF assms(5), of cfg s h w2])
  have st: "g (w_env w4) = stored" using a(3) servesD(3) [OF assms(5)] by (simp add: posts_def)
  obtain wa wb :: "'e world" and w' live new s' where r: "run_state (record_phase x cfg c s h) w4 = (RequeueAfter RequeueInterval, w')"
    "idles x c g w4 wa" "w_trace wb = w_trace wa @ [HttpCall (live_request c) (Inr live)]"
    "string_result (Inr live) = Inr stored" "g (w_env wb) = stored" "\<forall>v. silent x v \<longrightarrow> v (w_env wb) = v (w_env w4)"
    "w_trace w' = w_trace wb @ [KubePatch s new (Inr s')]" "x_patch x s new (w_env wb) = (Inr s', w_env w')"
    "\<exists>t. new = mutated (record_applied h (HashBytes stored) t) s" "hclient w' = hclient w4" "transientFailures (w_rec w') = 0"
    by (rule record_phase_answered [OF assms(5,6), of cfg s h w4, unfolded st])
  have run: "run_state (push_config x cfg s h raw) w = (RequeueAfter RequeueInterval, w')"
    using p v(1) a(1) r(1) by (simp add: push_config_def)
  have w1: "idles x c g w ?w1" by (simp add: note_desired_def idles_def emits_def)
  obtain es where es: "w_trace wb = w_trace w @ es" "pushes c raw stored es"
    using pushes_chain [OF idles.R_trans [OF w1 v(2)] v(3) a(2,3) r(2-4)] by blast
  have "\<forall>v. silent x v \<longrightarrow> v (w_env wb) = v (w_env w)"
    using w1 v(2,3) a(2,3) r(6) unfolding idles_def posts_def by metis
  moreover have "hclient w' = Some c"
    using w1 v(2,3) a(2,3) r(10) assms(1) by (simp add: idles_def posts_def)
  moreover have "g (w_env w') = stored"
    using servesD(8) [OF assms(5), of s new "w_env wb"] r(5,8) by simp
  moreover have "w_trace w' = w_trace w @ es @ [KubePatch s new (Inr s')]" using r(7) es(1) by simp
  ultimately show ?thesis using that [OF run r(11) _ es(2) r(9)] r(8) by blast
qed

text \<open>C5: new bytes on a Secret without managed certificates, with the client built. A gateway that accepts
  the bytes and makes \<open>stored\<close> of them, and an API server that accepts the write: one reconcile reads the
  Secret, has the bytes validated, has them applied, reads back what runs, and records it as its
  last effect; the record has the applied hash, the observed hash and the status, with every trace
  of an earlier failure cleared, and the gateway runs the new configuration.\<close>

theorem new_config_applied:
  assumes "config_event x cfg req s raw w" "HashBytes raw \<noteq> annotation s LastAppliedHashAnnotation"
    "HashBytes raw \<noteq> annotation s LastFailedHashAnnotation" "raw \<noteq> []" "CertsSecretNames cfg = []"
    "hclient w = Some c" "serves x c raw stored g" "patches_succeed x"
  shows "\<exists>w' es new s'. run_state (Reconcile x cfg req) w = (RequeueAfter RequeueInterval, w')
    \<and> w_trace w' = w_trace w @ KubeGet req (Inr s) # es @ [KubePatch s new (Inr s')]
    \<and> pushes c raw stored es \<and> recorded_applied new (HashBytes raw) (HashBytes stored)
    \<and> g (w_env w') = stored \<and> transientFailures (w_rec w') = 0"
proof -
  have "hclient (after_get x req s w) = Some c" using assms(6) by simp
  from push_config_applied [OF this assms(3,4,5,7,8)]
  obtain w' es s' new where "run_state (push_config x cfg s (HashBytes raw) raw) (after_get x req s w) = (RequeueAfter RequeueInterval, w')"
    "transientFailures (w_rec w') = 0" "w_trace w' = w_trace (after_get x req s w) @ es @ [KubePatch s new (Inr s')]"
    "pushes c raw stored es" "\<exists>t. new = mutated (record_applied (HashBytes raw) (HashBytes stored) t) s"
    "g (w_env w') = stored"
    by metis
  with assms(2) show ?thesis
    using record_applied_annotations by (fastforce simp: config_event_run [OF assms(1)])
qed

end
