(* ===== verification/Json_Roundtrip.thy ===== *)
theory Json_Roundtrip
  imports Effects
begin

text \<open>
  The sync record survives being written and read: decoding the annotation the operator wrote gives
  the record back, for names, hashes and times that are well-formed UTF-8, with every escape the
  encoder writes (quotes and backslashes, control characters, the characters that matter to HTML, the
  two line separators). A malformed byte would come back as U+FFFD.
\<close>

section \<open>Plain strings\<close>

definition plain_char :: "char \<Rightarrow> bool" where
  "plain_char c \<longleftrightarrow> 0x20 \<le> byte c \<and> byte c < 0x7F \<and> byte c \<notin> {0x22, 0x5C, 0x3C, 0x3E, 0x26}"

abbreviation plain :: "string \<Rightarrow> bool" where
  "plain \<equiv> list_all plain_char"

lemma plain_ascii: "plain_char c \<Longrightarrow> byte c < 0x80"
  by (simp add: plain_char_def)

lemma plain_marks: "plain_char c \<Longrightarrow> c \<noteq> CHR 0x22 \<and> c \<noteq> CHR 0x5C"
  by (auto simp: plain_char_def)

lemma decode_plain: "plain_char c \<Longrightarrow> decode_seq (c # s) = Some (byte c, 1)"
  by (rule decode_seq_one) (rule plain_ascii)

lemma json_rune_plain: "plain_char c \<Longrightarrow> json_rune (byte c) = [c]"
  by (auto simp: json_rune_def plain_char_def encode_ascii)

lemma json_body_plain: "plain s \<Longrightarrow> json_body s = s"
proof (induction s)
  case Nil
  show ?case by (subst json_body.simps) simp
next
  case (Cons c s)
  then have "json_body (c # s) = json_rune (byte c) @ json_body s"
    by (subst json_body.simps) (simp add: decode_plain)
  with Cons show ?case by (simp add: json_rune_plain)
qed

section \<open>Escapes\<close>

text \<open>The hexadecimal digits of an escape, read back.\<close>

lemma lower_hex_val: "n < 16 \<Longrightarrow> hex_val (lower_hex n) = n \<and> is_hex_char (lower_hex n)"
proof -
  have "\<forall>n \<in> set [0..<16]. hex_val (lower_hex n) = n \<and> is_hex_char (lower_hex n)" by code_simp
  then show "n < 16 \<Longrightarrow> hex_val (lower_hex n) = n \<and> is_hex_char (lower_hex n)" by simp
qed

lemma four_digits: "r < 0x10000 \<Longrightarrow> ((r div 4096 mod 16 * 16 + r div 256 mod 16) * 16 + r div 16 mod 16) * 16 + r mod 16 = (r :: nat)"
proof -
  assume "r < 0x10000"
  define a b where "a = r div 16" and "b = r div 256"
  have "b < 256" using \<open>r < 0x10000\<close> by (simp add: b_def)
  have "r div 256 = a div 16" "r div 4096 = b div 16"
    by (simp_all add: a_def b_def div_mult2_eq [symmetric])
  moreover have "b div 16 mod 16 = b div 16" using \<open>b < 256\<close> by simp
  moreover have "b div 16 * 16 + b mod 16 = b" "a div 16 * 16 + a mod 16 = a" "a * 16 + r mod 16 = r"
    by (simp_all add: a_def)
  moreover have "a div 16 = b" by (simp add: a_def b_def div_mult2_eq [symmetric])
  ultimately show ?thesis by (simp add: b_def [symmetric] a_def [symmetric])
qed

lemma hex4_escape:
  "r < 0x10000 \<Longrightarrow> hex4 [lower_hex (r div 4096 mod 16), lower_hex (r div 256 mod 16), lower_hex (r div 16 mod 16), lower_hex (r mod 16)] = r"
  unfolding hex4_def foldl.simps
  by (simp only: lower_hex_val [THEN conjunct1] mod_less_divisor zero_less_numeral mult_zero_left add_0 four_digits)

text \<open>The runes that are written as an escape of six characters, and those with one of two.\<close>

definition u_escaped :: "nat \<Rightarrow> bool" where
  "u_escaped r \<longleftrightarrow> r \<notin> {8, 9, 10, 12, 13} \<and> (r < 0x20 \<or> r \<in> {0x3C, 0x3E, 0x26, 0x2028, 0x2029})"

definition short_escapes :: "(nat \<times> char) list" where
  "short_escapes = [(0x22, CHR 0x22), (0x5C, CHR 0x5C), (8, CHR ''b''), (12, CHR ''f''), (10, CHR ''n''), (13, CHR ''r''), (9, CHR ''t'')]"

lemma json_rune_cases:
  obtains (short) e where "(r, e) \<in> set short_escapes" "json_rune r = [CHR 0x5C, e]"
  | (long) "u_escaped r" "json_rune r = u_escape r"
  | (copied) "json_rune r = encode_rune r" "0x20 \<le> r" "r \<noteq> 0x22" "r \<noteq> 0x5C"
proof -
  consider "r \<in> set (map fst short_escapes)" | "u_escaped r" | "0x20 \<le> r" "r \<noteq> 0x22" "r \<noteq> 0x5C" "\<not> u_escaped r"
    by (fastforce simp: u_escaped_def short_escapes_def)
  then show thesis
  proof cases
    case 1
    then obtain e where e: "(r, e) \<in> set short_escapes" by auto
    moreover have "char_of (34 :: nat) = CHR 0x22" "char_of (92 :: nat) = CHR 0x5C" by code_simp+
    ultimately have "json_rune r = [CHR 0x5C, e]" by (auto simp: short_escapes_def json_rune_def)
    with e show thesis by (rule short)
  next
    case 2
    then show thesis by (intro long) (auto simp: u_escaped_def json_rune_def)
  next
    case 3
    then show thesis by (intro copied) (auto simp: u_escaped_def json_rune_def)
  qed
qed

lemma short_escape_read:
  assumes "(r, e) \<in> set short_escapes"
  shows "escape_rune e = r" "e \<in> set ''bfnrt/'' \<or> e = CHR 0x5C \<or> e = CHR 0x22" "e \<noteq> CHR ''u''"
  using assms by (auto simp: short_escapes_def escape_rune_def)

lemma u_escaped_range: "u_escaped r \<Longrightarrow> r < 0x10000 \<and> \<not> is_high r \<and> \<not> is_low r"
  by (auto simp: u_escaped_def is_high_def is_low_def)

text \<open>The bytes of a rune that is copied are no mark of the lexer.\<close>

lemma scan_copied: "list_all (\<lambda>b. b \<noteq> CHR 0x22 \<and> b \<noteq> CHR 0x5C \<and> 0x20 \<le> byte b) bs \<Longrightarrow>
  scan_string (bs @ t) = map_option (map_prod ((@) bs) id) (scan_string t)"
proof (induction bs)
  case Nil
  show ?case by (cases "scan_string t") auto
next
  case (Cons b bs)
  then show ?case by (cases "scan_string t") auto
qed

lemma copied_bytes:
  assumes "0x20 \<le> r" "r \<noteq> 0x22" "r \<noteq> 0x5C"
  shows "list_all (\<lambda>b. b \<noteq> CHR 0x22 \<and> b \<noteq> CHR 0x5C \<and> 0x20 \<le> byte b) (encode_rune r)"
  unfolding list_all_iff
proof
  fix b assume "b \<in> set (encode_rune r)"
  from encode_rune_bytes [OF this] assms show "b \<noteq> CHR 0x22 \<and> b \<noteq> CHR 0x5C \<and> 0x20 \<le> byte b" by auto
qed

text \<open>What was written for a rune is scanned whole and read back as the rune.\<close>

lemma scan_rune: "scan_string (json_rune r @ t) = map_option (map_prod ((@) (json_rune r)) id) (scan_string t)"
proof (cases r rule: json_rune_cases)
  case (short e)
  with short_escape_read [OF short(1)] show ?thesis by (cases "scan_string t") auto
next
  case long
  have "list_all is_hex_char [lower_hex (r div 4096 mod 16), lower_hex (r div 256 mod 16), lower_hex (r div 16 mod 16), lower_hex (r mod 16)]"
    by (simp add: lower_hex_val)
  then show ?thesis unfolding long(2) by (cases "scan_string t") (auto simp: u_escape_def)
next
  case copied
  then show ?thesis by (simp add: scan_copied copied_bytes)
qed

lemma next_json_rune:
  assumes "is_scalar r"
  shows "next_rune (json_rune r @ t) = (r, length (json_rune r))"
proof (cases r rule: json_rune_cases)
  case (short e)
  with short_escape_read [OF short(1)] show ?thesis by (simp add: next_rune_def)
next
  case long
  with u_escaped_range [OF long(1)] hex4_escape [of r] show ?thesis
    by (simp add: next_rune_def u_escape_def Let_def)
next
  case copied
  have "hd (encode_rune r @ t) = hd (encode_rune r)" "hd (encode_rune r) \<in> set (encode_rune r)" by simp_all
  with copied_bytes [OF copied(2-4)] have "hd (encode_rune r @ t) \<noteq> CHR 0x5C" by (auto simp: list_all_iff)
  with copied(1) decode_encode [OF assms, of t] show ?thesis
    by (simp add: next_rune_def decode_rune_def)
qed

lemma json_rune_nonempty [simp]: "json_rune r \<noteq> []"
  by (cases r rule: json_rune_cases) (auto simp: u_escape_def)

lemma unquote_rune:
  assumes "is_scalar r"
  shows "unquote (json_rune r @ t) = encode_rune r @ unquote t"
proof -
  have "0 < length (json_rune r)" by simp
  then have "unquote_runes (json_rune r @ t) = r # unquote_runes t"
    by (subst unquote_runes.simps) (simp add: next_json_rune [OF assms] max_def Suc_le_eq)
  then show ?thesis by (simp add: unquote_def)
qed

text \<open>A well-formed string is a sequence of encoded runes.\<close>

lemma decoded_scalar:
  assumes "decode_seq s = Some (r, w)"
  shows "is_scalar r \<and> s = encode_rune r @ drop w s"
  using decode_seq_scalar [OF assms] encode_decode_seq [OF assms] by simp

lemma valid_induct [consumes 1, case_names Nil rune]:
  assumes "valid_utf8 s" "P []" "\<And>r t. is_scalar r \<Longrightarrow> valid_utf8 t \<Longrightarrow> P t \<Longrightarrow> P (encode_rune r @ t)"
  shows "P s"
  using assms(1)
proof (induction s rule: valid_utf8.induct)
  case (1 s)
  show ?case
  proof (cases "s = []")
    case False
    with "1.prems" obtain r w where d: "decode_seq s = Some (r, w)" "valid_utf8 (drop w s)"
      by (subst (asm) valid_utf8.simps) (auto split: option.splits)
    with decoded_scalar [OF d(1)] "1.IH" [OF d(1) refl d(2)] d(2) assms(3) show ?thesis by metis
  qed (simp add: assms(2))
qed

lemma json_body_rune: "is_scalar r \<Longrightarrow> json_body (encode_rune r @ t) = json_rune r @ json_body t"
  using decode_encode [of r t]
  by (subst json_body.simps) (auto simp: max_def Suc_le_eq split: option.split)

lemma scan_body: "valid_utf8 s \<Longrightarrow> scan_string (json_body s @ CHR 0x22 # r) = Some (json_body s, r)"
proof (induction s rule: valid_induct)
  case Nil
  show ?case by (subst (1 2) json_body.simps) simp
next
  case (rune r' t)
  then show ?case by (simp add: json_body_rune scan_rune)
qed

lemma unquote_body: "valid_utf8 s \<Longrightarrow> unquote (json_body s) = s"
proof (induction s rule: valid_induct)
  case Nil
  show ?case by (simp add: unquote_def json_body.simps unquote_runes.simps)
next
  case (rune r t)
  then show ?case by (simp add: json_body_rune unquote_rune)
qed

lemma plain_valid: "plain s \<Longrightarrow> valid_utf8 s"
proof (induction s)
  case (Cons c s)
  then show ?case by (subst valid_utf8.simps) (simp add: decode_plain)
qed simp

section \<open>Parsing what was encoded\<close>

lemma quote_not_ws: "\<not> is_ws (CHR 0x22)" "\<not> is_ws (CHR 0x3A)" "\<not> is_ws (CHR 0x2C)" "\<not> is_ws (CHR 0x7D)" "\<not> is_ws (CHR 0x7B)"
  by (simp_all add: is_ws_def)

lemma skip_simps [simp]:
  "skip_ws (CHR 0x22 # r) = CHR 0x22 # r" "skip_ws (CHR 0x3A # r) = CHR 0x3A # r"
  "skip_ws (CHR 0x2C # r) = CHR 0x2C # r" "skip_ws (CHR 0x7D # r) = CHR 0x7D # r"
  "skip_ws (CHR 0x7B # r) = CHR 0x7B # r" "skip_ws [] = []"
  by (simp_all add: skip_ws_def quote_not_ws)

lemma member_valid: "valid_utf8 k \<Longrightarrow> member_name (json_string k @ CHR 0x3A # r) = Some (k, r)"
  by (simp add: member_name_def json_string_def scan_body unquote_body)

lemma value_valid: "valid_utf8 v \<Longrightarrow> parse_value (Suc n) d (json_string v @ r) = Some (JStr v, r)"
  by (simp add: value_body_def scalar_value_def has_prefix_def json_string_def scan_body unquote_body keep_def)

definition entry_json :: "cert_entry \<Rightarrow> json" where
  "entry_json e = JObj [(''hash'', JStr (ce_hash e)), (''time'', JStr (ce_time e))]"

definition valid_entry :: "cert_entry \<Rightarrow> bool" where
  "valid_entry e \<longleftrightarrow> valid_utf8 (ce_hash e) \<and> valid_utf8 (ce_time e)"

definition entry_text :: "cert_entry \<Rightarrow> string" where
  "entry_text e = ''{'' @ json_string ''hash'' @ '':'' @ json_string (ce_hash e) @ '','' @
    json_string ''time'' @ '':'' @ json_string (ce_time e) @ ''}''"

lemma encode_entry_text: "encode_entry k e = json_string k @ '':'' @ entry_text e"
  by (simp add: encode_entry_def entry_text_def)

lemma json_string_front: "json_string k @ r = CHR 0x22 # json_body k @ CHR 0x22 # r"
  by (simp add: json_string_def)

lemma names_valid: "valid_utf8 ''hash''" "valid_utf8 ''time''"
  by (rule plain_valid; simp add: plain_char_def)+

lemma members_step:
  assumes "valid_utf8 k" "parse_value n d s = Some (v, s2)"
  shows "parse_members (Suc n) d (json_string k @ CHR 0x3A # s) = after_item (CHR 0x7D) (k, v) (parse_members n d) s2"
  using assms by (simp add: member_valid)

lemma entry_parse:
  assumes "valid_entry e" "0 < d"
  shows "parse_value (Suc (Suc (Suc (Suc n)))) d (entry_text e @ r) = Some (entry_json e, r)"
proof -
  let ?n = "Suc (Suc (Suc n))"
  obtain d' where d: "d = Suc d'" using assms(2) by (cases d) auto
  have h: "valid_utf8 (ce_hash e)" "valid_utf8 (ce_time e)" using assms(1) by (simp_all add: valid_entry_def)
  have t: "parse_members (Suc (Suc n)) d' (json_string ''time'' @ CHR 0x3A # json_string (ce_time e) @ CHR 0x7D # r)
      = Some ([(''time'', JStr (ce_time e))], r)"
    by (subst members_step [OF names_valid(2) value_valid [OF h(2)]]) (simp add: after_item_def)
  have "parse_members ?n d'  (json_string ''hash'' @ CHR 0x3A # json_string (ce_hash e) @ CHR 0x2C #
      json_string ''time'' @ CHR 0x3A # json_string (ce_time e) @ CHR 0x7D # r)
      = Some ([(''hash'', JStr (ce_hash e)), (''time'', JStr (ce_time e))], r)"
    by (subst members_step [OF names_valid(1) value_valid [OF h(1)]]) (simp add: after_item_def t keep_def del: parse_members.simps)
  moreover have "skip_ws (json_string ''hash'' @ s) = json_string ''hash'' @ s" for s
    by (simp only: json_string_front skip_simps)
  ultimately show ?thesis
    unfolding d
    by (simp add: entry_text_def value_body_def bracketed_def keep_def entry_json_def json_string_front
        del: parse_members.simps)
qed

lemma entries_parse:
  assumes "kes \<noteq> []" "list_all (\<lambda>(k, e). valid_utf8 k \<and> valid_entry e) kes" "0 < d" "length kes + 4 \<le> n"
  shows "parse_members n d (join_with (CHR 0x2C) (map (\<lambda>(k, e). encode_entry k e) kes) @ CHR 0x7D # r)
    = Some (map (\<lambda>(k, e). (k, entry_json e)) kes, r)"
  using assms
proof (induction kes arbitrary: n)
  case (Cons p kes)
  obtain k e where p: "p = (k, e)" by (metis surj_pair)
  obtain m where n: "n = Suc (Suc (Suc (Suc (Suc m))))"
    using Cons.prems(4) by (auto simp: le_iff_add)
  have pl: "valid_utf8 k" "valid_entry e" using Cons.prems(2) p by simp_all
  let ?n = "Suc (Suc (Suc (Suc m)))"
  have step: "parse_members n d (encode_entry k e @ s) = after_item (CHR 0x7D) (k, entry_json e) (parse_members ?n d) s" for s
    using members_step [OF pl(1) entry_parse [OF pl(2) Cons.prems(3), of m s]]
    by (simp add: encode_entry_text n del: parse_members.simps parse_value.simps)
  show ?case
  proof (cases kes)
    case Nil
    then show ?thesis by (simp add: p join_with_def step after_item_def del: parse_members.simps)
  next
    case (Cons q kes')
    have "parse_members ?n d (join_with (CHR 0x2C) (map (\<lambda>(k, e). encode_entry k e) kes) @ CHR 0x7D # r)
        = Some (map (\<lambda>(k, e). (k, entry_json e)) kes, r)"
      by (rule Cons.IH) (use Cons.prems n local.Cons in auto)
    then show ?thesis
      using local.Cons by (simp add: p join_with_def step after_item_def keep_def del: parse_members.simps)
  qed
qed simp

section \<open>The whole record\<close>

definition state_entries :: "(string, cert_entry) fmap \<Rightarrow> (string \<times> cert_entry) list" where
  "state_entries m = map (\<lambda>k. (k, the (fmlookup m k))) (sorted_list_of_fset (fmdom m))"

definition valid_state :: "(string, cert_entry) fmap \<Rightarrow> bool" where
  "valid_state m \<longleftrightarrow> list_all (\<lambda>(k, e). valid_utf8 k \<and> valid_entry e) (state_entries m)"

lemma encode_state_entries:
  "encode_state m = CHR 0x7B # join_with (CHR 0x2C) (map (\<lambda>(k, e). encode_entry k e) (state_entries m)) @ [CHR 0x7D]"
  by (simp add: encode_state_def state_entries_def comp_def)

lemma join_length: "length ws \<le> length (join_with c ws) + 1"
proof -
  have "length xs \<le> length (concat (map ((#) c) xs))" for xs by (induction xs) simp_all
  then show ?thesis by (cases ws) (auto simp: join_with_def intro: le_trans trans_le_add2)
qed

lemma join_front: "kes \<noteq> [] \<Longrightarrow> \<exists>t. join_with c (map (\<lambda>(k, e). encode_entry k e) kes) = CHR 0x22 # t"
  by (cases kes) (auto simp: join_with_def encode_entry_def json_string_def)

lemma state_parse:
  assumes "valid_state m" "length (state_entries m) + 5 \<le> n" "1 < d"
  shows "parse_value n d (encode_state m) = Some (JObj (map (\<lambda>(k, e). (k, entry_json e)) (state_entries m)), [])"
proof -
  obtain n' where n: "n = Suc n'" using assms(2) by (cases n) auto
  obtain d' where d: "d = Suc d'" using assms(3) by (cases d) auto
  show ?thesis
  proof (cases "state_entries m = []")
    case True
    then show ?thesis by (simp add: n d encode_state_entries value_body_def bracketed_def join_with_def)
  next
    case False
    have e: "parse_members n' d' (join_with (CHR 0x2C) (map (\<lambda>(k, e). encode_entry k e) (state_entries m)) @ [CHR 0x7D])
          = Some (map (\<lambda>(k, e). (k, entry_json e)) (state_entries m), [])"
        by (rule entries_parse) (use False d assms n in \<open>auto simp: valid_state_def\<close>)
      from join_front [OF False] obtain t where
        "join_with (CHR 0x2C) (map (\<lambda>(k, e). encode_entry k e) (state_entries m)) = CHR 0x22 # t" by blast
      with e show ?thesis
        by (simp add: n d encode_state_entries value_body_def bracketed_def keep_def)
  qed
qed

lemma entry_json_back: "entry_of_json (entry_json e) = e"
  by (cases e) (simp add: entry_of_json_def entry_json_def entry_field_def entry_zero_def field_of_def)

lemma foldl_entries:
  "distinct (map fst kes) \<Longrightarrow>
   fmlookup (foldl (\<lambda>m kv. fmupd (fst kv) (entry_of_json (snd kv)) m) f (map (\<lambda>(k, e). (k, entry_json e)) kes)) k
     = (case map_of kes k of Some e \<Rightarrow> Some e | None \<Rightarrow> fmlookup f k)"
proof (induction kes arbitrary: f)
  case (Cons p kes)
  obtain k' e where p: "p = (k', e)" by (metis surj_pair)
  have "map_of kes k' = None" using Cons.prems p by (auto simp: map_of_eq_None_iff)
  with Cons p show ?case by (auto simp: entry_json_back split: option.split)
qed simp

lemma state_entries_map: "map_of (state_entries m) k = fmlookup m k" "distinct (map fst (state_entries m))"
proof -
  have "distinct (sorted_list_of_fset (fmdom m))" by (simp add: sorted_list_of_fset.rep_eq)
  then show "distinct (map fst (state_entries m))" by (simp add: state_entries_def comp_def)
  then show "map_of (state_entries m) k = fmlookup m k"
    by (cases "fmlookup m k")
      (force simp: state_entries_def map_of_eq_None_iff fmlookup_dom_iff intro: fmdomI)+
qed

lemma decode_encode_state:
  assumes "valid_state m"
  shows "certSyncState (Some (mutated (record_cert_sync (encode_state m)) s)) = Some m"
proof -
  have "annotation (mutated (record_cert_sync (encode_state m)) s) CertSyncAnnotation = encode_state m"
    by (simp add: annotation_map record_cert_sync_def)
  moreover have "length (state_entries m) + 5 \<le> 2 * length (encode_state m) + 2"
    using join_length [of "map (\<lambda>(k, e). encode_entry k e) (state_entries m)" "CHR 0x2C"]
    by (simp add: encode_state_entries)
  then have "decode_all (encode_state m) = Some (JObj (map (\<lambda>(k, e). (k, entry_json e)) (state_entries m)))"
    using state_parse [OF assms, of "2 * length (encode_state m) + 2" maxNestingDepth]
    by (simp add: decode_all_def maxNestingDepth_def del: parse_value.simps add_2_eq_Suc' add_2_eq_Suc)
  moreover have "foldl (\<lambda>m kv. fmupd (fst kv) (entry_of_json (snd kv)) m) fmempty
      (map (\<lambda>(k, e). (k, entry_json e)) (state_entries m)) = m"
    by (rule fmap_ext) (simp add: foldl_entries state_entries_map split: option.split)
  ultimately show ?thesis by (simp add: certSyncState_def)
qed

text \<open>C36: the sync record is read back exactly as it was written, for all names, hashes and times that are
  well-formed UTF-8, whatever in them has to be escaped.\<close>

theorem cert_record_roundtrip:
  assumes "valid_state m"
  shows "certSyncState (Some (mutated (record_cert_sync (encode_state m)) s)) = Some m"
  using assms by (rule decode_encode_state)

end
