(* ===== verification/State_Laws.thy ===== *)
theory State_Laws
  imports Stages Cert_Laws
begin

text \<open>
  What the operator keeps in memory between reconciles: frames for relations and invariants of that
  state, the single series of the configuration-hash gauge, and the well-formedness of the
  reconciler's fields. A frame asks for each assignment of the code to be in the relation and gives
  every stage, the probe and the whole reconcile.
\<close>

section \<open>Frames\<close>

text \<open>A reflexive and transitive relation between the world before and after, kept by what the stages
  up to validation do: calls that leave memory and metrics alone, each assignment to a field of the
  reconciler, and each metric these stages touch.\<close>

locale stage_frame = world_rel R for R :: "'e world \<Rightarrow> 'e world \<Rightarrow> bool" +
  fixes x :: "'e ext" and cfg :: settings
  assumes quiet: "w_rec w' = w_rec w
      \<Longrightarrow> (w_metrics w')\<lparr>ServerCertExpiry := ServerCertExpiry (w_metrics w)\<rparr> = w_metrics w
      \<Longrightarrow> \<exists>es. w_trace w' = w_trace w @ es \<Longrightarrow> R w w'"
    and failure: "rel R count_failure"
    and success: "rel R (modify_rec (\<lambda>r. r\<lparr>transientFailures := 0\<rparr>))"
    and desired: "rel R (note_desired (HashBytes raw))"
    and export: "rel R (exportConfigHash (HashBytes raw) state)"
    and client: "rel R (getOrCreateClient x cfg)"
    and push_cert: "rel R (pushCertSecret x c s st)"
    and counted: "rel R (count_class k)" "rel R (set_in_sync name v)" "rel R (count_drift name)"
      "rel R (count_attempt ''cert-sync'')"
begin

lemma calls_quiet: "calls P w w' \<Longrightarrow> R w w'"
  by (rule quiet) (auto simp: calls_def emits_def)

lemma calls_frame: "rel (calls P) m \<Longrightarrow> rel R m"
  by (erule rel_mono) (rule calls_quiet)

lemma primitive_frame:
  "rel R (kube_get x k)" "rel R (kube_patch x a b)" "rel R (emit rc ob re m)"
  by (auto simp: rel_def kube_get_def kube_patch_def emit_def intro!: quiet split: prod.split option.split)

lemma patch_frame: "rel R (patchAnnotations x s f)" "rel R (failWithStatus x s v m e)"
  unfolding failWithStatus_def patchAnnotations_def
  by (intro rel_control primitive_frame)+

lemma failures_frame:
  "rel R (fail_transient x s v err)" "rel R (transient_failure x cfg s stage err)"
  "rel R (client_failure x s err)" "rel R (reject_config x cfg s (HashBytes raw) err)"
  "rel R (cert_failure x cfg s st err)" "rel R (clear_stale x stage s)"
  unfolding transient_failure_def client_failure_def fail_transient_def reject_config_def cert_failure_def
    clear_stale_def Let_def
  by (intro rel_control primitive_frame patch_frame counted failure export)+

lemma ensure_frame: "rel R (ensureCertSecretsSynced x ns c names st)"
  by (induction names arbitrary: st)
    (auto simp: Let_def intro!: rel_control rel_outcome push_cert primitive_frame)

lemma reconcile_cert_frame: "rel R (reconcile_cert x cfg req s)"
  unfolding reconcile_cert_def find_config_secret_def syncCertSecret_def Let_def
  by (intro rel_control rel_outcome push_cert primitive_frame client failures_frame)

lemma check_drift_frame: "rel R (check_drift x cfg s h)"
  unfolding check_drift_def compare_live_def drift_found_def Let_def
  by (intro rel_control client failures_frame counted patch_frame primitive_frame
      success calls_frame [OF GetRawConfiguration_calls])

lemma prepare_frame: "rel R (prepare x cfg s (HashBytes raw))"
  unfolding prepare_def
  by (intro rel_control rel_outcome client failures_frame counted ensure_frame desired)

lemma DataplaneReady_frame: "rel R (DataplaneReady x cfg)"
  unfolding DataplaneReady_def Ping_def
  by (intro rel_control client calls_frame [OF getConfigVersion_calls])

lemma gateway_frame:
  "rel R (Validate x c raw)" "rel R (ApplyRawConfigurationValidated x c raw)" "rel R (observe_applied x c)"
  unfolding observe_applied_def
  by (intro rel_control calls_frame [OF safe.Validate_calls] calls_frame [where P = "\<lambda>_. True"]
      apply_validated_calls calls_frame [OF GetRawConfiguration_calls]; simp)+

end

text \<open>A frame that is also kept by what validation and apply count, and so by whole reconciles.\<close>

locale reconcile_frame = stage_frame +
  assumes tried: "rel R (count_attempt ''validate'')" "rel R (count_attempt ''apply'')"
    and ended: "rel R (count_result l)"
    and recorded: "rel R (modify_metrics (\<lambda>m. m\<lparr>LastSuccessfulApply := t\<rparr>))"
begin

lemma phases_frame:
  "rel R (validate_phase x cfg c s (HashBytes raw) b)" "rel R (apply_phase x cfg c s (HashBytes raw) b)"
  "rel R (record_phase x cfg c s (HashBytes raw))"
  unfolding validate_phase_def apply_phase_def record_phase_def
  by (intro rel_control failures_frame counted tried ended primitive_frame gateway_frame export recorded
      success patch_frame)+

lemma Reconcile_frame: "rel R (Reconcile x cfg req)"
  unfolding Reconcile_def reconcile_config_def push_config_def Let_def
  by (intro rel_control primitive_frame reconcile_cert_frame prepare_frame phases_frame check_drift_frame patch_frame)

end

section \<open>Invariants of the operator's state\<close>

definition keeps :: "('e world \<Rightarrow> bool) \<Rightarrow> 'e world \<Rightarrow> 'e world \<Rightarrow> bool" where
  "keeps I w w' \<longleftrightarrow> (I w \<longrightarrow> I w')"

interpretation keeps: world_rel "keeps I" for I
  by unfold_locales (auto simp: keeps_def)

locale kept_state =
  fixes I :: "'e world \<Rightarrow> bool" and x :: "'e ext" and cfg :: settings
  assumes state_only: "w_rec w' = w_rec w \<Longrightarrow> ConfigHash (w_metrics w') = ConfigHash (w_metrics w) \<Longrightarrow> I w' = I w"
    and failure_kept: "rel (keeps I) count_failure"
    and success_kept: "rel (keeps I) (modify_rec (\<lambda>r. r\<lparr>transientFailures := 0\<rparr>))"
    and desired_kept: "rel (keeps I) (note_desired (HashBytes raw))"
    and pushed_kept: "rel (keeps I) (modify_rec (\<lambda>r. r\<lparr>certSyncHashes := fmupd name (HashBytes raw) (certSyncHashes r)\<rparr>))"
    and export_kept: "rel (keeps I) (exportConfigHash (HashBytes raw) state)"
    and client_kept: "rel (keeps I) (getOrCreateClient x cfg)"
begin

lemma silent_kept:
  assumes "\<And>w. w_rec (snd (run_state m w)) = w_rec w \<and> ConfigHash (w_metrics (snd (run_state m w))) = ConfigHash (w_metrics w)"
  shows "rel (keeps I) m"
  unfolding rel_def keeps_def
proof (intro allI impI)
  fix w
  assume "I w"
  moreover have "I (snd (run_state m w)) = I w" by (rule state_only) (simp_all add: assms)
  ultimately show "I (snd (run_state m w))" by simp
qed

lemma quiet_kept:
  assumes "w_rec w' = w_rec w"
    "(w_metrics w')\<lparr>ServerCertExpiry := ServerCertExpiry (w_metrics w)\<rparr> = w_metrics w"
  shows "keeps I w w'"
proof -
  have "ConfigHash (w_metrics w') = ConfigHash ((w_metrics w')\<lparr>ServerCertExpiry := ServerCertExpiry (w_metrics w)\<rparr>)"
    by simp
  also have "\<dots> = ConfigHash (w_metrics w)" by (simp only: assms(2))
  finally show ?thesis using state_only [OF assms(1)] by (simp add: keeps_def)
qed

lemma push_cert_kept: "rel (keeps I) (pushCertSecret x c s st)"
  unfolding pushCertSecret_def patchAnnotations_def Let_def
  by (intro keeps.rel_control rel_mono [OF SyncSSLCertificate_calls] pushed_kept silent_kept)
    (auto simp: calls_def kube_patch_def intro: quiet_kept split: prod.split)

end

sublocale kept_state \<subseteq> frame: reconcile_frame "keeps I" x cfg
  by unfold_locales
    (auto intro: quiet_kept failure_kept success_kept desired_kept export_kept client_kept push_cert_kept
      silent_kept simp: count_class_def count_result_def count_attempt_def set_in_sync_def count_drift_def)

context kept_state
begin

lemma Reconcile_kept: "rel (keeps I) (Reconcile x cfg req)"
  by (rule frame.Reconcile_frame)

lemma DataplaneReady_kept: "rel (keeps I) (DataplaneReady x cfg)"
  by (rule frame.DataplaneReady_frame)

end

section \<open>One exported hash series\<close>

interpretation series: kept_state single_series x cfg for x cfg
proof unfold_locales
  fix raw state name and w w' :: "'a world"
  show "w_rec w' = w_rec w \<Longrightarrow> ConfigHash (w_metrics w') = ConfigHash (w_metrics w) \<Longrightarrow> single_series w' = single_series w"
    by (simp add: single_series_def)
  show "rel (keeps single_series) (exportConfigHash (HashBytes raw) state)"
    by (simp add: rel_def keeps_def single_series_export sha.hash_nonempty)
  show "rel (keeps single_series) (getOrCreateClient x cfg)"
    unfolding getOrCreateClient_def TLSTransport_def NewClient_def loadCAPool_def Let_def
    by (intro keeps.rel_control)
      (auto simp: rel_def keeps_def single_series_def env_call_def split: prod.split)
qed (simp_all add: rel_def keeps_def single_series_def count_failure_def note_desired_def)

text \<open>Over a whole reconcile, whatever happens, the configuration-hash gauge keeps at most one series,
  the one the operator remembers.\<close>

theorem reconcile_single_series:
  assumes "single_series w"
  shows "single_series (snd (run_state (Reconcile x cfg req) w))"
  using relD [OF series.Reconcile_kept [of x cfg req], of w] assms by (simp add: keeps_def)

section \<open>Well-formed memory\<close>

definition hash_text :: "string \<Rightarrow> bool" where
  "hash_text h \<longleftrightarrow> length h = 64 \<and> list_all is_hex h"

lemma HashBytes_text: "hash_text (HashBytes m)"
  by (simp add: hash_text_def sha.hash_length sha.hash_digits)

text \<open>The client in memory is built from the operator's settings: with a SPIRE socket it is the one that
  verifies with the source in memory, otherwise one that verifies the server unless that is
  switched off.\<close>

definition client_wf :: "settings \<Rightarrow> reconciler \<Rightarrow> client \<Rightarrow> bool" where
  "client_wf cfg r c \<longleftrightarrow> c_config c = APIConfig cfg
     \<and> (if SpireSocketPath cfg \<noteq> [] then c_transport c = SpireTransport \<and> spireSource r
        else web_scheme c \<and> (Insecure (APIConfig cfg) \<or> no_unverified_tls c))"

definition rec_wf :: "settings \<Rightarrow> reconciler \<Rightarrow> bool" where
  "rec_wf cfg r \<longleftrightarrow>
     - (2 ^ 63) \<le> transientFailures r \<and> transientFailures r < 2 ^ 63
   \<and> (lastDesiredHash r = [] \<or> hash_text (lastDesiredHash r))
   \<and> (lastMetricHash r = [] \<or> hash_text (lastMetricHash r))
   \<and> fmpred (\<lambda>_. hash_text) (certSyncHashes r)
   \<and> (case haproxyClient r of None \<Rightarrow> True | Some c \<Rightarrow> client_wf cfg r c)
   \<and> (spireSource r \<longrightarrow> SpireSocketPath cfg \<noteq> [])"

lemma int_succ_range: "- (2 ^ 63) \<le> int_succ n \<and> int_succ n < 2 ^ 63"
  using pos_mod_bound [of "2 ^ 64" "n + 1 + 2 ^ 63"] pos_mod_sign [of "2 ^ 64" "n + 1 + 2 ^ 63"]
  by (simp add: int_succ_def)

lemma getOrCreateClient_wf:
  assumes "rec_wf cfg (w_rec w)"
  shows "rec_wf cfg (w_rec (snd (run_state (getOrCreateClient x cfg) w)))"
proof (cases "hclient w")
  case (Some c)
  with assms show ?thesis by (simp add: getOrCreateClient_def)
next
  case None
  show ?thesis
  proof (cases "SpireSocketPath cfg = []")
    case True
    obtain r w' where n: "run_state (NewClient x (APIConfig cfg)) w = (r, w')" by (metis surj_pair)
    have "case r of Inl _ \<Rightarrow> True | Inr c \<Rightarrow> c_config c = APIConfig cfg \<and> web_scheme c
        \<and> (Insecure (APIConfig cfg) \<or> no_unverified_tls c)"
      using NewClient_result [of x "APIConfig cfg" w] n by (simp add: wp_run)
    with NewClient_keeps [OF n] n None True assms show ?thesis
      by (auto simp: getOrCreateClient_def rec_wf_def client_wf_def split: sum.splits)
  next
    case False
    with None assms show ?thesis
      by (auto simp: getOrCreateClient_def TLSTransport_def env_call_def NewClientWithTransport_def
          newClient_def rec_wf_def client_wf_def split: sum.splits option.splits prod.splits)
  qed
qed

interpretation wf: kept_state "\<lambda>w. rec_wf cfg (w_rec w)" x cfg for x cfg
proof unfold_locales
  let ?I = "\<lambda>w :: 'a world. rec_wf cfg (w_rec w)"
  fix raw state name
  show "rel (keeps ?I) count_failure"
    using int_succ_range by (simp add: rel_def keeps_def count_failure_def rec_wf_def client_wf_def split: option.split)
  show "rel (keeps ?I) (exportConfigHash (HashBytes raw) state)"
    by (simp add: rel_def keeps_def exportConfigHash_run rec_wf_def client_wf_def HashBytes_text split: option.split)
  show "rel (keeps ?I) (getOrCreateClient x cfg)"
    by (simp add: rel_def keeps_def getOrCreateClient_wf)
  show "rel (keeps ?I) (modify_rec (\<lambda>r. r\<lparr>certSyncHashes := fmupd name (HashBytes raw) (certSyncHashes r)\<rparr>))"
    using fmpred_upd [of "\<lambda>_. hash_text", OF _ HashBytes_text]
    by (auto simp: rel_def keeps_def rec_wf_def client_wf_def split: option.split)
qed (simp_all add: rel_def keeps_def note_desired_def rec_wf_def client_wf_def HashBytes_text split: option.split)

end
