(* ===== verification/Cluster.thy ===== *)
theory Cluster
  imports Convergence Json_Roundtrip State_Laws
begin

text \<open>
  A small concrete environment: an API server with one config Secret and one TLS Secret that applies
  merge patches, and a gateway that accepts everything and remembers that a certificate was uploaded.
  In one form it serves a fixed text, in the other what the last apply made it run. The examples of the
  development run in it.
\<close>

section \<open>The environment\<close>

record cluster =
  cl_config :: secret
  cl_tls :: secret
  cl_stored :: bool
  cl_running :: string

definition reply :: "int \<Rightarrow> bytes \<Rightarrow> http_outcome" where
  "reply code body = Inr \<lparr>rs_status = code, rs_body = body, rs_read_error = None, rs_leaf = None\<rparr>"

definition serial_json :: bytes where
  "serial_json = ''{'' @ [CHR 0x22] @ ''serial'' @ [CHR 0x22] @ '':'' @ [CHR 0x22] @ ''1'' @ [CHR 0x22] @ ''}''"

definition cluster_http :: "string \<Rightarrow> http_request \<Rightarrow> cluster \<Rightarrow> http_outcome \<times> nat \<times> cluster" where
  "cluster_http stored rq e =
    (if is_validate demo_client rq \<or> is_apply demo_client rq then (reply 202 [], 0, e)
     else if rq = version_request demo_client then (reply 200 ''1'', 0, e)
     else if rq = live_request demo_client then (reply 200 stored, 0, e)
     else if rq_method rq = ''GET'' then
       (if cl_stored e then reply 200 serial_json else reply 404 [], 0, e)
     else (reply 201 [], 0, e\<lparr>cl_stored := True\<rparr>))"

definition cluster_get :: "object_key \<Rightarrow> cluster \<Rightarrow> (goerr + secret) \<times> cluster" where
  "cluster_get k e =
    (if k = key_of (cl_config e) then Inr (cl_config e)
     else if k = key_of (cl_tls e) then Inr (cl_tls e)
     else Inl (KubeError KNotFound ''not found''), e)"

text \<open>The gateway that runs what was applied: \<open>stored\<close> is what it makes of every configuration.\<close>

definition serving_http :: "string \<Rightarrow> http_request \<Rightarrow> cluster \<Rightarrow> http_outcome \<times> nat \<times> cluster" where
  "serving_http stored rq e =
    (if is_apply demo_client rq then (reply 202 [], 0, e\<lparr>cl_running := stored\<rparr>)
     else if rq = live_request demo_client then (reply 200 (cl_running e), 0, e)
     else cluster_http stored rq e)"

text \<open>A merge patch carries the keys that differ between the two objects.\<close>

definition patch_touches :: "string \<Rightarrow> secret \<Rightarrow> secret \<Rightarrow> bool" where
  "patch_touches k orig new \<longleftrightarrow> go_lookup (s_annotations orig) k \<noteq> go_lookup (s_annotations new) k"

definition merged :: "secret \<Rightarrow> secret \<Rightarrow> secret \<Rightarrow> secret" where
  "merged orig new st = st\<lparr>s_annotations := Some
     (fmfilter (\<lambda>k. \<not> patch_touches k orig new) (go_map (s_annotations st)) ++\<^sub>f
      fmfilter (\<lambda>k. patch_touches k orig new) (go_map (s_annotations new)))\<rparr>"

definition cluster_patch :: "secret \<Rightarrow> secret \<Rightarrow> cluster \<Rightarrow> (goerr + secret) \<times> cluster" where
  "cluster_patch orig new e =
    (if key_of orig = key_of (cl_config e)
     then (Inr (merged orig new (cl_config e)), e\<lparr>cl_config := merged orig new (cl_config e)\<rparr>)
     else (Inr (merged orig new orig), e))"

definition cluster_ext :: "string \<Rightarrow> cluster ext" where
  "cluster_ext stored = (plain_ext (cluster_http stored))\<lparr>
     x_get := cluster_get, x_patch := cluster_patch,
     x_pem_decode := (\<lambda>b. if b = [] then None else Some (''CERTIFICATE'', ''DER'', []))\<rparr>"

lemma cluster_ext_simps [simp]:
  "x_http (cluster_ext stored) = cluster_http stored" "x_new_request (cluster_ext stored) = (\<lambda>rq. None)"
  "x_wait (cluster_ext stored) = (\<lambda>d e. (None, 0, e))" "x_get (cluster_ext stored) = cluster_get"
  "x_patch (cluster_ext stored) = cluster_patch" "x_format_time (cluster_ext stored) = (\<lambda>t. ''2025-01-01T00:00:00Z'')"
  "x_url_parse (cluster_ext stored) = (\<lambda>s. Inr \<lparr>u_scheme = ''http'', u_host = ''gw'', u_path = ''/v3'', u_query = []\<rparr>)"
  "x_pem_decode (cluster_ext stored) = (\<lambda>b. if b = [] then None else Some (''CERTIFICATE'', ''DER'', []))"
  "x_parse_cert (cluster_ext stored) = (\<lambda>d. Inr \<lparr>cert_raw = d, cert_serial = ''1'', cert_not_after = 0\<rparr>)" "x_boundary (cluster_ext stored) = (\<lambda>e. (''boundary'', e))"
  "x_json_text (cluster_ext stored) = (\<lambda>b. ''invalid JSON'')"
  by (simp_all add: cluster_ext_def plain_ext_def)

definition serving_ext :: "string \<Rightarrow> cluster ext" where
  "serving_ext stored = (cluster_ext stored)\<lparr>x_http := serving_http stored\<rparr>"

lemma serving_ext_simps [simp]:
  "x_http (serving_ext stored) = serving_http stored" "x_new_request (serving_ext stored) = (\<lambda>rq. None)"
  "x_wait (serving_ext stored) = (\<lambda>d e. (None, 0, e))" "x_get (serving_ext stored) = cluster_get"
  "x_patch (serving_ext stored) = cluster_patch"
  by (simp_all add: serving_ext_def)

definition demo_settings :: settings where
  "demo_settings = \<lparr>SecretName = ''haproxy-config'', SecretKey = ''haproxy.cfg'', APIConfig = demo_config,
     SpireSocketPath = [], Recorder = True, CertsSecretNames = [], DriftRemediate = True\<rparr>"

definition config_secret :: "string \<Rightarrow> (string, string) fmap \<Rightarrow> secret" where
  "config_secret raw ann = \<lparr>s_namespace = ''ns'', s_name = ''haproxy-config'', s_version = ''1'',
     s_labels = None, s_annotations = Some ann, s_data = Some (fmupd ''haproxy.cfg'' raw fmempty)\<rparr>"

definition tls_secret :: secret where
  "tls_secret = \<lparr>s_namespace = ''ns'', s_name = ''tls'', s_version = ''1'', s_labels = None,
     s_annotations = None, s_data = Some (fmupd ''tls.crt'' ''CRT'' (fmupd ''tls.key'' ''KEY'' fmempty))\<rparr>"

definition demo_cluster :: "string \<Rightarrow> (string, string) fmap \<Rightarrow> cluster" where
  "demo_cluster raw ann = \<lparr>cl_config = config_secret raw ann, cl_tls = tls_secret, cl_stored = False,
     cl_running = ''old''\<rparr>"

definition config_key :: object_key where "config_key = (''ns'', ''haproxy-config'')"

abbreviation demo_world :: "string \<Rightarrow> (string, string) fmap \<Rightarrow> cluster world" where
  "demo_world raw ann \<equiv> initial_world (demo_cluster raw ann)"

text \<open>The same with the client already built.\<close>

definition running_world :: "string \<Rightarrow> (string, string) fmap \<Rightarrow> cluster world" where
  "running_world raw ann = (demo_world raw ann)\<lparr>w_rec := initial_reconciler\<lparr>haproxyClient := Some demo_client\<rparr>\<rparr>"

lemma config_annotation [simp]:
  "annotation (config_secret raw ann) k = (case fmlookup ann k of None \<Rightarrow> [] | Some v \<Rightarrow> v)"
  by (simp add: config_secret_def go_get_def split: option.splits)

section \<open>It behaves\<close>

lemma cluster_honest: "honest (cluster_ext stored)"
proof -
  have "honest_outcome (fst (cluster_http stored rq e))" for rq e
    by (simp add: cluster_http_def honest_outcome_def reply_def)
  then show ?thesis by (simp add: honest_def honest_outcome_def)
qed

lemma cluster_faithful: "faithful_names (cluster_ext stored)"
  by (auto simp: faithful_names_def cluster_get_def cluster_patch_def key_of_def merged_def split: if_splits)

lemma cluster_pem: "pem_shrinks (cluster_ext stored)"
  by (simp add: pem_shrinks_def)

lemma cluster_patches: "patches_succeed (cluster_ext stored)"
  by (simp add: patches_succeed_def cluster_patch_def)

lemma version_text: "version_answer x (reply 200 ''1'') = Inr 1"
proof -
  have "parse_value (2 * length ''1'' + 2) maxNestingDepth ''1'' = Some (JNum ''1'', [])" by code_simp
  moreover have "parse_int64 ''1'' = Some 1" by code_simp
  ultimately show ?thesis
    by (simp add: version_answer_def json_result_def answer_def reply_def success_def decode_stream_def
        int_of_json_def del: parse_value.simps)
qed

lemma requests_distinct:
  "version_request demo_client \<noteq> live_request demo_client"
  by (simp add: version_request_def live_request_def make_request_def)

lemma cluster_live:
  "answers (cluster_ext stored) (live_request demo_client) (\<lambda>resp. string_result (Inr resp) = Inr stored)"
  using storage_request_kind [OF live_storage] requests_distinct
  by (simp add: answers_def cluster_http_def reply_def success_def string_result_def)

lemma cluster_accepts: "accepts (cluster_ext stored) demo_client raw"
  using version_text storage_request_kind [OF version_storage] validate_request_kind(1) apply_request_kind(1)
  by (auto simp: accepts_def answers_def cluster_http_def reply_def success_def)

lemma serving_serves: "serves (serving_ext stored) demo_client raw stored cl_running"
  using version_text storage_request_kind [OF version_storage] storage_request_kind [OF live_storage]
    validate_request_kind apply_request_kind(1) requests_distinct
  by (auto simp: serves_def accepts_def answers_def answers_in_def serving_http_def cluster_http_def reply_def success_def
      string_result_def cluster_get_def cluster_patch_def)

lemma serving_patches: "patches_succeed (serving_ext stored)"
  by (simp add: patches_succeed_def cluster_patch_def)

section \<open>Examples\<close>

lemma demo_event:
  "config_event (cluster_ext stored) demo_settings config_key (config_secret raw ann) raw (demo_world raw ann)"
  "config_event (cluster_ext stored) demo_settings config_key (config_secret raw ann) raw (running_world raw ann)"
  "config_event (serving_ext stored) demo_settings config_key (config_secret raw ann) raw (running_world raw ann)"
  by (simp_all add: config_event_def demo_settings_def config_key_def config_secret_def initial_world_def
      cluster_get_def demo_cluster_def key_of_def running_world_def)

theorem only_config_secret_patched_witness:
  "\<exists>es. w_trace (snd (run_state (Reconcile (cluster_ext ''x'') demo_settings config_key) (demo_world ''x'' fmempty))) = es
    \<and> list_all (patches_only ''haproxy-config'') es"
proof -
  have n: "SecretName demo_settings \<noteq> []" "SecretName demo_settings = ''haproxy-config''"
    by (simp_all add: demo_settings_def)
  from only_config_secret_patched [OF cluster_faithful n(1), of "''x''" config_key "demo_world ''x'' fmempty"]
  show ?thesis by (simp add: n(2) initial_world_def)
qed

theorem recorded_hashes_justified_witness:
  "\<exists>es k. w_trace (snd (run_state (Reconcile (cluster_ext ''x'') demo_settings config_key) (demo_world ''x'' fmempty))) = es
    \<and> traced (hash_justified k) [] es"
  using recorded_hashes_justified [OF cluster_honest, of "''x''" demo_settings config_key "demo_world ''x'' fmempty"]
  by (auto simp: initial_world_def)

theorem other_secret_ignored_witness:
  "run_state (Reconcile (cluster_ext ''x'') demo_settings (''ns'', ''other'')) (demo_world ''x'' fmempty)
     = (RequeueAfter 0, demo_world ''x'' fmempty)"
  by (rule other_secret_ignored) (simp_all add: demo_settings_def)

theorem rejected_config_suppressed_witness:
  "fst (run_state (Reconcile (cluster_ext ''x'') demo_settings config_key)
     (demo_world ''x'' (fmupd LastFailedHashAnnotation (HashBytes ''x'') fmempty))) = RequeueAfter RequeueInterval"
proof -
  let ?ann = "fmupd LastFailedHashAnnotation (HashBytes ''x'') fmempty"
  have "annotation (config_secret ''x'' ?ann) LastFailedHashAnnotation = HashBytes ''x''"
    "annotation (config_secret ''x'' ?ann) LastAppliedHashAnnotation \<noteq> HashBytes ''x''"
    using sha.hash_nonempty [of "''x''"] by (simp_all add: annotation_defs not_sym)
  from rejected_config_suppressed [OF demo_event(1) this, of "''x''"] show ?thesis by auto
qed

theorem config_reconcile_scheduled_witness:
  "scheduled (fst (run_state (reconcile_config (cluster_ext ''x'') demo_settings (config_secret ''x'' fmempty))
     (demo_world ''x'' fmempty)))"
  by (rule config_reconcile_scheduled) (simp add: shouldReconcile_def demo_settings_def config_secret_def)

theorem drift_alert_only_witness:
  "\<exists>es. w_trace (snd (run_state (Reconcile (cluster_ext ''y'') (demo_settings\<lparr>DriftRemediate := False\<rparr>) config_key)
     (demo_world ''x'' (fmupd LastAppliedHashAnnotation (HashBytes ''x'') fmempty)))) = es \<and> list_all looks_only es"
proof -
  let ?ann = "fmupd LastAppliedHashAnnotation (HashBytes ''x'') fmempty"
  let ?cfg = "demo_settings\<lparr>DriftRemediate := False\<rparr>"
  have "config_event (cluster_ext ''y'') ?cfg config_key (config_secret ''x'' ?ann) ''x'' (demo_world ''x'' ?ann)"
    using demo_event(1) [of "''y''" "''x''" ?ann] by (simp add: config_event_def)
  moreover have "annotation (config_secret ''x'' ?ann) LastAppliedHashAnnotation = HashBytes ''x''"
    by simp
  ultimately show ?thesis
    using drift_alert_only [of "cluster_ext ''y''" ?cfg config_key "config_secret ''x'' ?ann" "''x''" "demo_world ''x'' ?ann"]
    by (simp add: initial_world_def)
qed

theorem reconcile_single_series_witness:
  "single_series (snd (run_state (Reconcile (cluster_ext ''x'') demo_settings config_key) (demo_world ''x'' fmempty)))"
  by (rule reconcile_single_series)
    (simp add: single_series_def initial_world_def initial_metrics_def initial_reconciler_def)

theorem leaf_serial_total_witness:
  "leafSerial (cluster_ext ''x'') ''PEM'' \<noteq> None"
  using leaf_serial_total [OF cluster_pem, of "''PEM''" 10 "''x''"] by simp

text \<open>A name with a quote, a line break, a less-than sign and an accented letter.\<close>

definition odd_name :: string where
  "odd_name = [CHR ''a'', CHR 0x22, CHR 0x0A, CHR ''<'', CHR 0xC3, CHR 0xA9]"

theorem cert_record_roundtrip_witness:
  "certSyncState (Some (mutated (record_cert_sync (encode_state
      (fmupd odd_name \<lparr>ce_hash = ''ab'', ce_time = ''2025-01-01T00:00:00Z''\<rparr> fmempty))) tls_secret))
    = Some (fmupd odd_name \<lparr>ce_hash = ''ab'', ce_time = ''2025-01-01T00:00:00Z''\<rparr> fmempty)"
proof (rule cert_record_roundtrip)
  have "valid_utf8 odd_name" "valid_utf8 ''ab''" "valid_utf8 ''2025-01-01T00:00:00Z''" by code_simp+
  moreover have "sorted_list_of_fset (fmdom (fmupd odd_name e fmempty)) = [odd_name]" for e :: cert_entry
    by (simp add: sorted_list_of_fset.rep_eq)
  ultimately show "valid_state (fmupd odd_name \<lparr>ce_hash = ''ab'', ce_time = ''2025-01-01T00:00:00Z''\<rparr> fmempty)"
    by (simp add: valid_state_def state_entries_def valid_entry_def)
qed

theorem in_sync_quiescent_witness:
  "fst (run_state (Reconcile (cluster_ext ''y'') demo_settings config_key)
     (running_world ''x'' (fmupd LastAppliedHashAnnotation (HashBytes ''x'')
       (fmupd LastObservedHashAnnotation (HashBytes ''y'') fmempty)))) = RequeueAfter RequeueInterval"
proof -
  let ?ann = "fmupd LastAppliedHashAnnotation (HashBytes ''x'') (fmupd LastObservedHashAnnotation (HashBytes ''y'') fmempty)"
  have "annotation (config_secret ''x'' ?ann) LastAppliedHashAnnotation = HashBytes ''x''"
    "annotation (config_secret ''x'' ?ann) LastObservedHashAnnotation = HashBytes ''y''"
    "\<not> has_prefix (annotation (config_secret ''x'' ?ann) StatusAnnotation) ''DriftCheck''"
    by (simp_all add: annotation_defs has_prefix_def)
  moreover have "hclient (running_world ''x'' ?ann) = Some demo_client" by (simp add: running_world_def)
  moreover have "answers (cluster_ext ''y'') (live_request demo_client) (\<lambda>resp. string_result (Inr resp) = Inr ''y'')"
    by (rule cluster_live)
  ultimately show ?thesis
    using in_sync_quiescent [OF demo_event(2) [of "''y''" "''x''" ?ann], of "''y''" demo_client] by auto
qed

theorem new_config_applied_witness:
  "\<exists>w' es new s'. run_state (Reconcile (serving_ext ''y'') demo_settings config_key) (running_world ''x'' fmempty)
      = (RequeueAfter RequeueInterval, w')
    \<and> w_trace w' = KubeGet config_key (Inr (config_secret ''x'' fmempty)) # es
        @ [KubePatch (config_secret ''x'' fmempty) new (Inr s')]
    \<and> pushes demo_client ''x'' ''y'' es \<and> recorded_applied new (HashBytes ''x'') (HashBytes ''y'')
    \<and> cl_running (w_env w') = ''y''"
proof -
  have n: "HashBytes ''x'' \<noteq> annotation (config_secret ''x'' fmempty) k" for k
    using sha.hash_nonempty [of "''x''"] by simp
  have c: "hclient (running_world ''x'' fmempty) = Some demo_client" "CertsSecretNames demo_settings = []"
    "w_trace (running_world ''x'' fmempty) = []"
    by (simp_all add: running_world_def demo_settings_def initial_world_def)
  from new_config_applied [OF demo_event(3) n n _ c(2,1) serving_serves serving_patches, of "''y''"] show ?thesis
    unfolding c(3) by auto
qed

end
