(* ===== verification/Scenarios.thy ===== *)
theory Scenarios
  imports Cluster
begin

text \<open>
  Whole reconciles of the concrete environment, computed step by step: a certificate event that ends
  in a successful apply and leaves the record of an old rejection behind, and a damaged sync record
  that stops the reconcile with a panic.
\<close>

section \<open>Requests to the gateway\<close>

definition sent_to :: "string \<Rightarrow> http_request \<Rightarrow> cluster world \<Rightarrow> cluster world" where
  "sent_to stored rq w = w\<lparr>w_env := snd (snd (cluster_http stored rq (w_env w))),
     w_trace := w_trace w @ [HttpCall rq (fst (cluster_http stored rq (w_env w)))]\<rparr>"

text \<open>Nothing but the trace and the clock's readers notices.\<close>

definition still :: "cluster world \<Rightarrow> cluster world \<Rightarrow> bool" where
  "still w w' \<longleftrightarrow> w_env w' = w_env w \<and> w_rec w' = w_rec w"

interpretation still: world_rel still
  by unfold_locales (auto simp: still_def)

lemma sent_to_simps [simp]:
  "w_rec (sent_to stored rq w) = w_rec w" "w_now (sent_to stored rq w) = w_now w"
  "w_metrics (sent_to stored rq w) = w_metrics w"
  by (simp_all add: sent_to_def)

lemma cluster_reply:
  obtains r e' where "cluster_http stored rq e = (Inr r, 0, e')" "rs_leaf r = None"
proof -
  have "\<exists>r e'. cluster_http stored rq e = (Inr r, 0, e') \<and> rs_leaf r = None"
    by (simp add: cluster_http_def reply_def)
  then show ?thesis using that by blast
qed

lemma cluster_sends:
  "run_state (do_request (cluster_ext stored) c m p b t) w =
     (answer (fst (cluster_http stored (make_request c m p b t) (w_env w))),
      sent_to stored (make_request c m p b t) w)"
proof -
  obtain r e' where "cluster_http stored (make_request c m p b t) (w_env w) = (Inr r, 0, e')" "rs_leaf r = None"
    by (rule cluster_reply)
  then show ?thesis
    by (auto simp: do_request_def Let_def do_http_def observe_leaf_def answer_def success_def sent_to_def)
qed

lemma still_sent:
  "is_validate demo_client rq \<or> is_apply demo_client rq \<or> rq_method rq = ''GET'' \<Longrightarrow> still w (sent_to stored rq w)"
  by (auto simp: still_def sent_to_def cluster_http_def)

lemma version_run:
  "run_state (getConfigVersion (cluster_ext stored) demo_client) w = (Inr 1, sent_to stored (version_request demo_client) w)"
proof -
  have "fst (cluster_http stored (version_request demo_client) e) = reply 200 ''1''" for e
    using storage_request_kind [OF version_storage] by (simp add: cluster_http_def)
  moreover have "run_state (do_request (cluster_ext stored) demo_client ''GET'' version_path None ''application/json'') w =
     (answer (fst (cluster_http stored (version_request demo_client) (w_env w))), sent_to stored (version_request demo_client) w)"
    by (simp only: cluster_sends version_request_def)
  ultimately show ?thesis
    using version_text [of "cluster_ext stored"]
    by (simp add: getConfigVersion_def doRequest_def version_answer_def)
qed

lemma still_version: "still w (sent_to stored (version_request demo_client) w)"
  by (rule still_sent) (simp add: version_request_def)

lemma ready_run:
  "run_state (waitForReady (cluster_ext stored) demo_client dataplaneReadyTimeout) w =
     (None, sent_to stored (version_request demo_client) w)"
  by (simp add: waitForReady_def wait_loop.simps version_run)

lemma post_run:
  assumes "\<And>n. is_validate demo_client (post_request demo_client ep raw n) \<or> is_apply demo_client (post_request demo_client ep raw n)"
  shows "\<exists>w'. run_state (post_raw (cluster_ext stored) demo_client ep raw) w = (None, w') \<and> still w w'"
proof -
  let ?w1 = "sent_to stored (version_request demo_client) w" and ?rq = "post_request demo_client ep raw 1"
  have "fst (cluster_http stored ?rq e) = reply 202 []" for e
    using assms by (simp add: cluster_http_def)
  moreover have "run_state (do_request (cluster_ext stored) demo_client ''POST'' (ep 1) (if raw \<noteq> [] then Some raw else None) ''text/plain'') ?w1 =
     (answer (fst (cluster_http stored ?rq (w_env ?w1))), sent_to stored ?rq ?w1)"
    by (simp only: cluster_sends post_request_def)
  ultimately have "run_state (post_raw (cluster_ext stored) demo_client ep raw) w = (None, sent_to stored ?rq ?w1)"
    by (simp add: post_raw_def version_run doRequestPlain_def no_result_def answer_def reply_def success_def)
  moreover have "still ?w1 (sent_to stored ?rq ?w1)" by (rule still_sent) (use assms in blast)
  ultimately show ?thesis using still_version [of w stored] by (blast intro: still.R_trans)
qed

lemma live_run:
  "\<exists>w'. run_state (GetRawConfiguration (cluster_ext stored) demo_client) w = (Inr stored, w') \<and> still w w'"
proof -
  have "fst (cluster_http stored (live_request demo_client) e) = reply 200 stored" for e
    using storage_request_kind [OF live_storage] requests_distinct by (auto simp: cluster_http_def)
  moreover have "run_state (do_request (cluster_ext stored) demo_client ''GET'' raw_path None ''text/plain'') w =
     (answer (fst (cluster_http stored (live_request demo_client) (w_env w))), sent_to stored (live_request demo_client) w)"
    by (simp only: cluster_sends live_request_def)
  ultimately have "run_state (GetRawConfiguration (cluster_ext stored) demo_client) w = (Inr stored, sent_to stored (live_request demo_client) w)"
    by (simp add: GetRawConfiguration_def doRequestPlain_def string_result_def answer_def reply_def success_def)
  moreover have "still w (sent_to stored (live_request demo_client) w)" by (rule still_sent) (simp add: live_request_def)
  ultimately show ?thesis by blast
qed

section \<open>The certificate storage\<close>

lemma cert_endpoint_text: "cert_endpoint ''tls.pem'' = ''/services/haproxy/storage/ssl_certificates/tls.pem''"
proof -
  have "path_escape ''tls.pem'' = ''tls.pem''" by code_simp
  then show ?thesis by (simp add: cert_endpoint_def storage_path_def)
qed

lemma demo_path:
  "u_path (resolveURL (c_base demo_client) (cert_endpoint ''tls.pem'')) = ''/v3/services/haproxy/storage/ssl_certificates/tls.pem''"
  "u_path (resolveURL (c_base demo_client) version_path) = ''/v3/services/haproxy/configuration/version''"
  by (simp_all add: resolveURL_def cert_endpoint_text version_path_def demo_client_def newClient_def trim_suffix_def
      trim_prefix_def has_prefix_def path_join_def path_clean_def clean_step_def join_with_def)

lemma cert_requests:
  "cert_read demo_client ''tls.pem'' \<noteq> version_request demo_client" "cert_read demo_client ''tls.pem'' \<noteq> live_request demo_client"
proof -
  have "rq_url (cert_read demo_client ''tls.pem'') \<noteq> rq_url (version_request demo_client)"
  proof
    assume "rq_url (cert_read demo_client ''tls.pem'') = rq_url (version_request demo_client)"
    then have "u_path (rq_url (cert_read demo_client ''tls.pem'')) = u_path (rq_url (version_request demo_client))" by simp
    then show False by (simp add: cert_read_def version_request_def demo_path)
  qed
  then show "cert_read demo_client ''tls.pem'' \<noteq> version_request demo_client" by auto
  show "cert_read demo_client ''tls.pem'' \<noteq> live_request demo_client"
    by (simp add: cert_read_def live_request_def make_request_def)
qed

lemma serial_text: "serial_json = CHR 0x7B # json_string ''serial'' @ CHR 0x3A # json_string ''1'' @ [CHR 0x7D]"
  by (simp add: serial_json_def json_string_def json_body_plain plain_char_def)

lemma serial_parse: "parse_value (Suc (Suc (Suc n))) (Suc d) serial_json = Some (JObj [(''serial'', JStr ''1'')], [])"
proof -
  have pl: "valid_utf8 ''serial''" "valid_utf8 ''1''" by (rule plain_valid; simp add: plain_char_def)+
  have "parse_members (Suc (Suc n)) d (json_string ''serial'' @ CHR 0x3A # json_string ''1'' @ [CHR 0x7D])
      = Some ([(''serial'', JStr ''1'')], [])"
    by (subst members_step [OF pl(1) value_valid [OF pl(2)]]) (simp add: after_item_def)
  moreover have "skip_ws (json_string ''serial'' @ s) = json_string ''serial'' @ s" for s
    by (simp only: json_string_front skip_simps)
  ultimately show ?thesis
    by (simp add: serial_text value_body_def bracketed_def keep_def json_string_front del: parse_members.simps)
qed

lemma serial_answer: "json_result x ssl_zero ssl_of_json (answer (reply 200 serial_json)) = Inr \<lparr>Serial = ''1'', Size = 0\<rparr>"
proof -
  have "2 * length serial_json + 2 = Suc (Suc (Suc 27))" by (simp add: serial_json_def)
  moreover have "maxNestingDepth = Suc 9999" by (simp add: maxNestingDepth_def)
  ultimately have "parse_value (2 * length serial_json + 2) maxNestingDepth serial_json = Some (JObj [(''serial'', JStr ''1'')], [])"
    using serial_parse [of 27 9999] by argo
  moreover have "ssl_of_json (JObj [(''serial'', JStr ''1'')]) = Some \<lparr>Serial = ''1'', Size = 0\<rparr>"
    by (simp add: ssl_of_json_def ssl_field_def field_of_def ssl_fields_def ssl_zero_def)
  ultimately show ?thesis
    by (simp add: json_result_def decode_stream_def answer_def reply_def success_def self_delimiting_def
        del: parse_value.simps)
qed

definition tls_pem :: bytes where "tls_pem = ''CRT'' @ [CHR 0x0A] @ ''KEY'' @ [CHR 0x0A]"

lemma space_char: "char_of (32::nat) = CHR '' ''"
  by code_simp

lemma trim_space_plain:
  assumes "list_all plain_char s" "s = [] \<or> hd s \<noteq> CHR '' '' \<and> last s \<noteq> CHR '' ''"
  shows "trim_space s = s"
proof (cases "s = []")
  case True
  then show ?thesis by (simp add: trim_space_def trim_left.simps [of "[]"] trim_right.simps [of "[]"])
next
  case False
  then obtain c t where f: "s = c # t" by (cases s) auto
  obtain u d where l: "s = u @ [d]" using False by (cases s rule: rev_cases) auto
  have c: "plain_char c" "c \<noteq> CHR '' ''" using assms by (simp_all add: f)
  have d: "plain_char d" "d \<noteq> CHR '' ''" using assms by (simp_all add: l)
  have sp: "byte c \<noteq> 32" "byte d \<noteq> 32"
    using c(2) d(2) by (metis char_of_char space_char)+
  then have "\<not> is_space (byte c)" "\<not> is_space (byte d)"
    using c d by (auto simp: is_space_def plain_char_def)
  moreover have "decode_rune s = (byte c, 1)" using decode_plain [OF c(1)] by (simp add: f decode_rune_def)
  moreover have "last_width s = 1"
    using plain_ascii [OF d(1)] by (simp add: last_width_def l)
  then have "decode_last_rune s = (byte d, 1)"
    using decode_plain [OF d(1), of "[]"] by (simp add: decode_last_rune_def l decode_rune_def)
  ultimately show ?thesis
    using False by (simp add: trim_space_def trim_left.simps [of s] trim_right.simps [of s])
qed

lemma tls_bundle: "certPEMBundle tls_secret = Inr tls_pem"
proof -
  have "trim_space ''CRT'' = ''CRT''" "trim_space ''KEY'' = ''KEY''" "trim_space [] = []"
    by (rule trim_space_plain; simp add: plain_char_def)+
  then show ?thesis
    by (simp add: certPEMBundle_def tls_secret_def go_bytes_def Let_def tls_pem_def)
qed

section \<open>Pushing the certificate\<close>

lemma leaf_run: "leafSerial (cluster_ext stored) tls_pem = Some (Inr ''1'')"
  by (simp add: tls_pem_def leafSerial_def first_cert_block.simps)

lemma cert_read_run:
  "run_state (do_request (cluster_ext stored) demo_client ''GET'' (cert_endpoint ''tls.pem'') None ''application/json'') w =
     (answer (if cl_stored (w_env w) then reply 200 serial_json else reply 404 []),
      sent_to stored (cert_read demo_client ''tls.pem'') w)"
  "still w (sent_to stored (cert_read demo_client ''tls.pem'') w)"
proof -
  let ?rq = "cert_read demo_client ''tls.pem''"
  have g: "rq_method ?rq = ''GET''" by (simp add: cert_read_def)
  have "storage_request demo_client ?rq" by (rule storage_requests)
  then have "fst (cluster_http stored ?rq e) = (if cl_stored e then reply 200 serial_json else reply 404 [])" for e
    using storage_request_kind [of demo_client ?rq] cert_requests g by (simp add: cluster_http_def)
  then show "run_state (do_request (cluster_ext stored) demo_client ''GET'' (cert_endpoint ''tls.pem'') None ''application/json'') w =
     (answer (if cl_stored (w_env w) then reply 200 serial_json else reply 404 []), sent_to stored ?rq w)"
    by (simp only: cluster_sends cert_read_def)
  show "still w (sent_to stored ?rq w)" by (rule still_sent) (simp add: g)
qed

lemma cert_create_run:
  "\<exists>w'. run_state (createSSLCertificate (cluster_ext stored) demo_client name pem) w = (None, w')
    \<and> w_env w' = (w_env w)\<lparr>cl_stored := True\<rparr> \<and> w_rec w' = w_rec w"
proof -
  let ?rq = "cert_post demo_client ''boundary'' name pem"
  have p: "rq_method ?rq = ''POST''" by (simp add: cert_post_def)
  have "storage_request demo_client ?rq" by (rule storage_requests)
  moreover have "?rq \<noteq> version_request demo_client" "?rq \<noteq> live_request demo_client"
    by (simp_all add: cert_post_def version_request_def live_request_def make_request_def)
  ultimately have h: "cluster_http stored ?rq e = (reply 201 [], 0, e\<lparr>cl_stored := True\<rparr>)" for e
    using storage_request_kind [of demo_client ?rq] p by (simp add: cluster_http_def)
  have "run_state (do_request (cluster_ext stored) demo_client ''POST'' storage_path
      (Some (multipart_body ''boundary'' name pem)) (''multipart/form-data; boundary='' @ ''boundary'')) w =
      (answer (fst (cluster_http stored ?rq (w_env w))), sent_to stored ?rq w)"
    by (simp only: cluster_sends cert_post_def)
  then have "run_state (createSSLCertificate (cluster_ext stored) demo_client name pem) w = (None, sent_to stored ?rq w)"
    by (simp add: createSSLCertificate_def env_call_def no_result_def answer_def h) (simp add: reply_def success_def)
  moreover have "w_env (sent_to stored ?rq w) = (w_env w)\<lparr>cl_stored := True\<rparr>" by (simp add: sent_to_def h)
  ultimately show ?thesis by simp
qed

lemma not_found: "json_result x zero dec (answer (reply 404 [])) = Inl (APIError 404 [])"
  "isNotFound (APIError 404 [])"
  by (simp_all add: json_result_def answer_def reply_def success_def newAPIError_def isNotFound_def
      errors_as_def Let_def)

lemma sync_first:
  assumes "\<not> cl_stored (w_env w)"
  shows "\<exists>w'. run_state (SyncSSLCertificate (cluster_ext stored) demo_client ''tls.pem'' tls_pem prev) w = ((True, None), w')
    \<and> w_env w' = (w_env w)\<lparr>cl_stored := True\<rparr> \<and> w_rec w' = w_rec w"
proof -
  let ?w1 = "sent_to stored (version_request demo_client) w"
  let ?w2 = "sent_to stored (cert_read demo_client ''tls.pem'') ?w1"
  have s: "still w ?w2" using still_version cert_read_run(2) by (rule still.R_trans)
  then have e: "w_env ?w2 = w_env w" "w_rec ?w2 = w_rec w" by (simp_all add: still_def)
  have e1: "w_env ?w1 = w_env w" using still_version [of w stored] by (simp add: still_def)
  obtain w' where c: "run_state (createSSLCertificate (cluster_ext stored) demo_client ''tls.pem'' tls_pem) ?w2 = (None, w')"
    "w_env w' = (w_env ?w2)\<lparr>cl_stored := True\<rparr>" "w_rec w' = w_rec ?w2"
    using cert_create_run [of stored "''tls.pem''" tls_pem ?w2] by blast
  have "run_state (SyncSSLCertificate (cluster_ext stored) demo_client ''tls.pem'' tls_pem prev) w = ((True, None), w')"
    using assms
    by (simp add: SyncSSLCertificate_def leaf_run ready_run doRequest_def Let_def
        cert_read_run(1) [unfolded cert_endpoint_def append_Cons append_Nil] e1 not_found c(1) del: timeout_values)
  with c e show ?thesis by simp
qed

lemma sync_again:
  assumes "cl_stored (w_env w)"
  shows "\<exists>w'. run_state (SyncSSLCertificate (cluster_ext stored) demo_client ''tls.pem'' tls_pem True) w = ((False, None), w')
    \<and> still w w'"
proof -
  let ?w1 = "sent_to stored (version_request demo_client) w"
  let ?w2 = "sent_to stored (cert_read demo_client ''tls.pem'') ?w1"
  have s: "still w ?w2" using still_version cert_read_run(2) by (rule still.R_trans)
  have e1: "w_env ?w1 = w_env w" using still_version [of w stored] by (simp add: still_def)
  have "run_state (SyncSSLCertificate (cluster_ext stored) demo_client ''tls.pem'' tls_pem True) w = ((False, None), ?w2)"
    using assms
    by (simp add: SyncSSLCertificate_def leaf_run ready_run doRequest_def Let_def
        cert_read_run(1) [unfolded cert_endpoint_def append_Cons append_Nil] e1 serial_answer up_to_date_def del: timeout_values)
  with s show ?thesis by blast
qed

section \<open>Patching the config Secret\<close>

lemma merged_same: "merged s (mutated f s) s = mutated f s"
proof -
  have "fmfilter (\<lambda>k. \<not> patch_touches k s (mutated f s)) (go_map (s_annotations s)) ++\<^sub>f
      fmfilter (\<lambda>k. patch_touches k s (mutated f s)) (go_map (s_annotations (mutated f s)))
      = go_map (s_annotations (mutated f s))"
    by (rule fmap_ext) (simp add: patch_touches_def go_lookup_def fmlookup_dom_iff)
  then show ?thesis by (simp add: merged_def mutated_def)
qed

lemma merged_annotation:
  "annotation (merged orig new st) k = (if patch_touches k orig new then annotation new k else annotation st k)"
  by (simp add: merged_def go_get_def patch_touches_def go_lookup_def fmlookup_dom_iff split: option.split)

lemma patch_touches_changed: "annotation orig k \<noteq> annotation new k \<Longrightarrow> patch_touches k orig new"
  by (auto simp: patch_touches_def go_get_def)

lemma cluster_patched:
  assumes "key_of s = key_of (cl_config (w_env w))"
  shows "\<exists>w'. run_state (patchAnnotations (cluster_ext stored) s f) w
      = ((None, merged s (mutated f s) (cl_config (w_env w))), w')
    \<and> w_env w' = (w_env w)\<lparr>cl_config := merged s (mutated f s) (cl_config (w_env w))\<rparr> \<and> w_rec w' = w_rec w"
  using assms by (simp add: patchAnnotations_def kube_patch_def cluster_patch_def)

lemma emit_still: "rel still (emit rc obj reason m)"
  by (auto simp: rel_def emit_def still_def split: option.split)

lemma emit_run: obtains w' where "run_state (emit rc obj reason m) w = ((), w')" "still w w'"
  using relD [OF emit_still, of w rc obj reason m]
  by (metis (full_types) old.unit.exhaust prod.collapse)

definition sync_text :: "string \<Rightarrow> string" where
  "sync_text time = encode_state (fmupd ''tls'' \<lparr>ce_hash = HashBytes tls_pem, ce_time = time\<rparr> fmempty)"

lemma sync_record:
  assumes "plain time" "annotation s CertSyncAnnotation = sync_text time"
  shows "entry_hash (certSyncState (Some s)) ''tls'' = HashBytes tls_pem"
proof -
  have hx: "is_hex c \<Longrightarrow> plain_char c" for c by (auto simp: is_hex_def plain_char_def)
  then have "plain (HashBytes tls_pem)" using sha.hash_digits [of tls_pem] by (auto simp: list_all_iff)
  moreover have "sorted_list_of_fset (fmdom (fmupd ''tls'' e fmempty)) = [''tls'']" for e :: cert_entry
    by (simp add: sorted_list_of_fset.rep_eq)
  ultimately have "valid_state (fmupd ''tls'' \<lparr>ce_hash = HashBytes tls_pem, ce_time = time\<rparr> fmempty)"
    using assms(1) plain_valid [of "''tls''"]
    by (simp add: valid_state_def state_entries_def valid_entry_def plain_valid plain_char_def)
  from decode_encode_state [OF this, of s]
  have "certSyncState (Some (mutated (record_cert_sync (sync_text time)) s))
      = Some (fmupd ''tls'' \<lparr>ce_hash = HashBytes tls_pem, ce_time = time\<rparr> fmempty)"
    by (simp only: sync_text_def)
  moreover have "certSyncState (Some (mutated (record_cert_sync (sync_text time)) s)) = certSyncState (Some s)"
    by (simp add: certSyncState_def annotation_map record_cert_sync_def assms(2) [unfolded annotation_map])
  ultimately show ?thesis by (simp add: entry_hash_def)
qed

abbreviation demo_time :: string where
  "demo_time \<equiv> ''2025-01-01T00:00:00Z''"

lemma demo_time_plain: "plain demo_time"
  by (simp add: plain_char_def)

lemma tls_name [simp]: "s_name tls_secret = ''tls''" "key_of tls_secret = (''ns'', ''tls'')"
  by (simp_all add: tls_secret_def key_of_def)

lemma no_record: "entry_hash (Some fmempty) n = []" "([] = HashBytes m) = False"
  using sha.hash_nonempty [of m] by (simp_all add: entry_hash_def)

lemma push_first:
  assumes "cl_config (w_env w) = s" "\<not> cl_stored (w_env w)" "certSyncState (Some s) = Some fmempty"
  shows "\<exists>w'. run_state (pushCertSecret (cluster_ext stored) demo_client tls_secret (Some s)) w
      = ((Returned (True, None), Some (mutated (record_cert_sync (sync_text demo_time)) s)), w')
    \<and> w_env w' = (w_env w)\<lparr>cl_stored := True, cl_config := mutated (record_cert_sync (sync_text demo_time)) s\<rparr>
    \<and> w_rec w' = (w_rec w)\<lparr>certSyncHashes := fmupd ''tls'' (HashBytes tls_pem) (certSyncHashes (w_rec w))\<rparr>"
proof -
  let ?prev = "cert_hash (w_rec w) ''tls'' = HashBytes tls_pem"
  obtain w1 where s1: "run_state (SyncSSLCertificate (cluster_ext stored) demo_client ''tls.pem'' tls_pem ?prev) w = ((True, None), w1)"
    "w_env w1 = (w_env w)\<lparr>cl_stored := True\<rparr>" "w_rec w1 = w_rec w"
    using sync_first [OF assms(2), of stored ?prev] by blast
  let ?w2 = "w1\<lparr>w_rec := (w_rec w1)\<lparr>certSyncHashes := fmupd ''tls'' (HashBytes tls_pem) (certSyncHashes (w_rec w1))\<rparr>\<rparr>"
  have "key_of s = key_of (cl_config (w_env ?w2))" using assms(1) s1(2) by simp
  from cluster_patched [OF this, of stored "record_cert_sync (sync_text demo_time)"] obtain w' where
    p: "run_state (patchAnnotations (cluster_ext stored) s (record_cert_sync (sync_text demo_time))) ?w2
      = ((None, mutated (record_cert_sync (sync_text demo_time)) s), w')"
    "w_env w' = (w_env w)\<lparr>cl_stored := True, cl_config := mutated (record_cert_sync (sync_text demo_time)) s\<rparr>"
    "w_rec w' = w_rec ?w2"
    using assms(1) s1(2) by (auto simp: merged_same)
  have "run_state (pushCertSecret (cluster_ext stored) demo_client tls_secret (Some s)) w
      = ((Returned (True, None), Some (mutated (record_cert_sync (sync_text demo_time)) s)), w')"
    using s1(1) p(1) by (simp add: pushCertSecret_def tls_bundle assms(3) sync_text_def Let_def no_record)
  with p(2,3) s1(3) show ?thesis by simp
qed

lemma push_again:
  assumes "cl_stored (w_env w)" "entry_hash (certSyncState (Some s)) ''tls'' = HashBytes tls_pem"
    "cert_hash (w_rec w) ''tls'' = HashBytes tls_pem"
  shows "\<exists>w'. run_state (pushCertSecret (cluster_ext stored) demo_client tls_secret (Some s)) w
      = ((Returned (False, None), Some s), w') \<and> w_env w' = w_env w \<and> haproxyClient (w_rec w') = haproxyClient (w_rec w)"
proof -
  obtain w1 where s1: "run_state (SyncSSLCertificate (cluster_ext stored) demo_client ''tls.pem'' tls_pem True) w = ((False, None), w1)"
    "still w w1"
    using sync_again [OF assms(1), of stored] by blast
  let ?w2 = "w1\<lparr>w_rec := (w_rec w1)\<lparr>certSyncHashes := fmupd ''tls'' (HashBytes tls_pem) (certSyncHashes (w_rec w1))\<rparr>\<rparr>"
  have "run_state (pushCertSecret (cluster_ext stored) demo_client tls_secret (Some s)) w = ((Returned (False, None), Some s), ?w2)"
    using s1(1) by (simp add: pushCertSecret_def tls_bundle assms(2,3) Let_def)
  with s1(2) show ?thesis by (simp add: still_def)
qed

lemma validate_run:
  assumes "raw \<noteq> []"
  shows "\<exists>w'. run_state (validate_phase (cluster_ext stored) cfg demo_client s h raw) w = (None, w') \<and> still w w'"
proof -
  let ?w0 = "snd (run_state (count_attempt ''validate'') w)"
  obtain w' where "run_state (post_raw (cluster_ext stored) demo_client validate_endpoint raw) ?w0 = (None, w')" "still ?w0 w'"
    using post_run [of validate_endpoint raw stored ?w0] validate_request_kind(1) [of demo_client raw]
    by (auto simp: post_raw_instances(3) [symmetric])
  with assms show ?thesis
    by (simp add: validate_phase_def Validate_def post_raw_instances count_attempt_def still_def)
qed

lemma apply_run:
  "\<exists>w'. run_state (apply_phase (cluster_ext stored) cfg demo_client s h raw) w = (None, w') \<and> still w w'"
proof -
  obtain w0 where e: "run_state (emit (Recorder cfg) (key_of s) ValidationPassed []) w = ((), w0)" "still w w0"
    by (rule emit_run)
  let ?w1 = "snd (run_state (count_attempt ''apply'') w0)"
  let ?w2 = "sent_to stored (version_request demo_client) ?w1"
  obtain w' where "run_state (post_raw (cluster_ext stored) demo_client apply_endpoint raw) ?w2 = (None, w')" "still ?w2 w'"
    using post_run [of apply_endpoint raw stored ?w2] apply_request_kind(1) [of demo_client raw]
    by (auto simp: post_raw_instances(4) [symmetric])
  moreover have "still w0 ?w2"
    using still_version [of ?w1 stored] by (simp add: still_def count_attempt_def)
  moreover have "run_state (apply_phase (cluster_ext stored) cfg demo_client s h raw) w
      = (case run_state (post_raw (cluster_ext stored) demo_client apply_endpoint raw) ?w2 of
           (None, w') \<Rightarrow> (None, w')
         | (Some err, w') \<Rightarrow> run_state (do {
             count_result (StatusValue (classify_err err));
             r \<leftarrow> (if classify_err err = ClassConfigRejected then reject_config (cluster_ext stored) cfg s h err
                   else transient_failure (cluster_ext stored) cfg s ''Apply'' err);
             ret (Some r)
           }) w')"
    by (simp add: apply_phase_def e(1) ApplyRawConfigurationValidated_def ready_run post_raw_instances
        count_attempt_def del: timeout_values split: option.split prod.split)
  ultimately show ?thesis using e(2) by (auto intro: still.R_trans)
qed

lemma record_run:
  assumes "key_of s = key_of (cl_config (w_env w))"
  shows "\<exists>w'. run_state (record_phase (cluster_ext stored) cfg demo_client s h) w = (RequeueAfter RequeueInterval, w')
    \<and> w_env w' = (w_env w)\<lparr>cl_config := merged s (mutated (record_applied h (HashBytes stored) demo_time) s) (cl_config (w_env w))\<rparr>"
proof -
  obtain w0 where e: "run_state (emit (Recorder cfg) (key_of s) ApplySucceeded []) w = ((), w0)" "still w w0"
    by (rule emit_run)
  define wa where "wa = (let
      w2 = snd (run_state (count_result ''applied'') w0);
      w3 = snd (run_state (exportConfigHash h ''applied'') w2);
      w4 = w3\<lparr>w_metrics := (w_metrics w3)\<lparr>LastSuccessfulApply := w_now w3\<rparr>\<rparr>;
      w5 = snd (run_state (set_in_sync (s_name s) 1) w4)
    in w5\<lparr>w_rec := (w_rec w5)\<lparr>transientFailures := 0\<rparr>\<rparr>)"
  have a: "w_env wa = w_env w"
    using e(2) by (simp add: wa_def Let_def count_result_def exportConfigHash_run set_in_sync_def still_def)
  obtain wb where b: "run_state (GetRawConfiguration (cluster_ext stored) demo_client) wa = (Inr stored, wb)" "w_env wb = w_env w"
    using live_run [of stored wa] a by (auto simp: still_def)
  let ?f = "record_applied h (HashBytes stored) demo_time"
  obtain w' where p: "run_state (patchAnnotations (cluster_ext stored) s ?f) wb
      = ((None, merged s (mutated ?f s) (cl_config (w_env w))), w')"
    "w_env w' = (w_env w)\<lparr>cl_config := merged s (mutated ?f s) (cl_config (w_env w))\<rparr>"
    using cluster_patched [of s wb stored ?f] assms b(2) by auto
  have "run_state (record_phase (cluster_ext stored) cfg demo_client s h) w = (RequeueAfter RequeueInterval, w')"
    using b(1) p(1)
    by (simp add: record_phase_def observe_applied_def wa_def Let_def e(1) count_result_def
        exportConfigHash_run set_in_sync_def)
  with p(2) show ?thesis by blast
qed

section \<open>A certificate event after a rejection\<close>

definition cert_settings :: settings where
  "cert_settings = demo_settings\<lparr>CertsSecretNames := [''tls'']\<rparr>"

lemma cert_settings_simps [simp]:
  "SecretName cert_settings = ''haproxy-config''" "SecretKey cert_settings = ''haproxy.cfg''"
  "CertsSecretNames cert_settings = [''tls'']" "DriftRemediate cert_settings"
  by (simp_all add: cert_settings_def demo_settings_def)

lemma tls_get:
  assumes "key_of (cl_config (w_env w)) = config_key" "cl_tls (w_env w) = tls_secret"
  shows "\<exists>w'. run_state (kube_get (cluster_ext stored) (''ns'', ''tls'')) w = (Inr tls_secret, w') \<and> still w w'"
  using assms by (simp add: kube_get_def cluster_get_def config_key_def still_def)

lemma config_get:
  assumes "key_of (cl_config (w_env w)) = config_key"
  shows "\<exists>w'. run_state (kube_get (cluster_ext stored) config_key) w = (Inr (cl_config (w_env w)), w') \<and> still w w'"
  using assms by (simp add: kube_get_def cluster_get_def still_def)

text \<open>The certificate event: the bundle is pushed, the sync record is written, and the caller goes on
  with a config Secret that no longer has the rejected hash, though the API server's still has it.\<close>

lemma cert_event_run:
  assumes "cl_config (w_env w) = s" "cl_tls (w_env w) = tls_secret" "\<not> cl_stored (w_env w)"
    "key_of s = config_key" "certSyncState (Some s) = Some fmempty" "hclient w = Some demo_client"
    "\<not> has_prefix (annotation s StatusAnnotation) ''CertSync''"
  shows "\<exists>w'. run_state (reconcile_cert (cluster_ext stored) cert_settings (''ns'', ''tls'') tls_secret) w
      = (Inr (forget_rejection (mutated (record_cert_sync (sync_text demo_time)) s)), w')
    \<and> w_env w' = (w_env w)\<lparr>cl_stored := True, cl_config := mutated (record_cert_sync (sync_text demo_time)) s\<rparr>
    \<and> hclient w' = Some demo_client \<and> cert_hash (w_rec w') ''tls'' = HashBytes tls_pem"
proof -
  let ?s1 = "mutated (record_cert_sync (sync_text demo_time)) s"
  obtain w1 where g: "run_state (kube_get (cluster_ext stored) config_key) w = (Inr s, w1)" "still w w1"
    using config_get [of w stored] assms(1,4) by auto
  then obtain w2 where p: "run_state (pushCertSecret (cluster_ext stored) demo_client tls_secret (Some s)) w1
      = ((Returned (True, None), Some ?s1), w2)"
    "w_env w2 = (w_env w)\<lparr>cl_stored := True, cl_config := ?s1\<rparr>"
    "w_rec w2 = (w_rec w)\<lparr>certSyncHashes := fmupd ''tls'' (HashBytes tls_pem) (certSyncHashes (w_rec w))\<rparr>"
    using push_first [of w1 s stored] assms(1,3,5) by (auto simp: still_def)
  obtain w3 where e: "run_state (emit (Recorder cert_settings) (''ns'', ''tls'') CertSynced (pushed_message ''tls'')) w2 = ((), w3)"
    "still w2 w3" by (rule emit_run)
  have st: "annotation ?s1 StatusAnnotation = annotation s StatusAnnotation"
    by (simp add: annotation_map record_cert_sync_def annotation_defs)
  have k: "(''ns'', ''haproxy-config'') = config_key" by (simp add: config_key_def)
  have "run_state (syncCertSecret (cluster_ext stored) cert_settings False tls_secret (Some s)) w1 = ((Returned None, Some ?s1), w3)"
    using g(2) assms(6) p(1) e(1)
    by (simp add: syncCertSecret_def getOrCreateClient_def still_def)
  then have "run_state (reconcile_cert (cluster_ext stored) cert_settings (''ns'', ''tls'') tls_secret) w = (Inr (forget_rejection ?s1), w3)"
    using assms(7) st
    by (simp add: reconcile_cert_def find_config_secret_def k g(1) clear_stale_def)
  with p e(2) assms(6) show ?thesis by (simp add: still_def cert_hash_def)
qed

lemma ensure_run:
  assumes "cl_stored (w_env w)" "cl_tls (w_env w) = tls_secret" "key_of (cl_config (w_env w)) = config_key"
    "entry_hash (certSyncState (Some s)) ''tls'' = HashBytes tls_pem" "cert_hash (w_rec w) ''tls'' = HashBytes tls_pem"
  shows "\<exists>w'. run_state (ensureCertSecretsSynced (cluster_ext stored) ''ns'' demo_client [''tls''] s) w
      = ((Returned None, s), w') \<and> w_env w' = w_env w \<and> hclient w' = hclient w"
proof -
  obtain w1 where g: "run_state (kube_get (cluster_ext stored) (''ns'', ''tls'')) w = (Inr tls_secret, w1)" "still w w1"
    using tls_get [OF assms(3,2)] by blast
  then obtain w2 where "run_state (pushCertSecret (cluster_ext stored) demo_client tls_secret (Some s)) w1
      = ((Returned (False, None), Some s), w2)" "w_env w2 = w_env w" "hclient w2 = hclient w"
    using push_again [of w1 s stored] assms(1,4,5) by (auto simp: still_def)
  with g(1) show ?thesis by simp
qed

lemma prepare_run:
  assumes "hclient w = Some demo_client" "annotation s LastFailedHashAnnotation \<noteq> h" "s_namespace s = ''ns''"
    "cl_stored (w_env w)" "cl_tls (w_env w) = tls_secret" "key_of (cl_config (w_env w)) = config_key"
    "entry_hash (certSyncState (Some s)) ''tls'' = HashBytes tls_pem" "cert_hash (w_rec w) ''tls'' = HashBytes tls_pem"
  shows "\<exists>w'. run_state (prepare (cluster_ext stored) cert_settings s h) w = (Inr (demo_client, s), w') \<and> w_env w' = w_env w"
proof -
  obtain w0 where n: "run_state (note_desired h) w = ((), w0)" "w_env w0 = w_env w" "hclient w0 = Some demo_client"
    "cert_hash (w_rec w0) ''tls'' = HashBytes tls_pem"
    using assms(1,8) by (simp add: note_desired_def cert_hash_def)
  obtain w1 where c: "run_state (count_attempt ''cert-sync'') w0 = ((), w1)" "w_env w1 = w_env w"
    "cert_hash (w_rec w1) ''tls'' = HashBytes tls_pem"
    using n by (simp add: count_attempt_def)
  then obtain w' where "run_state (ensureCertSecretsSynced (cluster_ext stored) ''ns'' demo_client [''tls''] s) w1
      = ((Returned None, s), w')" "w_env w' = w_env w"
    using ensure_run [of w1 s stored] assms by auto
  then have "run_state (prepare (cluster_ext stored) cert_settings s h) w = (Inr (demo_client, s), w')"
    using assms(2,3)
    by (simp add: prepare_def getOrCreateClient_def n(1,3) c(1) del: ensureCertSecretsSynced.simps)
  with \<open>w_env w' = w_env w\<close> show ?thesis by blast
qed

lemma config_after_cert:
  assumes "hclient w = Some demo_client" "annotation s LastFailedHashAnnotation \<noteq> HashBytes raw"
    "annotation s LastAppliedHashAnnotation \<noteq> HashBytes raw" "key_of s = config_key" "raw \<noteq> []"
    "go_lookup (s_data s) ''haproxy.cfg'' = Some raw"
    "cl_stored (w_env w)" "cl_tls (w_env w) = tls_secret" "key_of (cl_config (w_env w)) = config_key"
    "entry_hash (certSyncState (Some s)) ''tls'' = HashBytes tls_pem" "cert_hash (w_rec w) ''tls'' = HashBytes tls_pem"
  shows "\<exists>w'. run_state (reconcile_config (cluster_ext stored) cert_settings s) w = (RequeueAfter RequeueInterval, w')
    \<and> w_env w' = (w_env w)\<lparr>cl_config :=
        merged s (mutated (record_applied (HashBytes raw) (HashBytes stored) demo_time) s) (cl_config (w_env w))\<rparr>"
proof -
  have n: "s_namespace s = ''ns''" "s_name s = ''haproxy-config''"
    using assms(4) by (simp_all add: key_of_def config_key_def)
  obtain w1 where p: "run_state (prepare (cluster_ext stored) cert_settings s (HashBytes raw)) w = (Inr (demo_client, s), w1)"
    "w_env w1 = w_env w"
    using prepare_run [OF assms(1,2) n(1) assms(7-11)] by blast
  obtain w2 where v: "run_state (validate_phase (cluster_ext stored) cert_settings demo_client s (HashBytes raw) raw) w1 = (None, w2)"
    "still w1 w2" using validate_run [OF assms(5)] by blast
  obtain w3 where a: "run_state (apply_phase (cluster_ext stored) cert_settings demo_client s (HashBytes raw) raw) w2 = (None, w3)"
    "still w2 w3" using apply_run by blast
  have e: "w_env w3 = w_env w" using p(2) v(2) a(2) by (simp add: still_def)
  then obtain w' where r: "run_state (record_phase (cluster_ext stored) cert_settings demo_client s (HashBytes raw)) w3
      = (RequeueAfter RequeueInterval, w')"
    "w_env w' = (w_env w)\<lparr>cl_config :=
        merged s (mutated (record_applied (HashBytes raw) (HashBytes stored) demo_time) s) (cl_config (w_env w))\<rparr>"
    using record_run [of s w3 stored cert_settings "HashBytes raw"] assms(4,9) by auto
  have "run_state (reconcile_config (cluster_ext stored) cert_settings s) w = (RequeueAfter RequeueInterval, w')"
    using assms(3,6) n(2) p(1) v(1) a(1) r(1)
    by (simp add: reconcile_config_def shouldReconcile_def push_config_def Let_def)
  with r(2) show ?thesis by blast
qed

text \<open>The config Secret whose bytes are recorded as rejected, with the sync record in it, without the
  rejection in memory, and with the apply recorded.\<close>

abbreviation rejected :: "string \<Rightarrow> secret" where
  "rejected raw \<equiv> config_secret raw (fmupd LastFailedHashAnnotation (HashBytes raw) fmempty)"

abbreviation synced :: "string \<Rightarrow> secret" where
  "synced raw \<equiv> mutated (record_cert_sync (sync_text demo_time)) (rejected raw)"

abbreviation applied_again :: "string \<Rightarrow> string \<Rightarrow> secret" where
  "applied_again stored raw \<equiv>
     mutated (record_applied (HashBytes raw) (HashBytes stored) demo_time) (forget_rejection (synced raw))"

lemma rejected_cert_run:
  obtains w0 w1 where "run_state (kube_get (cluster_ext stored) (''ns'', ''tls'')) (running_world raw
      (fmupd LastFailedHashAnnotation (HashBytes raw) fmempty)) = (Inr tls_secret, w0)"
    "run_state (reconcile_cert (cluster_ext stored) cert_settings (''ns'', ''tls'') tls_secret) w0
      = (Inr (forget_rejection (synced raw)), w1)"
    "w_env w1 = \<lparr>cl_config = synced raw, cl_tls = tls_secret, cl_stored = True, cl_running = ''old''\<rparr>" "hclient w1 = Some demo_client"
    "cert_hash (w_rec w1) ''tls'' = HashBytes tls_pem"
proof -
  let ?w = "running_world raw (fmupd LastFailedHashAnnotation (HashBytes raw) fmempty)"
  have env: "w_env ?w = \<lparr>cl_config = rejected raw, cl_tls = tls_secret, cl_stored = False, cl_running = ''old''\<rparr>"
    by (simp add: running_world_def initial_world_def demo_cluster_def)
  have key: "key_of (rejected raw) = config_key" by (simp add: key_of_def config_secret_def config_key_def)
  obtain w0 where g: "run_state (kube_get (cluster_ext stored) (''ns'', ''tls'')) ?w = (Inr tls_secret, w0)" "still ?w w0"
    using tls_get [of ?w stored] env key by auto
  have "annotation (rejected raw) CertSyncAnnotation = []"
    "\<not> has_prefix (annotation (rejected raw) StatusAnnotation) ''CertSync''"
    by (simp_all add: annotation_defs has_prefix_def)
  moreover have "decode_all [] = None" by code_simp
  ultimately have "certSyncState (Some (rejected raw)) = Some fmempty"
    "\<not> has_prefix (annotation (rejected raw) StatusAnnotation) ''CertSync''"
    by (simp_all add: certSyncState_def)
  with g(1) that show ?thesis
    using cert_event_run [of w0 "rejected raw" stored] env key g(2) by (auto simp: still_def running_world_def)
qed

lemma forgotten_rejection:
  "annotation (forget_rejection (synced raw)) LastFailedHashAnnotation = []"
  "annotation (forget_rejection (synced raw)) LastAppliedHashAnnotation = []"
  "annotation (forget_rejection (synced raw)) StatusAnnotation = []"
  "annotation (forget_rejection (synced raw)) CertSyncAnnotation = sync_text demo_time"
  "key_of (forget_rejection (synced raw)) = config_key" "key_of (synced raw) = config_key"
  "go_lookup (s_data (forget_rejection (synced raw))) ''haproxy.cfg'' = Some raw"
  by (simp_all add: forget_rejection_def mutated_def record_cert_sync_def config_secret_def key_of_def config_key_def
      annotation_defs go_lookup_def go_get_def go_delete_def)

text \<open>The success patch carries no deletion of the rejection, so the stored Secret keeps it.\<close>

lemma rejection_not_deleted:
  "annotation (merged (forget_rejection (synced raw)) (applied_again stored raw) (synced raw)) LastAppliedHashAnnotation = HashBytes raw"
  "annotation (merged (forget_rejection (synced raw)) (applied_again stored raw) (synced raw)) StatusAnnotation = ''Applied''"
  "annotation (merged (forget_rejection (synced raw)) (applied_again stored raw) (synced raw)) LastFailedHashAnnotation = HashBytes raw"
proof -
  have new: "annotation (applied_again stored raw) LastAppliedHashAnnotation = HashBytes raw"
    "annotation (applied_again stored raw) StatusAnnotation = ''Applied''"
    using record_applied_annotations [of "HashBytes raw" "HashBytes stored" demo_time "forget_rejection (synced raw)"]
    by (simp_all add: recorded_applied_def)
  have ne: "HashBytes raw \<noteq> []" by (rule sha.hash_nonempty)
  have t1: "patch_touches LastAppliedHashAnnotation (forget_rejection (synced raw)) (applied_again stored raw)"
    by (rule patch_touches_changed) (use forgotten_rejection(2) [of raw] new(1) ne in argo)
  have t2: "patch_touches StatusAnnotation (forget_rejection (synced raw)) (applied_again stored raw)"
    by (rule patch_touches_changed) (simp only: forgotten_rejection(3) new(2) list.distinct not_False_eq_True)
  have t3: "\<not> patch_touches LastFailedHashAnnotation (forget_rejection (synced raw)) (applied_again stored raw)"
    by (simp add: patch_touches_def forget_rejection_def mutated_def record_applied_def go_lookup_def go_delete_def annotation_defs)
  have old: "annotation (synced raw) LastFailedHashAnnotation = HashBytes raw"
    by (simp add: annotation_map record_cert_sync_def annotation_defs config_secret_def)
  show "annotation (merged (forget_rejection (synced raw)) (applied_again stored raw) (synced raw)) LastAppliedHashAnnotation = HashBytes raw"
    "annotation (merged (forget_rejection (synced raw)) (applied_again stored raw) (synced raw)) StatusAnnotation = ''Applied''"
    "annotation (merged (forget_rejection (synced raw)) (applied_again stored raw) (synced raw)) LastFailedHashAnnotation = HashBytes raw"
    by (simp_all only: merged_annotation t1 t2 t3 if_True if_False new old)
qed

text \<open>C16: a rejection outlives the apply that disproves it. The config Secret carries the hash of its own
  bytes as rejected; a certificate event pushes the bundle, ignores that record in memory, and the
  very same bytes are validated, applied and recorded as applied. The API server's Secret still
  names them as rejected afterwards, because the final patch is computed from the object in memory.\<close>

theorem stale_rejection_survives:
  "\<exists>w'. run_state (Reconcile (cluster_ext stored) cert_settings (''ns'', ''tls''))
      (running_world (c # cs) (fmupd LastFailedHashAnnotation (HashBytes (c # cs)) fmempty))
      = (RequeueAfter RequeueInterval, w')
    \<and> annotation (cl_config (w_env w')) LastAppliedHashAnnotation = HashBytes (c # cs)
    \<and> annotation (cl_config (w_env w')) StatusAnnotation = ''Applied''
    \<and> annotation (cl_config (w_env w')) LastFailedHashAnnotation = HashBytes (c # cs)"
proof -
  let ?raw = "c # cs" and ?w = "running_world (c # cs) (fmupd LastFailedHashAnnotation (HashBytes (c # cs)) fmempty)"
  let ?s = "forget_rejection (synced ?raw)"
  obtain w0 w1 where g: "run_state (kube_get (cluster_ext stored) (''ns'', ''tls'')) ?w = (Inr tls_secret, w0)"
    and ce: "run_state (reconcile_cert (cluster_ext stored) cert_settings (''ns'', ''tls'') tls_secret) w0 = (Inr ?s, w1)"
      "w_env w1 = \<lparr>cl_config = synced ?raw, cl_tls = tls_secret, cl_stored = True, cl_running = ''old''\<rparr>" "hclient w1 = Some demo_client"
      "cert_hash (w_rec w1) ''tls'' = HashBytes tls_pem"
    by (rule rejected_cert_run)
  obtain w' where r: "run_state (reconcile_config (cluster_ext stored) cert_settings ?s) w1 = (RequeueAfter RequeueInterval, w')"
    "w_env w' = (w_env w1)\<lparr>cl_config := merged ?s (applied_again stored ?raw) (synced ?raw)\<rparr>"
    using config_after_cert [of w1 ?s ?raw stored] ce(2-4) forgotten_rejection [of ?raw] sha.hash_nonempty [of ?raw]
      sync_record [OF demo_time_plain forgotten_rejection(4) [of ?raw]] by auto
  have run: "run_state (Reconcile (cluster_ext stored) cert_settings (''ns'', ''tls'')) ?w = (RequeueAfter RequeueInterval, w')"
    by (simp add: Reconcile_def g ce(1) r(1))
  have "cl_config (w_env w') = merged ?s (applied_again stored ?raw) (synced ?raw)" using r(2) by simp
  then show ?thesis
    by (intro exI [of _ w'] conjI run) (simp_all only: rejection_not_deleted)
qed

section \<open>A damaged sync record\<close>

lemma null_record: "decode_all ''null'' = Some JNull"
proof -
  have "parse_value (2 * length ''null'' + 2) maxNestingDepth ''null'' = Some (JNull, [])" by code_simp
  then show ?thesis by (simp add: decode_all_def skip_ws_def del: parse_value.simps)
qed

text \<open>C22: the sync record is the JSON text of a map, and the JSON value null is the nil map, which the
  next push writes to: the reconcile panics instead of starting from an empty record.\<close>

theorem null_record_panics:
  "fst (run_state (Reconcile (cluster_ext stored) cert_settings (''ns'', ''tls''))
     (running_world raw (fmupd CertSyncAnnotation ''null'' fmempty))) = PanicResult"
proof -
  let ?ann = "fmupd CertSyncAnnotation ''null'' fmempty"
  let ?s = "config_secret raw ?ann" and ?w = "running_world raw ?ann"
  have env: "w_env ?w = \<lparr>cl_config = ?s, cl_tls = tls_secret, cl_stored = False, cl_running = ''old''\<rparr>"
    by (simp add: running_world_def initial_world_def demo_cluster_def)
  have key: "key_of ?s = config_key" by (simp add: key_of_def config_secret_def config_key_def)
  obtain w0 where g: "run_state (kube_get (cluster_ext stored) (''ns'', ''tls'')) ?w = (Inr tls_secret, w0)" "still ?w w0"
    using tls_get [of ?w stored] env key by auto
  obtain w1 where g1: "run_state (kube_get (cluster_ext stored) config_key) w0 = (Inr ?s, w1)" "still w0 w1"
    using config_get [of w0 stored] env key g(2) by (auto simp: still_def)
  have st: "certSyncState (Some ?s) = None" by (simp add: certSyncState_def null_record)
  have "\<not> cl_stored (w_env w1)" and c: "hclient w1 = Some demo_client" and e: "certSyncHashes (w_rec w1) = fmempty"
    using env g(2) g1(2) by (simp_all add: still_def running_world_def initial_world_def initial_reconciler_def)
  then obtain w2 where "run_state (SyncSSLCertificate (cluster_ext stored) demo_client ''tls.pem'' tls_pem False) w1 = ((True, None), w2)"
    using sync_first [of w1 stored False] by blast
  then have p: "fst (run_state (pushCertSecret (cluster_ext stored) demo_client tls_secret (Some ?s)) w1) = (Panicked, Some ?s)"
    by (simp add: pushCertSecret_def tls_bundle st Let_def no_record entry_hash_def cert_hash_def e)
  then have "fst (run_state (syncCertSecret (cluster_ext stored) cert_settings False tls_secret (Some ?s)) w1) = (Panicked, Some ?s)"
    by (auto simp: syncCertSecret_def getOrCreateClient_def c split: prod.split)
  moreover have k: "(''ns'', ''haproxy-config'') = config_key" by (simp add: config_key_def)
  ultimately have "fst (run_state (reconcile_cert (cluster_ext stored) cert_settings (''ns'', ''tls'') tls_secret) w0) = Inl PanicResult"
    by (auto simp: reconcile_cert_def find_config_secret_def k g1(1) split: prod.split)
  then show ?thesis by (auto simp: Reconcile_def g(1) split: prod.split)
qed

end
