(* ===== verification/Tls_Trust.thy ===== *)
theory Tls_Trust
  imports Cert_Laws Reconcile_Frame
begin

text \<open>
  Who the TLS connections trust: the callbacks \<^verbatim>\<open>NewClient\<close> installs for mounted files
  (\<^verbatim>\<open>VerifyPeerCertificate\<close>, \<^verbatim>\<open>GetClientCertificate\<close>) and those of
  \<^verbatim>\<open>internal/spire/transport.go\<close>. Chain verification, the SPIRE source and the standard
  handshake are parameters; the code decides which roots, which name and which intermediates they
  are asked about, and reads the trust material anew on every handshake.
\<close>

section \<open>The environment of a handshake\<close>

datatype root_pool = FilePool bytes | BundlePool "x509_certificate list"

record verify_options =
  vo_leaf :: x509_certificate
  vo_dns :: string
  vo_roots :: root_pool
  vo_intermediates :: "x509_certificate list"

text \<open>A SPIFFE identity document: the trust domain of its ID and its chain.\<close>

record svid =
  sv_domain :: string
  sv_certificates :: "x509_certificate list"

record 'e tls_env =
  t_verify :: "verify_options \<Rightarrow> 'e \<Rightarrow> goerr option \<times> 'e"
  t_svid :: "'e \<Rightarrow> (goerr + svid) \<times> 'e"
  t_bundle :: "string \<Rightarrow> 'e \<Rightarrow> (goerr + x509_certificate list) \<times> 'e"
  t_standard :: "string \<Rightarrow> bytes list \<Rightarrow> 'e \<Rightarrow> goerr option \<times> 'e"

section \<open>Mounted files\<close>

primrec parse_chain :: "'e ext \<Rightarrow> bytes list \<Rightarrow> goerr + x509_certificate list" where
  "parse_chain x [] = Inr []"
| "parse_chain x (der # ders) =
    (case x_parse_cert x der of
       Inl err \<Rightarrow> Inl (Wrap ''parse dataplane chain cert: '' err [])
     | Inr cert \<Rightarrow> (case parse_chain x ders of Inl err \<Rightarrow> Inl err | Inr certs \<Rightarrow> Inr (cert # certs)))"

definition VerifyPeerCertificate ::
  "'e ext \<Rightarrow> 'e tls_env \<Rightarrow> api_config \<Rightarrow> url \<Rightarrow> bytes list \<Rightarrow> ('e, goerr option) go" where
  "VerifyPeerCertificate x t cfg u rawCerts =
    (case rawCerts of
       [] \<Rightarrow> ret (Some (PlainError ''dataplane server presented no certificates''))
     | first # rest \<Rightarrow> do {
         pool \<leftarrow> loadCAPool x (CACertPath cfg);
         (case pool of
            Inl err \<Rightarrow> ret (Some err)
          | Inr roots \<Rightarrow>
              (case x_parse_cert x first of
                 Inl err \<Rightarrow> ret (Some (Wrap ''parse dataplane server cert: '' err []))
               | Inr leaf \<Rightarrow>
                   (case parse_chain x rest of
                      Inl err \<Rightarrow> ret (Some err)
                    | Inr certs \<Rightarrow>
                        env_call (t_verify t \<lparr>vo_leaf = leaf, vo_dns = hostname u, vo_roots = FilePool roots,
                          vo_intermediates = certs\<rparr>))))
       })"

definition GetClientCertificate :: "'e ext \<Rightarrow> api_config \<Rightarrow> ('e, goerr option) go" where
  "GetClientCertificate x cfg = do {
     r \<leftarrow> env_call (x_load_pair x (ClientCertPath cfg) (ClientKeyPath cfg));
     ret (map_option (\<lambda>err. Wrap ''reload dataplane client cert/key: '' err []) r)
   }"

section \<open>SPIRE\<close>

text \<open>Intermediates that do not parse are skipped.\<close>

definition parsed_chain :: "'e ext \<Rightarrow> bytes list \<Rightarrow> x509_certificate list" where
  "parsed_chain x ders =
    List.map_filter (\<lambda>der. case x_parse_cert x der of Inl err \<Rightarrow> None | Inr cert \<Rightarrow> Some cert) ders"

definition verifyServerCert :: "'e ext \<Rightarrow> 'e tls_env \<Rightarrow> bytes list \<Rightarrow> ('e, goerr option) go" where
  "verifyServerCert x t rawCerts =
    (case rawCerts of
       [] \<Rightarrow> ret (Some (PlainError ''server presented no certificates''))
     | first # rest \<Rightarrow> do {
         own \<leftarrow> env_call (t_svid t);
         (case own of
            Inl err \<Rightarrow> ret (Some (Wrap ''get SVID for trust domain: '' err []))
          | Inr doc \<Rightarrow> do {
              bundle \<leftarrow> env_call (t_bundle t (sv_domain doc));
              (case bundle of
                 Inl err \<Rightarrow> ret (Some (Wrap ''get trust bundle: '' err []))
               | Inr authorities \<Rightarrow>
                   (case x_parse_cert x first of
                      Inl err \<Rightarrow> ret (Some (Wrap ''parse server leaf certificate: '' err []))
                    | Inr leaf \<Rightarrow> do {
                        r \<leftarrow> env_call (t_verify t \<lparr>vo_leaf = leaf, vo_dns = [], vo_roots = BundlePool authorities,
                               vo_intermediates = parsed_chain x rest\<rparr>);
                        ret (map_option (\<lambda>err. Wrap ''server certificate verification failed: '' err []) r)
                      }))
            })
       })"

definition spire_client_certificate :: "'e tls_env \<Rightarrow> ('e, goerr + bytes list) go" where
  "spire_client_certificate t = do {
     own \<leftarrow> env_call (t_svid t);
     ret (case own of
            Inl err \<Rightarrow> Inl (Wrap ''get X.509 SVID: '' err [])
          | Inr doc \<Rightarrow> Inr (map cert_raw (sv_certificates doc)))
   }"

section \<open>The handshake\<close>

text \<open>The part of a \<^verbatim>\<open>tls.Config\<close> the clients set; a missing callback is \<open>None\<close>, and of the client
  certificate the errors are kept.\<close>

record 'e tls_config =
  InsecureSkipVerify :: bool
  PeerCallback :: "(bytes list \<Rightarrow> ('e, goerr option) go) option"
  ClientCallback :: "('e, goerr option) go option"

definition spire_tls_config :: "'e ext \<Rightarrow> 'e tls_env \<Rightarrow> 'e tls_config" where
  "spire_tls_config x t = \<lparr>InsecureSkipVerify = True, PeerCallback = Some (verifyServerCert x t),
     ClientCallback = Some (do {
       r \<leftarrow> spire_client_certificate t;
       ret (case r of Inl err \<Rightarrow> Some err | Inr certs \<Rightarrow> None)
     })\<rparr>"

text \<open>The configuration of each transport.\<close>

definition tls_config_of :: "'e ext \<Rightarrow> 'e tls_env \<Rightarrow> client \<Rightarrow> 'e tls_config" where
  "tls_config_of x t c =
    (case c_transport c of
       DefaultTransport \<Rightarrow> \<lparr>InsecureSkipVerify = False, PeerCallback = None, ClientCallback = None\<rparr>
     | HTTPTransport skip verify pair \<Rightarrow> \<lparr>InsecureSkipVerify = skip,
         PeerCallback = (if verify then Some (VerifyPeerCertificate x t (c_config c) (c_base c)) else None),
         ClientCallback = (if pair then Some (GetClientCertificate x (c_config c)) else None)\<rparr>
     | SpireTransport \<Rightarrow> spire_tls_config x t)"

text \<open>What \<^verbatim>\<open>crypto/tls\<close> asks on the client side: its own verification unless it is
  switched off, then the callback if there is one.\<close>

definition server_check :: "'e ext \<Rightarrow> 'e tls_env \<Rightarrow> client \<Rightarrow> bytes list \<Rightarrow> ('e, goerr option) go" where
  "server_check x t c rawCerts =
    (let tc = tls_config_of x t c in do {
       std \<leftarrow> (if InsecureSkipVerify tc then ret None else env_call (t_standard t (hostname (c_base c)) rawCerts));
       (case std of
          Some err \<Rightarrow> ret (Some err)
        | None \<Rightarrow> (case PeerCallback tc of None \<Rightarrow> ret None | Some verify \<Rightarrow> verify rawCerts))
     })"

lemma run_env_call [simp]: "run_state (env_call f) w = (fst (f (w_env w)), w\<lparr>w_env := snd (f (w_env w))\<rparr>)"
  by (simp add: env_call_def split: prod.split)

text \<open>What stands behind an accepted server. With mounted files: the CA file as it is in this state holds
  certificates, and the chain the server presents verified against them for the host of the URL.\<close>

definition accepted_by_files :: "'e ext \<Rightarrow> 'e tls_env \<Rightarrow> client \<Rightarrow> bytes list \<Rightarrow> 'e \<Rightarrow> bool" where
  "accepted_by_files x t c rawCerts e \<longleftrightarrow> (\<exists>first rest pem leaf certs e'. rawCerts = first # rest
    \<and> fst (x_read_file x (CACertPath (c_config c)) e) = Inr pem \<and> x_has_certs x pem
    \<and> x_parse_cert x first = Inr leaf \<and> parse_chain x rest = Inr certs
    \<and> fst (t_verify t \<lparr>vo_leaf = leaf, vo_dns = hostname (c_base c), vo_roots = FilePool pem,
         vo_intermediates = certs\<rparr> e') = None)"

text \<open>Over SPIRE: the bundle of the operator's own trust domain, both asked for in this handshake.\<close>

definition accepted_by_spire :: "'e ext \<Rightarrow> 'e tls_env \<Rightarrow> bytes list \<Rightarrow> 'e \<Rightarrow> 'e \<Rightarrow> bool" where
  "accepted_by_spire x t rawCerts e e' \<longleftrightarrow> (\<exists>first rest doc authorities leaf e1 e2. rawCerts = first # rest
    \<and> t_svid t e = (Inr doc, e1) \<and> t_bundle t (sv_domain doc) e1 = (Inr authorities, e2)
    \<and> x_parse_cert x first = Inr leaf
    \<and> t_verify t \<lparr>vo_leaf = leaf, vo_dns = [], vo_roots = BundlePool authorities,
         vo_intermediates = parsed_chain x rest\<rparr> e2 = (None, e'))"

lemma files_accept:
  assumes "c_transport c = HTTPTransport True True pair" "run_state (server_check x t c rawCerts) w = (None, w')"
  shows "accepted_by_files x t c rawCerts (w_env w)"
proof -
  have "run_state (VerifyPeerCertificate x t (c_config c) (c_base c) rawCerts) w = (None, w')"
    using assms by (simp add: server_check_def tls_config_of_def)
  then show ?thesis
    by (auto simp: VerifyPeerCertificate_def loadCAPool_def accepted_by_files_def
        split: list.splits sum.splits if_splits)
qed

lemma spire_accepts:
  assumes "c_transport c = SpireTransport" "run_state (server_check x t c rawCerts) w = (None, w')"
  shows "accepted_by_spire x t rawCerts (w_env w) (w_env w')"
proof -
  have "run_state (verifyServerCert x t rawCerts) w = (None, w')"
    using assms by (simp add: server_check_def tls_config_of_def spire_tls_config_def)
  then show ?thesis
    by (auto simp: verifyServerCert_def accepted_by_spire_def prod_eq_iff split: list.splits sum.splits)
qed

lemma NewClient_transport:
  assumes "run_state (NewClient x cfg) w = (Inr c, w')" "\<not> Insecure cfg" "u_scheme (c_base c) = ''https''"
  shows "c_config c = cfg \<and> c_transport c = HTTPTransport True True True"
  using assms
  by (auto simp: NewClient_def Let_def newClient_def split: sum.splits if_splits option.splits prod.splits)

text \<open>C30: unless verification is switched off, a client for an https URL accepts a server only when the
  chain it presents verifies, for the host of the URL, against the CA file as it is at this
  handshake, with every intermediate parsed.\<close>

theorem https_server_trusted:
  assumes "run_state (NewClient x cfg) w0 = (Inr c, w1)" "\<not> Insecure cfg" "u_scheme (c_base c) = ''https''"
    "run_state (server_check x t c rawCerts) w = (None, w')"
  shows "\<exists>first rest pem leaf certs e. rawCerts = first # rest
    \<and> fst (x_read_file x (CACertPath cfg) (w_env w)) = Inr pem \<and> x_has_certs x pem
    \<and> x_parse_cert x first = Inr leaf \<and> parse_chain x rest = Inr certs
    \<and> fst (t_verify t \<lparr>vo_leaf = leaf, vo_dns = hostname (c_base c), vo_roots = FilePool pem,
         vo_intermediates = certs\<rparr> e) = None"
proof -
  have c: "c_config c = cfg" "c_transport c = HTTPTransport True True True"
    using NewClient_transport [OF assms(1-3)] by simp_all
  show ?thesis
    using files_accept [OF c(2) assms(4)] by (simp only: accepted_by_files_def c(1))
qed

text \<open>C31: over SPIRE a server is accepted only when, in this very handshake, the source gave the operator's
  own identity, then the bundle of that identity's trust domain, and the chain the server presents
  verified against exactly that bundle, each asked in the state the step before left; the name is not
  part of the question, so every workload of the trust domain is accepted.\<close>

theorem spire_server_trusted:
  assumes "c_transport c = SpireTransport" "run_state (server_check x t c rawCerts) w = (None, w')"
  shows "\<exists>first rest doc authorities leaf e1 e2. rawCerts = first # rest
    \<and> t_svid t (w_env w) = (Inr doc, e1) \<and> t_bundle t (sv_domain doc) e1 = (Inr authorities, e2)
    \<and> x_parse_cert x first = Inr leaf
    \<and> t_verify t \<lparr>vo_leaf = leaf, vo_dns = [], vo_roots = BundlePool authorities,
         vo_intermediates = parsed_chain x rest\<rparr> e2 = (None, w_env w')"
  using spire_accepts [OF assms] by (simp only: accepted_by_spire_def)

lemma parsed_chain_filter:
  "parsed_chain x (filter (\<lambda>der. \<exists>cert. x_parse_cert x der = Inr cert) rest) = parsed_chain x rest"
  by (induction rest) (auto simp: parsed_chain_def List.map_filter_simps split: sum.splits)

text \<open>Over SPIRE an intermediate that does not parse makes no difference: the handshake ends as if the
  server had not sent it.\<close>

theorem spire_bad_intermediates_ignored:
  "run_state (verifyServerCert x t (first # rest)) w =
   run_state (verifyServerCert x t (first # filter (\<lambda>der. \<exists>cert. x_parse_cert x der = Inr cert) rest)) w"
  by (simp only: verifyServerCert_def list.case parsed_chain_filter)

section \<open>Examples\<close>

definition https_config :: api_config where
  "https_config = \<lparr>BaseURL = ''https://gw/v3'', Insecure = False, CACertPath = ''ca'', ClientCertPath = ''crt'',
     ClientKeyPath = ''key'', Username = [], Password = []\<rparr>"

definition https_ext :: "unit ext" where
  "https_ext = (plain_ext silent_http)\<lparr>
     x_url_parse := (\<lambda>s. Inr \<lparr>u_scheme = ''https'', u_host = ''gw'', u_path = ''/v3'', u_query = []\<rparr>)\<rparr>"

definition trusting_env :: "unit tls_env" where
  "trusting_env = \<lparr>t_verify = (\<lambda>opts e. (None, e)), t_svid = (\<lambda>e. (Inr \<lparr>sv_domain = ''d'', sv_certificates = []\<rparr>, e)),
     t_bundle = (\<lambda>d e. (Inr [], e)), t_standard = (\<lambda>h raw e. (None, e))\<rparr>"

definition https_client :: client where
  "https_client = newClient https_config
     \<lparr>u_scheme = ''https'', u_host = ''gw'', u_path = ''/v3'', u_query = []\<rparr> (HTTPTransport True True True)"

definition spire_client :: client where
  "spire_client = https_client\<lparr>c_transport := SpireTransport\<rparr>"

lemma https_ext_simps [simp]:
  "x_read_file https_ext = (\<lambda>p e. (Inr [], e))" "x_has_certs https_ext = (\<lambda>b. True)"
  "x_load_pair https_ext = (\<lambda>a b e. (None, e))"
  "x_parse_cert https_ext = (\<lambda>d. Inr \<lparr>cert_raw = d, cert_serial = ''1'', cert_not_after = 0\<rparr>)"
  "x_url_parse https_ext = (\<lambda>s. Inr \<lparr>u_scheme = ''https'', u_host = ''gw'', u_path = ''/v3'', u_query = []\<rparr>)"
  by (simp_all add: https_ext_def plain_ext_def)

theorem https_server_trusted_witness:
  "\<exists>first rest pem leaf certs e. [''DER''] = first # rest
    \<and> fst (x_read_file https_ext ''ca'' ()) = Inr pem \<and> x_has_certs https_ext pem
    \<and> x_parse_cert https_ext first = Inr leaf \<and> parse_chain https_ext rest = Inr certs
    \<and> fst (t_verify trusting_env \<lparr>vo_leaf = leaf, vo_dns = hostname (c_base https_client), vo_roots = FilePool pem,
         vo_intermediates = certs\<rparr> e) = None"
proof -
  let ?w = "initial_world ()"
  have c: "run_state (NewClient https_ext https_config) ?w = (Inr https_client, ?w)"
    by (simp add: NewClient_def Let_def https_config_def loadCAPool_def https_client_def)
  have s: "run_state (server_check https_ext trusting_env https_client [''DER'']) ?w = (None, ?w)"
    by (simp add: server_check_def tls_config_of_def https_client_def newClient_def VerifyPeerCertificate_def loadCAPool_def trusting_env_def)
  have i: "\<not> Insecure https_config" "u_scheme (c_base https_client) = ''https''"
    by (simp_all add: https_config_def https_client_def newClient_def)
  have "CACertPath https_config = ''ca''" "w_env ?w = ()" by (simp_all add: https_config_def)
  with https_server_trusted [OF c i s] show ?thesis by simp
qed

theorem spire_server_trusted_witness:
  "\<exists>doc authorities leaf e1 e2. t_svid trusting_env () = (Inr doc, e1)
    \<and> t_bundle trusting_env (sv_domain doc) e1 = (Inr authorities, e2)
    \<and> x_parse_cert https_ext ''DER'' = Inr leaf
    \<and> t_verify trusting_env \<lparr>vo_leaf = leaf, vo_dns = [], vo_roots = BundlePool authorities,
         vo_intermediates = []\<rparr> e2 = (None, ())"
proof -
  let ?w = "initial_world ()"
  have "c_transport spire_client = SpireTransport" by (simp add: spire_client_def)
  moreover have "run_state (server_check https_ext trusting_env spire_client [''DER'']) ?w = (None, ?w)"
    by (simp add: server_check_def tls_config_of_def spire_tls_config_def spire_client_def verifyServerCert_def trusting_env_def)
  ultimately show ?thesis
    using spire_server_trusted [of spire_client https_ext trusting_env "[''DER'']" ?w ?w]
    by (simp add: parsed_chain_def List.map_filter_simps)
qed

end
