(* ===== verification/Cert_Expiry.thy ===== *)
theory Cert_Expiry
  imports Cert_Laws
begin

text \<open>
  \<^verbatim>\<open>internal/metrics/cert_expiry.go\<close>: the gauge of the mounted client certificate. Each
  observation reads the file again and sets the gauge to the expiry of its first certificate, or to
  zero when there is none, so that a dead credential never keeps a healthy value. The watcher's
  ticks are bounded by a number, since it runs until the process ends.
\<close>

section \<open>One observation\<close>

text \<open>\<open>None\<close> stands for a PEM loop that does not end, which decoding rules out.\<close>

definition certFileNotAfter :: "'e ext \<Rightarrow> string \<Rightarrow> ('e, (goerr + int) option) go" where
  "certFileNotAfter x path = do {
     r \<leftarrow> env_call (x_read_file x path);
     ret (case r of
            Inl err \<Rightarrow> Some (Inl err)
          | Inr data \<Rightarrow> map_option (\<lambda>block.
              case block of
                None \<Rightarrow> Inl (PlainError (''no CERTIFICATE block found in '' @ path))
              | Some der \<Rightarrow>
                  (case x_parse_cert x der of
                     Inl err \<Rightarrow> Inl (Wrap (''parse certificate in '' @ path @ '': '') err [])
                   | Inr cert \<Rightarrow> Inr (cert_not_after cert)))
              (first_cert_block x (Suc (length data)) data))
   }"

definition ObserveDataplaneClientCert :: "int \<Rightarrow> ('e, unit) go" where
  "ObserveDataplaneClientCert notAfter = modify_metrics (\<lambda>m. m\<lparr>ClientCertExpiry := notAfter\<rparr>)"

definition ObserveClientCertFile :: "'e ext \<Rightarrow> string \<Rightarrow> ('e, goerr option option) go" where
  "ObserveClientCertFile x path = do {
     r \<leftarrow> certFileNotAfter x path;
     (case r of
        None \<Rightarrow> ret None
      | Some (Inl err) \<Rightarrow> ret (Some (Some err))
      | Some (Inr notAfter) \<Rightarrow> do {
          ObserveDataplaneClientCert notAfter;
          ret (Some None)
        })
   }"

definition observe_client :: "'e ext \<Rightarrow> string \<Rightarrow> ('e, unit) go" where
  "observe_client x path = do {
     r \<leftarrow> ObserveClientCertFile x path;
     (case r of
        Some (Some err) \<Rightarrow> modify_metrics (\<lambda>m. m\<lparr>ClientCertExpiry := 0\<rparr>)
      | _ \<Rightarrow> ret ())
   }"

section \<open>The watcher\<close>

text \<open>The ticks, at most \<open>n\<close> of them; True when the context ended the loop. A tick may have been
  waiting already, so no time need pass before it.\<close>

fun client_cert_ticks :: "'e ext \<Rightarrow> string \<Rightarrow> nat \<Rightarrow> ('e, bool) go" where
  "client_cert_ticks x path 0 = ret False"
| "client_cert_ticks x path (Suc n) = do {
     ctx_done \<leftarrow> select_after x 0;
     (case ctx_done of
        Some _ \<Rightarrow> ret True
      | None \<Rightarrow> do {
          observe_client x path;
          client_cert_ticks x path n
        })
   }"

definition StartClientCertWatcher :: "'e ext \<Rightarrow> string \<Rightarrow> nat \<Rightarrow> ('e, bool) go" where
  "StartClientCertWatcher x path n = do {
     observe_client x path;
     client_cert_ticks x path n
   }"

section \<open>What the gauge shows\<close>

text \<open>The value a reading of the file stands for.\<close>

definition expiry_of :: "'e ext \<Rightarrow> goerr + bytes \<Rightarrow> int" where
  "expiry_of x r =
    (case r of
       Inl err \<Rightarrow> 0
     | Inr data \<Rightarrow>
         (case first_cert_block x (Suc (length data)) data of
            Some (Some der) \<Rightarrow> (case x_parse_cert x der of Inl err \<Rightarrow> 0 | Inr cert \<Rightarrow> cert_not_after cert)
          | _ \<Rightarrow> 0))"

lemma observe_client_run:
  assumes "pem_shrinks x" "x_read_file x path (w_env w) = (r, e)"
  shows "run_state (observe_client x path) w =
    ((), w\<lparr>w_env := e, w_metrics := (w_metrics w)\<lparr>ClientCertExpiry := expiry_of x r\<rparr>\<rparr>)"
proof (cases r)
  case (Inl err)
  with assms(2) show ?thesis
    by (simp add: observe_client_def ObserveClientCertFile_def certFileNotAfter_def env_call_def expiry_of_def)
next
  case (Inr data)
  obtain block where "first_cert_block x (Suc (length data)) data = Some block"
    using cert_block_some [OF assms(1), of data "Suc (length data)"] by auto
  with assms(2) Inr show ?thesis
    by (simp add: observe_client_def ObserveClientCertFile_def certFileNotAfter_def env_call_def expiry_of_def
        ObserveDataplaneClientCert_def split: option.split sum.split)
qed

text \<open>The watcher with one more tick is the watcher, then the wait for that tick and its observation.\<close>

lemma ticks_snoc:
  "run_state (client_cert_ticks x path (Suc n)) w =
    (case run_state (client_cert_ticks x path n) w of
       (True, w1) \<Rightarrow> (True, w1)
     | (False, w1) \<Rightarrow> run_state (client_cert_ticks x path 1) w1)"
proof (induction n arbitrary: w)
  case (Suc n)
  show ?case
    by (subst client_cert_ticks.simps(2), subst (2) client_cert_ticks.simps(2))
      (auto simp del: client_cert_ticks.simps simp: Suc.IH split: prod.split option.split bool.split)
qed simp

lemma watcher_snoc:
  "run_state (StartClientCertWatcher x path (Suc n)) w =
    (case run_state (StartClientCertWatcher x path n) w of
       (True, w1) \<Rightarrow> (True, w1)
     | (False, w1) \<Rightarrow> run_state (client_cert_ticks x path 1) w1)"
  unfolding StartClientCertWatcher_def
  by (simp add: ticks_snoc del: client_cert_ticks.simps split: prod.split)

text \<open>C32: the gauge follows the mounted file. The first observation shows what the file holds when the
  watcher starts; every tick reads the file again and shows what it holds at that tick, the expiry of
  its first certificate, or zero when it cannot be read or parsed, whatever the gauge showed before; and
  when the context ends the watcher the gauge is left as it is.\<close>

theorem client_expiry_is_read:
  assumes "pem_shrinks x" "run_state (StartClientCertWatcher x path n) w = (ended, w1)"
    "run_state (select_after x 0) w1 = (ctx_done, w2)"
  shows "(n = 0 \<longrightarrow> \<not> ended \<and> ClientCertExpiry (w_metrics w1) = expiry_of x (fst (x_read_file x path (w_env w))))
    \<and> (\<not> ended \<and> ctx_done = None \<longrightarrow> (\<exists>w3. run_state (StartClientCertWatcher x path (Suc n)) w = (False, w3)
         \<and> ClientCertExpiry (w_metrics w3) = expiry_of x (fst (x_read_file x path (w_env w2)))))
    \<and> (ended \<or> ctx_done \<noteq> None \<longrightarrow> (\<exists>w3. run_state (StartClientCertWatcher x path (Suc n)) w = (True, w3)
         \<and> ClientCertExpiry (w_metrics w3) = ClientCertExpiry (w_metrics w1)))"
proof -
  have o: "run_state (observe_client x path) u = ((), u\<lparr>w_env := snd (x_read_file x path (w_env u)),
      w_metrics := (w_metrics u)\<lparr>ClientCertExpiry := expiry_of x (fst (x_read_file x path (w_env u)))\<rparr>\<rparr>)" for u
    by (rule observe_client_run [OF assms(1)]) simp
  have "w_metrics w2 = w_metrics w1"
    using assms(3) by (auto simp: select_after_def split: prod.splits)
  moreover have "n = 0 \<longrightarrow> \<not> ended \<and> ClientCertExpiry (w_metrics w1) = expiry_of x (fst (x_read_file x path (w_env w)))"
    using assms(2) by (auto simp: StartClientCertWatcher_def o)
  ultimately show ?thesis
    using assms(2,3) by (cases ended; cases ctx_done) (simp_all add: watcher_snoc o)
qed

text \<open>An observation that fails sets the gauge to zero, one that succeeds to the certificate's
  expiry, and nothing else of the operator's state changes.\<close>

theorem client_expiry_observed:
  assumes "pem_shrinks x" "x_read_file x path (w_env w) = (r, e)"
  shows "snd (run_state (observe_client x path) w) =
    w\<lparr>w_env := e, w_metrics := (w_metrics w)\<lparr>ClientCertExpiry := expiry_of x r\<rparr>\<rparr>"
  by (simp add: observe_client_run [OF assms])

section \<open>Examples\<close>

definition mounted_ext :: "unit ext" where
  "mounted_ext = (plain_ext silent_http)\<lparr>x_read_file := (\<lambda>p e. (Inr ''PEM'', e)),
     x_pem_decode := (\<lambda>b. if b = [] then None else Some (''CERTIFICATE'', ''DER'', [])),
     x_parse_cert := (\<lambda>d. Inr \<lparr>cert_raw = d, cert_serial = ''1'', cert_not_after = 42\<rparr>)\<rparr>"

lemma mounted_simps [simp]:
  "x_read_file mounted_ext = (\<lambda>p e. (Inr ''PEM'', e))"
  "x_pem_decode mounted_ext = (\<lambda>b. if b = [] then None else Some (''CERTIFICATE'', ''DER'', []))"
  "x_parse_cert mounted_ext = (\<lambda>d. Inr \<lparr>cert_raw = d, cert_serial = ''1'', cert_not_after = 42\<rparr>)"
  by (simp_all add: mounted_ext_def)

lemma mounted_pem: "pem_shrinks mounted_ext"
  by (simp add: pem_shrinks_def)

lemma mounted_expiry: "expiry_of mounted_ext (Inr ''PEM'') = 42"
  by (simp add: expiry_of_def first_cert_block.simps)

text \<open>A file that is there when the watcher starts and gone at its first tick.\<close>

definition vanishing_ext :: "bool ext" where
  "vanishing_ext = (plain_ext (\<lambda>rq e. (Inl Canceled, 0, e)))\<lparr>
     x_wait := (\<lambda>d e. (None, 0, True)),
     x_read_file := (\<lambda>p e. (if e then Inl (PlainError ''no such file'') else Inr ''PEM'', e)),
     x_pem_decode := (\<lambda>b. if b = [] then None else Some (''CERTIFICATE'', ''DER'', [])),
     x_parse_cert := (\<lambda>d. Inr \<lparr>cert_raw = d, cert_serial = ''1'', cert_not_after = 42\<rparr>)\<rparr>"

lemma vanishing_reads:
  "expiry_of vanishing_ext (fst (x_read_file vanishing_ext p False)) = 42"
  "expiry_of vanishing_ext (fst (x_read_file vanishing_ext p True)) = 0"
  by (simp_all add: vanishing_ext_def expiry_of_def first_cert_block.simps)

theorem client_expiry_is_read_witness:
  "ClientCertExpiry (w_metrics (snd (run_state (StartClientCertWatcher vanishing_ext ''crt'' 0) (initial_world False)))) = 42
   \<and> ClientCertExpiry (w_metrics (snd (run_state (StartClientCertWatcher vanishing_ext ''crt'' 1) (initial_world False)))) = 0"
proof -
  have p: "pem_shrinks vanishing_ext" by (simp add: pem_shrinks_def vanishing_ext_def)
  obtain ended w1 where r: "run_state (StartClientCertWatcher vanishing_ext ''crt'' 0) (initial_world False) = (ended, w1)"
    by (metis surj_pair)
  obtain ctx_done w2 where t: "run_state (select_after vanishing_ext 0) w1 = (ctx_done, w2)" by (metis surj_pair)
  then have "ctx_done = None" "w_env w2 = True"
    by (auto simp: select_after_def vanishing_ext_def)
  with client_expiry_is_read [OF p r t] r show ?thesis
    by (auto simp: vanishing_reads initial_world_def)
qed

theorem client_expiry_observed_witness:
  "ClientCertExpiry (w_metrics (snd (run_state (observe_client mounted_ext ''crt'') (initial_world ())))) = 42"
  using client_expiry_observed [OF mounted_pem, of "''crt''" "initial_world ()" "Inr ''PEM''" "()"]
  by (simp add: initial_world_def mounted_expiry)

end
