(* ===== verification/Local_Runner.thy ===== *)
theory Local_Runner
  imports Verdicts
begin

text \<open>
  \<^verbatim>\<open>internal/local/runner.go\<close> and \<^verbatim>\<open>LoadFromFile\<close>: the development mode that watches one
  file and pushes it to the gateway. The file system watcher, sleeping and the process context are
  parameters; the loop over their notices is bounded by a number, since it runs until the context
  ends.
\<close>

section \<open>The environment\<close>

datatype fs_op = FsCreate | FsWrite | FsRemove | FsRename | FsChmod

datatype notice = ContextDone goerr | FileEvent string "fs_op list" | WatchError goerr

record 'e local_env =
  l_ctx_err :: "'e \<Rightarrow> goerr option"
  l_sleep :: "nat \<Rightarrow> 'e \<Rightarrow> nat \<times> 'e"
  l_new_watcher :: "'e \<Rightarrow> goerr option \<times> 'e"
  l_watch :: "string \<Rightarrow> 'e \<Rightarrow> goerr option \<times> 'e"
  l_next :: "'e \<Rightarrow> notice \<times> nat \<times> 'e"
  l_until_done :: "'e \<Rightarrow> goerr \<times> nat \<times> 'e"

record runner =
  CfgPath :: string
  Client :: client
  PollEvery :: duration
  Watch :: bool

text \<open>A sleep lasts at least as long as asked.\<close>

definition sleep :: "'e local_env \<Rightarrow> nat \<Rightarrow> ('e, unit) go" where
  "sleep l d = State (\<lambda>w. case l_sleep l d (w_env w) of (extra, e) \<Rightarrow>
     ((), w\<lparr>w_env := e, w_now := w_now w + d + extra\<rparr>))"

definition timed_call :: "('e \<Rightarrow> 'a \<times> nat \<times> 'e) \<Rightarrow> ('e, 'a) go" where
  "timed_call f = State (\<lambda>w. case f (w_env w) of (a, dt, e) \<Rightarrow> (a, w\<lparr>w_env := e, w_now := w_now w + dt\<rparr>))"

section \<open>Constants\<close>

definition defaultPollInterval :: duration where "defaultPollInterval = 5 * second"
definition maxApplyAttempts :: nat where "maxApplyAttempts = 5"
definition initialRetryBackoff :: duration where "initialRetryBackoff = 200 * millisecond"
definition debounceDelay :: duration where "debounceDelay = 150 * millisecond"

section \<open>Reading and applying\<close>

definition LoadFromFile :: "'e ext \<Rightarrow> string \<Rightarrow> ('e, goerr + bytes) go" where
  "LoadFromFile x path =
    (if path = [] then ret (Inl (PlainError ''config path is required''))
     else do {
       r \<leftarrow> env_call (x_read_file x path);
       ret (case r of Inl err \<Rightarrow> Inl (Wrap ''read config file: '' err []) | Inr b \<Rightarrow> Inr b)
     })"

definition fileHash :: "'e ext \<Rightarrow> string \<Rightarrow> ('e, goerr + string) go" where
  "fileHash x p = do {
     r \<leftarrow> LoadFromFile x p;
     ret (case r of Inl err \<Rightarrow> Inl err | Inr b \<Rightarrow> Inr (HashBytes b))
   }"

definition applyOnce :: "'e ext \<Rightarrow> runner \<Rightarrow> ('e, goerr + string) go" where
  "applyOnce x r = do {
     b \<leftarrow> LoadFromFile x (CfgPath r);
     (case b of
        Inl err \<Rightarrow> ret (Inl err)
      | Inr raw \<Rightarrow> do {
          e \<leftarrow> ApplyRawConfiguration x (Client r) raw;
          ret (case e of Some err \<Rightarrow> Inl err | None \<Rightarrow> Inr (HashBytes raw))
        })
   }"

text \<open>The attempts that are left, the delay before the next one, and the last error.\<close>

fun retry_loop ::
  "'e ext \<Rightarrow> 'e local_env \<Rightarrow> runner \<Rightarrow> nat \<Rightarrow> duration \<Rightarrow> goerr option \<Rightarrow> ('e, string \<times> goerr option) go" where
  "retry_loop x l r 0 backoff lastErr = ret ([], lastErr)"
| "retry_loop x l r (Suc n) backoff lastErr = do {
     ctx \<leftarrow> gets (\<lambda>w. l_ctx_err l (w_env w));
     (case ctx of
        Some err \<Rightarrow> ret ([], Some err)
      | None \<Rightarrow> do {
          a \<leftarrow> applyOnce x r;
          (case a of
             Inr h \<Rightarrow> ret (h, None)
           | Inl err \<Rightarrow>
               if 0 < n then do {
                 sleep l (dur_ns backoff);
                 retry_loop x l r n (backoff * 2) (Some err)
               } else retry_loop x l r n backoff (Some err))
        })
   }"

definition applyWithRetry :: "'e ext \<Rightarrow> 'e local_env \<Rightarrow> runner \<Rightarrow> ('e, string \<times> goerr option) go" where
  "applyWithRetry x l r = retry_loop x l r maxApplyAttempts initialRetryBackoff None"

section \<open>Watching\<close>

text \<open>\<^verbatim>\<open>filepath.Dir\<close>: up to the last separator, cleaned.\<close>

definition path_dir :: "string \<Rightarrow> string" where
  "path_dir p = path_clean (rev (dropWhile (\<lambda>c. c \<noteq> CHR ''/'') (rev p)))"

definition addWatches :: "'e local_env \<Rightarrow> runner \<Rightarrow> ('e, goerr option) go" where
  "addWatches l r = do {
     fileErr \<leftarrow> env_call (l_watch l (CfgPath r));
     dirErr \<leftarrow> env_call (l_watch l (path_dir (CfgPath r)));
     ret (case (fileErr, dirErr) of
            (Some fe, Some de) \<Rightarrow> Some (Wrap (''watch '' @ CfgPath r @ '': '') fe
              ('' (directory '' @ path_dir (CfgPath r) @ '': '' @ error_text de @ '')''))
          | _ \<Rightarrow> None)
   }"

definition content_op :: "fs_op \<Rightarrow> bool" where
  "content_op op \<longleftrightarrow> op = FsWrite \<or> op = FsCreate \<or> op = FsRename"

text \<open>One notice: the error that ends the loop, if any, and the hash to remember.\<close>

definition handle_notice ::
  "'e ext \<Rightarrow> 'e local_env \<Rightarrow> runner \<Rightarrow> string \<Rightarrow> notice \<Rightarrow> ('e, goerr option \<times> string) go" where
  "handle_notice x l r lastHash notice =
    (case notice of
       ContextDone err \<Rightarrow> ret (Some err, lastHash)
     | WatchError err \<Rightarrow> ret (None, lastHash)
     | FileEvent name ops \<Rightarrow>
         if name \<noteq> CfgPath r then ret (None, lastHash)
         else if \<not> list_ex content_op ops then ret (None, lastHash)
         else do {
           sleep l (dur_ns debounceDelay);
           f \<leftarrow> fileHash x (CfgPath r);
           (case f of
              Inl err \<Rightarrow> ret (None, lastHash)
            | Inr h \<Rightarrow>
                if h = lastHash then ret (None, lastHash)
                else do {
                  a \<leftarrow> applyWithRetry x l r;
                  (case a of
                     (newH, Some err) \<Rightarrow> ret (None, lastHash)
                   | (newH, None) \<Rightarrow> ret (None, newH))
                })
         })"

text \<open>At most \<open>n\<close> notices: the error the loop ended with, or nothing yet, and the remembered hash.\<close>

fun watch_loop ::
  "'e ext \<Rightarrow> 'e local_env \<Rightarrow> runner \<Rightarrow> nat \<Rightarrow> string \<Rightarrow> ('e, goerr option \<times> string) go" where
  "watch_loop x l r 0 lastHash = ret (None, lastHash)"
| "watch_loop x l r (Suc n) lastHash = do {
     notice \<leftarrow> timed_call (l_next l);
     s \<leftarrow> handle_notice x l r lastHash notice;
     (case s of
        (Some err, h) \<Rightarrow> ret (Some err, h)
      | (None, h) \<Rightarrow> watch_loop x l r n h)
   }"

datatype run_outcome = Exited goerr | Running string

definition normalised :: "runner \<Rightarrow> runner" where
  "normalised r = (if PollEvery r \<le>s 0 then r\<lparr>PollEvery := defaultPollInterval\<rparr> else r)"

text \<open>Once a configuration with hash \<open>h\<close> is applied.\<close>

definition watching :: "'e ext \<Rightarrow> 'e local_env \<Rightarrow> runner \<Rightarrow> nat \<Rightarrow> string \<Rightarrow> ('e, run_outcome) go" where
  "watching x l r n h =
    (if \<not> Watch r then do {
              err \<leftarrow> timed_call (l_until_done l);
              ret (Exited err)
            } else do {
              nw \<leftarrow> env_call (l_new_watcher l);
              (case nw of
                 Some err \<Rightarrow> ret (Exited err)
               | None \<Rightarrow> do {
                   aw \<leftarrow> addWatches l r;
                   (case aw of
                      Some err \<Rightarrow> ret (Exited err)
                    | None \<Rightarrow> do {
                        s \<leftarrow> watch_loop x l r n h;
                        ret (case s of (Some err, h') \<Rightarrow> Exited err | (None, h') \<Rightarrow> Running h')
                      })
                 })
            })"

definition Run :: "'e ext \<Rightarrow> 'e local_env \<Rightarrow> runner \<Rightarrow> nat \<Rightarrow> ('e, run_outcome) go" where
  "Run x l r0 n =
    (let r = normalised r0 in do {
       a \<leftarrow> applyWithRetry x l r;
       (case a of
          (h, Some err) \<Rightarrow> ret (Exited err)
        | (h, None) \<Rightarrow> watching x l r n h)
     })"

end
