(* ===== verification/Local_Laws.thy ===== *)
theory Local_Laws
  imports Local_Runner Cluster
begin

text \<open>
  What the local runner guarantees for every file system, gateway and file content: each apply was
  validated before with the same bytes, a round of attempts applies at most five times, and the
  hash it remembers was acknowledged by the gateway.
\<close>

section \<open>One application\<close>

text \<open>The check of one effect against those before it, for a client the runner was given.\<close>

definition checked :: "client \<Rightarrow> client option \<Rightarrow> effect list \<Rightarrow> effect \<Rightarrow> bool" where
  "checked c k pre e = (case e of HttpCall rq out \<Rightarrow> is_apply c rq \<longrightarrow> list_ex (same_body rq c) pre | _ \<Rightarrow> True)"

interpretation checked: evidence "checked c" for c
  by unfold_locales (auto simp: checked_def list_ex_iff split: effect.splits)

definition applies :: "client \<Rightarrow> effect list \<Rightarrow> nat" where
  "applies c es = length (filter (sends (is_apply c)) es)"

lemma applies_append [simp]: "applies c [] = 0" "applies c (es @ fs) = applies c es + applies c fs"
  by (simp_all add: applies_def)

text \<open>What a run of \<open>m\<close> does with the trace: \<open>P\<close> relates its answer to the new effects.\<close>

definition leaves :: "('a \<Rightarrow> effect list \<Rightarrow> bool) \<Rightarrow> ('e, 'a) go \<Rightarrow> bool" where
  "leaves P m \<longleftrightarrow> (\<forall>w a w'. run_state m w = (a, w') \<longrightarrow>
     w_rec w' = w_rec w \<and> (\<exists>es. w_trace w' = w_trace w @ es \<and> P a es))"

lemma leavesI:
  "(\<And>w a w'. run_state m w = (a, w') \<Longrightarrow> w_rec w' = w_rec w \<and> (\<exists>es. w_trace w' = w_trace w @ es \<and> P a es)) \<Longrightarrow> leaves P m"
  by (simp add: leaves_def)

lemma leavesE:
  assumes "leaves P m" "run_state m w = (a, w')"
  obtains es where "w_rec w' = w_rec w" "w_trace w' = w_trace w @ es" "P a es"
  using assms unfolding leaves_def by blast

lemma leaves_mono: "leaves P m \<Longrightarrow> (\<And>a es. P a es \<Longrightarrow> Q a es) \<Longrightarrow> leaves Q m"
  unfolding leaves_def by blast

lemma leaves_ret: "P a [] \<Longrightarrow> leaves P (ret a)"
  by (auto simp: leaves_def)

lemma leaves_bind:
  assumes "leaves Q m" "\<And>a. leaves (\<lambda>b fs. \<forall>es. Q a es \<longrightarrow> P b (es @ fs)) (f a)"
  shows "leaves P (State_Monad.bind m f)"
proof (rule leavesI)
  fix w b w'
  assume run: "run_state (State_Monad.bind m f) w = (b, w')"
  obtain a w1 where a: "run_state m w = (a, w1)" by (metis surj_pair)
  obtain es where es: "w_rec w1 = w_rec w" "w_trace w1 = w_trace w @ es" "Q a es"
    using leavesE [OF assms(1) a] by blast
  from run a have "run_state (f a) w1 = (b, w')" by simp
  then obtain fs where "w_rec w' = w_rec w1" "w_trace w' = w_trace w1 @ fs" "\<forall>es. Q a es \<longrightarrow> P b (es @ fs)"
    by (rule leavesE [OF assms(2)])
  with es show "w_rec w' = w_rec w \<and> (\<exists>es. w_trace w' = w_trace w @ es \<and> P b es)" by auto
qed

text \<open>A call that leaves the trace alone.\<close>

lemma leaves_silent:
  assumes "\<And>w. w_rec (snd (run_state m w)) = w_rec w \<and> w_trace (snd (run_state m w)) = w_trace w"
  shows "leaves (\<lambda>a es. es = []) m"
  using assms by (auto simp: leaves_def) (metis snd_conv)+

lemma silent_calls: "leaves (\<lambda>a es. es = []) (env_call f)" "leaves (\<lambda>a es. es = []) (sleep l d)"
  "leaves (\<lambda>a es. es = []) (timed_call g)" "leaves (\<lambda>a es. es = []) (gets h)"
  by (rule leaves_silent; simp add: env_call_def sleep_def timed_call_def gets_def split: prod.split)+

text \<open>An answered step is quiet when it applies nothing.\<close>

definition quiet_trace :: "client \<Rightarrow> effect list \<Rightarrow> bool" where
  "quiet_trace c es \<longleftrightarrow> list_all (\<lambda>e. \<not> sends (is_apply c) e) es"

lemma quiet_trace_checked: "quiet_trace c es \<Longrightarrow> traced (checked c k) pre es"
  by (rule checked.traced_all) (auto simp: quiet_trace_def list_all_iff checked_def sends_def split: effect.splits)

lemma quiet_trace_applies: "quiet_trace c es \<Longrightarrow> applies c es = 0"
  by (simp add: quiet_trace_def applies_def list_all_iff)

lemma wait_quiet: "leaves (\<lambda>a es. quiet_trace c es) (waitForReady x c t)"
proof (rule leavesI)
  fix w :: "'a world" and a w'
  assume "run_state (waitForReady x c t) w = (a, w')"
  then have c: "calls (version_read c) w w'" using relD [OF waitForReady_calls [of c x t], of w] by simp
  then obtain es where es: "w_trace w' = w_trace w @ es" "list_all (version_read c) es" "w_rec w' = w_rec w"
    by (auto simp: calls_def emits_def)
  have "\<not> sends (is_apply c) e" if "version_read c e" for e
    using that storage_request_kind [OF version_storage [of c]] by (auto simp: sends_def split: effect.splits)
  with es show "w_rec w' = w_rec w \<and> (\<exists>es. w_trace w' = w_trace w @ es \<and> quiet_trace c es)"
    by (auto simp: quiet_trace_def list_all_iff)
qed

lemma post_raw_leaves:
  assumes "\<And>out n out' r. r = no_result (answer out') \<Longrightarrow>
      P r [HttpCall (version_request c) out, HttpCall (post_request c ep raw n) out']"
    "\<And>r es. r \<noteq> None \<Longrightarrow> list_all (version_read c) es \<Longrightarrow> P r es"
  shows "leaves P (post_raw x c ep raw)"
proof (rule leavesI)
  fix w :: "'a world" and r w'
  assume run: "run_state (post_raw x c ep raw) w = (r, w')"
  have "rel (calls (\<lambda>_. True)) (post_raw x c ep raw)" by (rule post_raw_calls) simp_all
  with run have rec: "w_rec w' = w_rec w" by (auto dest!: relD [of _ _ w] simp: calls_def)
  have "\<exists>es. w_trace w' = w_trace w @ es \<and> P r es"
    using run
  proof (cases rule: post_raw_cases)
    case (no_version err)
    then have "calls (version_read c) w w'" using relD [OF getConfigVersion_calls [of c x], of w] by simp
    with no_version(2) assms(2) show ?thesis by (auto simp: calls_def emits_def)
  next
    case (not_sent out n err)
    with assms(2) show ?thesis by (auto simp: list_all_iff)
  next
    case (sent out n out')
    with assms(1) show ?thesis by blast
  qed
  with rec show "w_rec w' = w_rec w \<and> (\<exists>es. w_trace w' = w_trace w @ es \<and> P r es)" by blast
qed

lemma version_quiet: "\<not> is_apply c (version_request c)"
  using storage_request_kind [OF version_storage [of c]] by simp

lemma reads_quiet: "list_all (version_read c) es \<Longrightarrow> quiet_trace c es"
  using version_quiet [of c] by (auto simp: quiet_trace_def list_all_iff sends_def split: effect.splits)

text \<open>Validating applies nothing and, when it passes, is the evidence an apply of the same bytes needs.\<close>

definition vouches :: "client \<Rightarrow> string \<Rightarrow> effect list \<Rightarrow> bool" where
  "vouches c raw es \<longleftrightarrow> (\<forall>rq. carries rq raw \<longrightarrow> list_ex (same_body rq c) es)"

lemma validate_leaves:
  "leaves (\<lambda>r es. quiet_trace c es \<and> (r = None \<longrightarrow> vouches c raw es)) (post_raw x c validate_endpoint raw)"
proof (rule post_raw_leaves)
  fix out n out' and r :: "goerr option"
  assume r: "r = no_result (answer out')"
  have k: "is_validate c (validate_request c raw n)" "\<not> is_apply c (validate_request c raw n)"
    "carries (validate_request c raw n) raw" by (rule validate_request_kind)+
  have "vouches c raw [HttpCall (version_request c) out, HttpCall (validate_request c raw n) out']"
    if "r = None"
    using that r k(1,3) by (auto simp: no_result_None vouches_def same_body_def carries_def)
  then show "quiet_trace c [HttpCall (version_request c) out, HttpCall (post_request c validate_endpoint raw n) out']
     \<and> (r = None \<longrightarrow> vouches c raw [HttpCall (version_request c) out, HttpCall (post_request c validate_endpoint raw n) out'])"
    using k(2) version_quiet by (simp add: quiet_trace_def post_raw_instances(3))
qed (auto simp: reads_quiet)

text \<open>Applying sends at most one apply, with the bytes, and success is its acknowledgement.\<close>

lemma apply_leaves:
  "leaves (\<lambda>r es. applies c es \<le> 1 \<and> list_all (\<lambda>e. sends (is_apply c) e \<longrightarrow> sends (\<lambda>rq. carries rq raw) e) es
     \<and> (r = None \<longrightarrow> list_ex (applied_evidence c (HashBytes raw)) es)) (post_raw x c apply_endpoint raw)"
proof (rule post_raw_leaves)
  fix out n out' and r :: "goerr option"
  assume r: "r = no_result (answer out')"
  have k: "is_apply c (apply_request c raw n)" "carries (apply_request c raw n) raw" by (rule apply_request_kind)+
  then have b: "body_bytes (apply_request c raw n) = raw"
    by (auto simp: carries_def body_bytes_def split: if_splits)
  have "list_ex (applied_evidence c (HashBytes raw)) [HttpCall (version_request c) out, HttpCall (apply_request c raw n) out']"
    if "r = None"
    using that r k b by (auto simp: no_result_None applied_evidence_def)
  then show "applies c [HttpCall (version_request c) out, HttpCall (post_request c apply_endpoint raw n) out'] \<le> 1
     \<and> list_all (\<lambda>e. sends (is_apply c) e \<longrightarrow> sends (\<lambda>rq. carries rq raw) e)
        [HttpCall (version_request c) out, HttpCall (post_request c apply_endpoint raw n) out']
     \<and> (r = None \<longrightarrow> list_ex (applied_evidence c (HashBytes raw))
        [HttpCall (version_request c) out, HttpCall (post_request c apply_endpoint raw n) out'])"
    using k version_quiet by (simp add: applies_def post_raw_instances(4))
next
  fix r :: "goerr option" and es
  assume "r \<noteq> None" "list_all (version_read c) es"
  then show "applies c es \<le> 1 \<and> list_all (\<lambda>e. sends (is_apply c) e \<longrightarrow> sends (\<lambda>rq. carries rq raw) e) es
     \<and> (r = None \<longrightarrow> list_ex (applied_evidence c (HashBytes raw)) es)"
    using reads_quiet [of c es] quiet_trace_applies [of c es] by (auto simp: quiet_trace_def list_all_iff)
qed

definition checked_trace :: "client \<Rightarrow> effect list \<Rightarrow> bool" where
  "checked_trace c es \<longleftrightarrow> traced (checked c None) [] es"

lemma checked_trace_append: "checked_trace c es \<Longrightarrow> checked_trace c fs \<Longrightarrow> checked_trace c (es @ fs)"
  by (auto simp: checked_trace_def checked.traced_append intro: checked.traced_mono)

lemma quiet_checked: "quiet_trace c es \<Longrightarrow> checked_trace c es"
  by (simp add: checked_trace_def quiet_trace_checked)

lemma vouched_checked:
  assumes "quiet_trace c es" "vouches c raw es"
    "list_all (\<lambda>e. sends (is_apply c) e \<longrightarrow> sends (\<lambda>rq. carries rq raw) e) fs"
  shows "checked_trace c (es @ fs)"
proof -
  have "traced (checked c None) es fs"
    by (rule checked.traced_all)
      (use assms(2,3) in \<open>auto simp: checked_def list_all_iff vouches_def split: effect.splits\<close>)
  with quiet_trace_checked [OF assms(1)] show ?thesis
    by (simp add: checked_trace_def checked.traced_append)
qed

definition one_apply :: "client \<Rightarrow> string \<Rightarrow> bool \<Rightarrow> effect list \<Rightarrow> bool" where
  "one_apply c h ok es \<longleftrightarrow> checked_trace c es \<and> applies c es \<le> 1 \<and> (ok \<longrightarrow> list_ex (applied_evidence c h) es)"

lemma one_apply_quiet: "quiet_trace c es \<Longrightarrow> one_apply c h False es"
  by (simp add: one_apply_def quiet_checked quiet_trace_applies)

lemma quiet_append: "quiet_trace c (es @ fs) \<longleftrightarrow> quiet_trace c es \<and> quiet_trace c fs"
  by (simp add: quiet_trace_def)

lemma ApplyRaw_leaves: "leaves (\<lambda>r. one_apply c (HashBytes raw) (r = None)) (ApplyRawConfiguration x c raw)"
  unfolding ApplyRawConfiguration_def post_raw_instances
proof (rule leaves_bind [OF wait_quiet])
  fix ready :: "goerr option"
  show "leaves (\<lambda>r fs. \<forall>es. quiet_trace c es \<longrightarrow> one_apply c (HashBytes raw) (r = None) (es @ fs))
    (case ready of Some err \<Rightarrow> ret (Some (Wrap ''dataplane api not ready: '' err []))
     | None \<Rightarrow> post_raw x c validate_endpoint raw \<bind> (\<lambda>v. case v of
         Some err \<Rightarrow> ret (Some (Wrap ''validation failed: '' err []))
       | None \<Rightarrow> post_raw x c apply_endpoint raw))"
  proof (cases ready)
    case None
    show ?thesis
      unfolding None option.case
    proof (rule leaves_bind [OF validate_leaves])
      fix v :: "goerr option"
      show "leaves (\<lambda>r fs. \<forall>es. quiet_trace c es \<and> (v = None \<longrightarrow> vouches c raw es) \<longrightarrow>
          (\<forall>esa. quiet_trace c esa \<longrightarrow> one_apply c (HashBytes raw) (r = None) (esa @ es @ fs)))
        (case v of Some err \<Rightarrow> ret (Some (Wrap ''validation failed: '' err [])) | None \<Rightarrow> post_raw x c apply_endpoint raw)"
      proof (cases v)
        case None
        show ?thesis
          unfolding None option.case
          by (rule leaves_mono [OF apply_leaves])
            (auto simp: one_apply_def quiet_trace_applies intro!: checked_trace_append [OF quiet_checked vouched_checked])
      qed (auto intro!: leaves_ret one_apply_quiet simp: quiet_append)
    qed
  qed (auto intro!: leaves_ret one_apply_quiet)
qed

section \<open>Attempts\<close>

lemma Load_silent: "leaves (\<lambda>a es. es = []) (LoadFromFile x path)"
  by (rule leaves_silent) (simp add: LoadFromFile_def env_call_def split: prod.split)

lemma fileHash_silent: "leaves (\<lambda>a es. es = []) (fileHash x path)"
  by (rule leaves_silent) (simp add: fileHash_def LoadFromFile_def env_call_def split: prod.split)

definition attempt :: "client \<Rightarrow> goerr + string \<Rightarrow> effect list \<Rightarrow> bool" where
  "attempt c a es \<longleftrightarrow> (case a of Inl err \<Rightarrow> one_apply c [] False es | Inr h \<Rightarrow> one_apply c h True es)"

lemma one_apply_error: "one_apply c h ok es \<Longrightarrow> one_apply c h' False es"
  by (simp add: one_apply_def)

lemma applyOnce_leaves: "leaves (attempt (Client r)) (applyOnce x r)"
  unfolding applyOnce_def
proof (rule leaves_bind [OF Load_silent])
  fix b :: "goerr + bytes"
  have e: "one_apply c h False []" for c h
    by (rule one_apply_quiet) (simp add: quiet_trace_def)
  show "leaves (\<lambda>a fs. \<forall>es. es = [] \<longrightarrow> attempt (Client r) a (es @ fs))
    (case b of Inl err \<Rightarrow> ret (Inl err)
     | Inr raw \<Rightarrow> ApplyRawConfiguration x (Client r) raw \<bind> (\<lambda>e. ret (case e of Some err \<Rightarrow> Inl err | None \<Rightarrow> Inr (HashBytes raw))))"
  proof (cases b)
    case (Inl err)
    then show ?thesis by (auto intro: leaves_ret simp: attempt_def e)
  next
    case (Inr raw)
    show ?thesis
      unfolding Inr sum.case
      by (rule leaves_bind [OF ApplyRaw_leaves], rule leaves_ret)
        (auto simp: attempt_def intro: one_apply_error split: option.split)
  qed
qed

text \<open>A round of at most \<open>n\<close> attempts.\<close>

definition rounds :: "client \<Rightarrow> nat \<Rightarrow> string \<times> goerr option \<Rightarrow> effect list \<Rightarrow> bool" where
  "rounds c n a es \<longleftrightarrow> checked_trace c es \<and> applies c es \<le> n
     \<and> (snd a = None \<longrightarrow> list_ex (applied_evidence c (fst a)) es)"

lemma rounds_empty: "rounds c n (h, Some err) []"
  by (simp add: rounds_def checked_trace_def applies_def)

lemma rounds_step: "one_apply c h False es \<Longrightarrow> rounds c n a fs \<Longrightarrow> rounds c (Suc n) a (es @ fs)"
  by (auto simp: rounds_def one_apply_def checked_trace_append)

lemma retry_leaves: "0 < n \<or> lastErr \<noteq> None \<Longrightarrow> leaves (rounds (Client r) n) (retry_loop x l r n backoff lastErr)"
proof (induction n arbitrary: backoff lastErr)
  case 0
  then show ?case by (auto intro: leaves_ret rounds_empty)
next
  case (Suc n)
  show ?case
    unfolding retry_loop.simps
  proof (rule leaves_bind [OF silent_calls(4)])
    fix ctx
    show "leaves (\<lambda>b fs. \<forall>es. es = [] \<longrightarrow> rounds (Client r) (Suc n) b (es @ fs))
      (case ctx of Some err \<Rightarrow> ret ([], Some err)
       | None \<Rightarrow> applyOnce x r \<bind> (\<lambda>a. case a of Inr h \<Rightarrow> ret (h, None)
         | Inl err \<Rightarrow> if 0 < n then sleep l (dur_ns backoff) \<bind> (\<lambda>_. retry_loop x l r n (backoff * 2) (Some err))
             else retry_loop x l r n backoff (Some err)))"
    proof (cases ctx)
      case None
      have step: "leaves (\<lambda>b fs. \<forall>es. attempt (Client r) a es \<longrightarrow> rounds (Client r) (Suc n) b (es @ fs))
        (case a of Inr h \<Rightarrow> ret (h, None)
         | Inl err \<Rightarrow> if 0 < n then sleep l (dur_ns backoff) \<bind> (\<lambda>_. retry_loop x l r n (backoff * 2) (Some err))
             else retry_loop x l r n backoff (Some err))" for a
      proof (cases a)
        case (Inl err)
        have "leaves (\<lambda>b fs. \<forall>es. es = [] \<longrightarrow> rounds (Client r) n b (es @ fs)) (retry_loop x l r n bo (Some err))" for bo
          using Suc.IH [of "Some err" bo] by simp
        then have "leaves (rounds (Client r) n) (if 0 < n then sleep l (dur_ns backoff) \<bind> (\<lambda>_. retry_loop x l r n (backoff * 2) (Some err))
             else retry_loop x l r n backoff (Some err))"
          using Suc.IH [of "Some err" backoff] by (auto intro: leaves_bind [OF silent_calls(2)])
        then show ?thesis
          unfolding Inl sum.case
          by (rule leaves_mono) (auto simp: attempt_def intro: rounds_step)
      next
        case (Inr h)
        then show ?thesis
          by (auto intro!: leaves_ret simp: attempt_def rounds_def one_apply_def)
      qed
      have "leaves (rounds (Client r) (Suc n)) (applyOnce x r \<bind> (\<lambda>a. case a of Inr h \<Rightarrow> ret (h, None)
         | Inl err \<Rightarrow> if 0 < n then sleep l (dur_ns backoff) \<bind> (\<lambda>_. retry_loop x l r n (backoff * 2) (Some err))
             else retry_loop x l r n backoff (Some err)))"
        by (rule leaves_bind [OF applyOnce_leaves step])
      with None show ?thesis by simp
    qed (auto intro: leaves_ret rounds_empty)
  qed
qed

lemma applyWithRetry_leaves: "leaves (rounds (Client r) maxApplyAttempts) (applyWithRetry x l r)"
  unfolding applyWithRetry_def by (rule retry_leaves) (simp add: maxApplyAttempts_def)

section \<open>Notices\<close>

text \<open>What handling notices from a remembered hash leaves: at most \<open>n\<close> rounds, and a hash that is the
  old one or was acknowledged since.\<close>

definition follows :: "client \<Rightarrow> nat \<Rightarrow> string \<Rightarrow> string \<Rightarrow> effect list \<Rightarrow> bool" where
  "follows c n h h' es \<longleftrightarrow> checked_trace c es \<and> applies c es \<le> n * maxApplyAttempts
     \<and> (h' = h \<or> list_ex (applied_evidence c h') es)"

lemma follows_refl: "follows c n h h []"
  by (simp add: follows_def checked_trace_def)

lemma follows_trans: "follows c m h h' es \<Longrightarrow> follows c n h' h'' fs \<Longrightarrow> follows c (m + n) h h'' (es @ fs)"
  by (auto simp: follows_def checked_trace_append add_mult_distrib)

lemma follows_more: "follows c m h h' es \<Longrightarrow> m \<le> n \<Longrightarrow> follows c n h h' es"
  by (auto simp: follows_def intro: le_trans [OF _ mult_le_mono1])

lemma follows_Suc: "follows c (Suc 0) h h' es \<Longrightarrow> follows c n h' h'' fs \<Longrightarrow> follows c (Suc n) h h'' (es @ fs)"
  using follows_trans [of c "Suc 0" h h' es n h'' fs] by simp

lemma rounds_follows: "rounds c maxApplyAttempts (h', e) es \<Longrightarrow> follows c 1 h (case e of None \<Rightarrow> h' | Some _ \<Rightarrow> h) es"
  by (auto simp: rounds_def follows_def split: option.split)

lemma leaves_after_silent:
  assumes "leaves (\<lambda>a es. es = []) m" "\<And>a. leaves P (f a)"
  shows "leaves P (State_Monad.bind m f)"
  by (rule leaves_bind [OF assms(1)]) (use assms(2) in \<open>auto elim: leaves_mono\<close>)

lemma leaves_keep: "leaves (\<lambda>s. follows c n h (snd s)) (ret (e :: goerr option, h))"
  by (rule leaves_ret) (simp add: follows_refl)

lemma handle_notice_leaves:
  "leaves (\<lambda>s. follows (Client r) 1 h (snd s)) (handle_notice x l r h ev)"
proof (cases ev)
  case (FileEvent name ops)
  have changed: "leaves (\<lambda>s. follows (Client r) 1 h (snd s))
      (applyWithRetry x l r \<bind> (\<lambda>a. case a of (newH, Some err) \<Rightarrow> ret (None :: goerr option, h) | (newH, None) \<Rightarrow> ret (None, newH)))"
    by (rule leaves_bind [OF applyWithRetry_leaves])
      (auto simp: split_beta split: option.split intro!: leaves_ret dest: rounds_follows [of _ _ _ _ h])
  have checked: "leaves (\<lambda>s. follows (Client r) 1 h (snd s))
     (fileHash x (CfgPath r) \<bind> (\<lambda>f. case f of Inl err \<Rightarrow> ret (None, h) | Inr h' \<Rightarrow> if h' = h then ret (None, h) else
        applyWithRetry x l r \<bind> (\<lambda>a. case a of (newH, Some err) \<Rightarrow> ret (None :: goerr option, h) | (newH, None) \<Rightarrow> ret (None, newH))))"
    by (rule leaves_after_silent [OF fileHash_silent]) (simp add: changed [simplified] leaves_keep split: sum.split)
  show ?thesis
    unfolding FileEvent handle_notice_def notice.case
    by (simp only: leaves_keep leaves_after_silent [OF silent_calls(2) checked] split: if_split) simp
qed (auto simp: handle_notice_def leaves_keep)

lemma watch_loop_leaves: "leaves (\<lambda>s. follows (Client r) n h (snd s)) (watch_loop x l r n h)"
proof (induction n arbitrary: h)
  case 0
  show ?case by (simp add: leaves_keep)
next
  case (Suc n)
  have rest: "leaves (\<lambda>t fs. \<forall>es. follows (Client r) 1 h (snd s) es \<longrightarrow> follows (Client r) (Suc n) h (snd t) (es @ fs))
     (case s of (Some err, h) \<Rightarrow> ret (Some err, h) | (None, h) \<Rightarrow> watch_loop x l r n h)" for s :: "goerr option \<times> string"
    by (cases s; cases "fst s")
      (auto intro!: leaves_ret leaves_mono [OF Suc.IH] intro: follows_Suc follows_more)
  show ?case
    unfolding watch_loop.simps
    by (rule leaves_after_silent [OF silent_calls(3)]) (rule leaves_bind [OF handle_notice_leaves rest])
qed

definition run_marks :: "client \<Rightarrow> nat \<Rightarrow> run_outcome \<Rightarrow> effect list \<Rightarrow> bool" where
  "run_marks c n out es \<longleftrightarrow> checked_trace c es \<and> applies c es \<le> Suc n * maxApplyAttempts
     \<and> (case out of Running h \<Rightarrow> list_ex (applied_evidence c h) es | Exited _ \<Rightarrow> True)"

lemma rounds_exit: "rounds c maxApplyAttempts a es \<Longrightarrow> run_marks c n (Exited err) es"
  by (simp add: rounds_def run_marks_def)

lemma rounds_then_follows:
  assumes "rounds c maxApplyAttempts (h, None) es" "follows c n h h' fs"
  shows "run_marks c n (Running h') (es @ fs)" "run_marks c n (Exited err) (es @ fs)"
  using assms by (auto simp: rounds_def follows_def run_marks_def checked_trace_append)

lemma normalised_client [simp]: "Client (normalised r) = Client r"
  by (simp add: normalised_def)

definition watch_marks :: "client \<Rightarrow> nat \<Rightarrow> string \<Rightarrow> run_outcome \<Rightarrow> effect list \<Rightarrow> bool" where
  "watch_marks c n h out es \<longleftrightarrow> (\<exists>h'. follows c n h h' es \<and> (case out of Running k \<Rightarrow> k = h' | Exited _ \<Rightarrow> True))"

lemma watch_marks_exit: "watch_marks c n h (Exited err) []"
  by (auto simp: watch_marks_def intro: follows_refl)

lemma watch_marks_run:
  "rounds c maxApplyAttempts (h, None) es \<Longrightarrow> watch_marks c n h out fs \<Longrightarrow> run_marks c n out (es @ fs)"
  by (cases out) (auto simp: watch_marks_def intro: rounds_then_follows)

lemma addWatches_silent: "leaves (\<lambda>a es. es = []) (addWatches l r)"
  by (rule leaves_silent) (simp add: addWatches_def env_call_def split: prod.split)

lemma watching_leaves: "leaves (watch_marks (Client r) n h) (watching x l r n h)"
proof -
  have loop: "leaves (watch_marks (Client r) n h)
      (watch_loop x l r n h \<bind> (\<lambda>s. ret (case s of (Some err, h') \<Rightarrow> Exited err | (None, h') \<Rightarrow> Running h')))"
    by (rule leaves_bind [OF watch_loop_leaves]) (auto intro!: leaves_ret simp: watch_marks_def split: prod.split option.split)
  have exit: "leaves (watch_marks (Client r) n h) (ret (Exited err))" for err
    by (rule leaves_ret) (rule watch_marks_exit)
  have added: "leaves (watch_marks (Client r) n h) (addWatches l r \<bind> (\<lambda>aw. case aw of Some err \<Rightarrow> ret (Exited err)
      | None \<Rightarrow> watch_loop x l r n h \<bind> (\<lambda>s. ret (case s of (Some err, h') \<Rightarrow> Exited err | (None, h') \<Rightarrow> Running h'))))"
    by (rule leaves_after_silent [OF addWatches_silent]) (simp add: loop exit split: option.split)
  show ?thesis
    unfolding watching_def
    by (auto simp: added exit split: option.split intro!: leaves_after_silent [OF silent_calls(3)] leaves_after_silent [OF silent_calls(1)])
qed

lemma Run_leaves: "leaves (run_marks (Client r) n) (Run x l r n)"
  unfolding Run_def Let_def
proof (rule leaves_bind [OF applyWithRetry_leaves])
  fix a :: "string \<times> goerr option"
  show "leaves (\<lambda>b fs. \<forall>es. rounds (Client (normalised r)) maxApplyAttempts a es \<longrightarrow> run_marks (Client r) n b (es @ fs))
     (case a of (h, Some err) \<Rightarrow> ret (Exited err) | (h, None) \<Rightarrow> watching x l (normalised r) n h)"
    by (cases a; cases "snd a")
      (auto intro!: leaves_ret leaves_mono [OF watching_leaves [of "normalised r", simplified]]
        intro: rounds_exit watch_marks_run)
qed

lemma Run_marks:
  obtains es where "w_trace (snd (run_state (Run x l r n) w)) = w_trace w @ es"
    "run_marks (Client r) n (fst (run_state (Run x l r n) w)) es"
  by (rule leavesE [OF Run_leaves prod.collapse [symmetric]]) blast

text \<open>C28: whatever the file holds, the watcher reports and the gateway answers, every configuration
  the local runner applies was sent for validation before, with the same bytes, and accepted.\<close>

theorem local_apply_validated:
  "\<exists>es. w_trace (snd (run_state (Run x l r n) w)) = w_trace w @ es \<and> traced (checked (Client r) None) [] es"
proof -
  obtain es where "w_trace (snd (run_state (Run x l r n) w)) = w_trace w @ es" "checked_trace (Client r) es"
    using Run_marks [of x l r n w] by (auto simp: run_marks_def)
  then show ?thesis by (auto simp: checked_trace_def)
qed

text \<open>C29: after n notices of the watcher the local runner has sent at most five applies for the
  first configuration and five for each notice.\<close>

theorem local_attempts_bounded:
  "\<exists>es. w_trace (snd (run_state (Run x l r n) w)) = w_trace w @ es
     \<and> applies (Client r) es \<le> (n + 1) * maxApplyAttempts"
  using Run_marks [of x l r n w] by (auto simp: run_marks_def)

text \<open>C27: while the local runner is running, the hash it compares the file with is that of bytes whose
  apply the gateway acknowledged in this run, not merely of bytes it read.\<close>

theorem local_running_hash:
  assumes "fst (run_state (Run x l r n) w) = Running h"
  shows "\<exists>es. w_trace (snd (run_state (Run x l r n) w)) = w_trace w @ es
     \<and> list_ex (applied_evidence (Client r) h) es"
  using Run_marks [of x l r n w] assms by (auto simp: run_marks_def)

section \<open>A file that can be applied\<close>

lemma ApplyRaw_accepts:
  assumes "accepts x c raw"
  shows "\<exists>w'. run_state (ApplyRawConfiguration x c raw) w = (None, w')"
proof -
  have q: "version_keeps x c (\<lambda>e. [])" by (simp add: version_keeps_def)
  obtain w1 where r: "run_state (waitForReady x c dataplaneReadyTimeout) w = (None, w1)"
    by (rule ready_answered [OF assms q, of w])
  have a: "answers x (post_request c validate_endpoint raw n) (\<lambda>_. True)"
    "answers x (post_request c apply_endpoint raw n) (\<lambda>_. True)" for n
    using assms by (simp_all add: accepts_def post_raw_instances(3,4))
  obtain w2 where v: "run_state (post_raw x c validate_endpoint raw) w1 = (None, w2)"
    by (rule post_answered [OF assms q a(1), of w1])
  obtain w3 where p: "run_state (post_raw x c apply_endpoint raw) w2 = (None, w3)"
    by (rule post_answered [OF assms q a(2), of w2])
  from r v p show ?thesis
    by (simp add: ApplyRawConfiguration_def post_raw_instances)
qed

text \<open>The first attempt suffices when the file is readable and the gateway accepts.\<close>

lemma applyWithRetry_accepts:
  assumes "accepts x (Client r) raw" "\<And>e. fst (x_read_file x (CfgPath r) e) = Inr raw"
    "CfgPath r \<noteq> []" "l_ctx_err l (w_env w) = None"
  shows "\<exists>w'. run_state (applyWithRetry x l r) w = ((HashBytes raw, None), w')"
proof -
  obtain e where rd: "x_read_file x (CfgPath r) (w_env w) = (Inr raw, e)" using assms(2) by (metis prod.collapse)
  obtain w' where "run_state (ApplyRawConfiguration x (Client r) raw) (w\<lparr>w_env := e\<rparr>) = (None, w')"
    using ApplyRaw_accepts [OF assms(1)] by blast
  then have "run_state (applyOnce x r) w = (Inr (HashBytes raw), w')"
    using assms(3) rd by (simp add: applyOnce_def LoadFromFile_def env_call_def)
  with assms(4) show ?thesis
    by (simp add: applyWithRetry_def maxApplyAttempts_def gets_def eval_nat_numeral)
qed

section \<open>Examples\<close>

definition file_ext :: "cluster ext" where
  "file_ext = (cluster_ext ''x'')\<lparr>x_read_file := (\<lambda>p e. (Inr ''x'', e))\<rparr>"

definition idle_env :: "'e local_env" where
  "idle_env = \<lparr>l_ctx_err = (\<lambda>e. None), l_sleep = (\<lambda>d e. (0, e)), l_new_watcher = (\<lambda>e. (None, e)),
     l_watch = (\<lambda>p e. (None, e)), l_next = (\<lambda>e. (ContextDone Canceled, 0, e)),
     l_until_done = (\<lambda>e. (Canceled, 0, e))\<rparr>"

definition demo_runner :: runner where
  "demo_runner = \<lparr>CfgPath = ''/tmp/haproxy.cfg'', Client = demo_client, PollEvery = 0, Watch = True\<rparr>"

lemma file_accepts: "accepts file_ext demo_client raw"
proof -
  have "answers file_ext = answers (cluster_ext ''x'')"
    by (simp add: fun_eq_iff answers_def file_ext_def)
  moreover have "version_answer file_ext = version_answer (cluster_ext ''x'')"
    by (simp add: fun_eq_iff version_answer_def json_result_def decode_stream_def file_ext_def split: sum.split option.split)
  ultimately show ?thesis using cluster_accepts [of "''x''" raw] by (simp add: accepts_def)
qed

lemma demo_running: "fst (run_state (Run file_ext idle_env demo_runner 0) w) = Running (HashBytes ''x'')"
proof -
  let ?r = "normalised demo_runner"
  have r: "Client ?r = demo_client" "CfgPath ?r = ''/tmp/haproxy.cfg''" "Watch ?r"
    by (simp_all add: normalised_def demo_runner_def)
  obtain w' where "run_state (applyWithRetry file_ext idle_env ?r) w = ((HashBytes ''x'', None), w')"
    using applyWithRetry_accepts [of file_ext ?r "''x''" idle_env w] file_accepts r
    by (auto simp: file_ext_def idle_env_def)
  with r(3) show ?thesis
    by (simp add: Run_def Let_def watching_def addWatches_def env_call_def idle_env_def)
qed

theorem local_running_hash_witness:
  "\<exists>es. w_trace (snd (run_state (Run file_ext idle_env demo_runner 0) (demo_world ''x'' fmempty))) =
       w_trace (demo_world ''x'' fmempty) @ es \<and> list_ex (applied_evidence demo_client (HashBytes ''x'')) es"
  using local_running_hash [OF demo_running, of "demo_world ''x'' fmempty"] by (simp add: demo_runner_def)

end
