(* ===== verification/Operator.thy ===== *)
theory Operator
  imports State_Laws Cluster
begin

text \<open>
  The operator as it runs: the event filter and the registrations of \<^verbatim>\<open>SetupWithManager\<close>,
  closing the SPIRE source, and the histories of one process. A history is any sequence of
  reconciles, readiness probes and changes of the outside world; what the manager's queue admits is
  such a sequence, since it runs one reconcile at a time and the probe shares only the client,
  which is built under a mutex (see \<open>Client_Cache\<close>).
\<close>

section \<open>Events\<close>

text \<open>The object of a watch event: a Secret, possibly a nil pointer, or something else.\<close>

datatype watched = SecretObject "secret option" | OtherObject

datatype watch_event = CreateEvent watched | UpdateEvent watched watched | DeleteEvent watched | GenericEvent watched

fun event_passes :: "watch_event \<Rightarrow> bool" where
  "event_passes (CreateEvent obj) = True"
| "event_passes (UpdateEvent (SecretObject oldSecret) (SecretObject newSecret)) = isRelevantUpdate oldSecret newSecret"
| "event_passes (UpdateEvent old new) = True"
| "event_passes (DeleteEvent obj) = False"
| "event_passes (GenericEvent obj) = False"

section \<open>Registration and shutdown\<close>

record 'e manager =
  mg_add :: "'e \<Rightarrow> goerr option \<times> 'e"
  mg_readyz :: "'e \<Rightarrow> goerr option \<times> 'e"
  mg_controller :: "'e \<Rightarrow> goerr option \<times> 'e"
  mg_done :: "'e \<Rightarrow> unit \<times> 'e"
  mg_close :: "'e \<Rightarrow> goerr option \<times> 'e"

definition SetupWithManager :: "'e manager \<Rightarrow> settings \<Rightarrow> ('e, goerr option \<times> settings) go" where
  "SetupWithManager mg cfg =
    (let cfg' = cfg\<lparr>Recorder := True\<rparr> in do {
       added \<leftarrow> env_call (mg_add mg);
       (case added of
          Some err \<Rightarrow> ret (Some (Wrap ''register SPIRE source closer: '' err []), cfg')
        | None \<Rightarrow> do {
            ready \<leftarrow> env_call (mg_readyz mg);
            (case ready of
               Some err \<Rightarrow> ret (Some (Wrap ''register dataplane readiness check: '' err []), cfg')
             | None \<Rightarrow> do {
                 built \<leftarrow> env_call (mg_controller mg);
                 ret (built, cfg')
               })
          })
     })"

definition Close :: "'e manager \<Rightarrow> ('e, goerr option) go" where
  "Close mg = do {
     open \<leftarrow> gets (\<lambda>w. spireSource (w_rec w));
     (if open then env_call (mg_close mg) else ret None)
   }"

text \<open>The runnable that closes the source: it waits until the manager's context ends.\<close>

definition spireSourceCloser_Start :: "'e manager \<Rightarrow> ('e, goerr option) go" where
  "spireSourceCloser_Start mg = do {
     env_call (mg_done mg);
     Close mg
   }"

section \<open>Histories\<close>

inductive operator_step :: "'e ext \<Rightarrow> 'e manager \<Rightarrow> settings \<Rightarrow> 'e world \<Rightarrow> 'e world \<Rightarrow> bool"
  for x :: "'e ext" and mg :: "'e manager" and cfg :: settings where
  reconciled: "run_state (Reconcile x cfg req) w = (r, w') \<Longrightarrow> operator_step x mg cfg w w'"
| probed: "run_state (DataplaneReady x cfg) w = (e, w') \<Longrightarrow> operator_step x mg cfg w w'"
| closed: "run_state (spireSourceCloser_Start mg) w = (e, w') \<Longrightarrow> operator_step x mg cfg w w'"
| outside: "w_now w \<le> t \<Longrightarrow> operator_step x mg cfg w (w\<lparr>w_env := e, w_now := t\<rparr>)"

inductive reachable :: "'e ext \<Rightarrow> 'e manager \<Rightarrow> settings \<Rightarrow> 'e world \<Rightarrow> bool"
  for x :: "'e ext" and mg :: "'e manager" and cfg :: settings where
  started: "reachable x mg cfg (initial_world e)"
| stepped: "reachable x mg cfg w \<Longrightarrow> operator_step x mg cfg w w' \<Longrightarrow> reachable x mg cfg w'"

text \<open>An invariant of the history holds at the start and is kept by each kind of step.\<close>

lemma reachable_kept:
  assumes "reachable x mg cfg w" "\<And>e. I (initial_world e)"
    "\<And>req. rel (keeps I) (Reconcile x cfg req)" "rel (keeps I) (DataplaneReady x cfg)"
    "\<And>w w'. w_rec w' = w_rec w \<Longrightarrow> w_trace w' = w_trace w \<Longrightarrow> w_metrics w' = w_metrics w \<Longrightarrow> I w \<Longrightarrow> I w'"
  shows "I w"
  using assms(1)
proof induction
  case (started e)
  show ?case by (rule assms(2))
next
  case (stepped w w')
  show ?case
    using stepped.hyps(2)
  proof (cases rule: operator_step.cases)
    case (reconciled req r)
    with relD [OF assms(3) [of req], of w] stepped.IH show ?thesis by (simp add: keeps_def)
  next
    case (probed e)
    with relD [OF assms(4), of w] stepped.IH show ?thesis by (simp add: keeps_def)
  next
    case (closed e)
    then have "w_rec w' = w_rec w" "w_trace w' = w_trace w" "w_metrics w' = w_metrics w"
      by (auto simp: spireSourceCloser_Start_def Close_def env_call_def split: if_splits prod.splits)
    then show ?thesis using stepped.IH by (rule assms(5))
  next
    case (outside t e)
    then show ?thesis using stepped.IH by (intro assms(5) [of w' w]) simp_all
  qed
qed

lemma kept_reachable:
  assumes "kept_state I x cfg" "\<And>e. I (initial_world e)" "reachable x mg cfg w"
  shows "I w"
proof (rule reachable_kept [where I = I, OF assms(3,2)])
  fix w w' :: "'a world"
  assume "w_rec w' = w_rec w" "w_metrics w' = w_metrics w" "I w"
  then show "I w'" using kept_state.state_only [OF assms(1), of w' w] by simp
qed (rule kept_state.Reconcile_kept [OF assms(1)], rule kept_state.DataplaneReady_kept [OF assms(1)])

section \<open>What every history keeps\<close>

lemma start_wf: "rec_wf cfg (w_rec (initial_world e))"
  by (simp add: rec_wf_def initial_world_def initial_reconciler_def)

lemma start_series: "single_series (initial_world e)"
  by (simp add: single_series_def initial_world_def initial_metrics_def initial_reconciler_def)

text \<open>C24: at every point of every history the reconciler's fields are well formed: the failure counter is
  a machine integer, every remembered hash is a fingerprint, and the cached client was built from the
  operator's settings, verifies the server unless that is switched off, and uses the SPIRE source
  exactly when a socket is configured.\<close>

theorem history_well_formed:
  assumes "reachable x mg cfg w"
  shows "rec_wf cfg (w_rec w)"
  using wf.kept_state_axioms start_wf assms by (rule kept_reachable)

text \<open>C25: at every point of every history the configuration-hash gauge exports at most one series, the
  remembered hash with the remembered outcome, and its value is one.\<close>

theorem history_single_series:
  assumes "reachable x mg cfg w"
  shows "ConfigHash (w_metrics w) = fmempty \<or>
    ConfigHash (w_metrics w) = fmupd (lastMetricHash (w_rec w), lastMetricState (w_rec w)) 1 fmempty"
proof -
  have "single_series w" using series.kept_state_axioms start_series assms by (rule kept_reachable)
  then show ?thesis by (auto simp: single_series_def)
qed

section \<open>What every history has sent\<close>

definition backed :: "(client option \<Rightarrow> effect list \<Rightarrow> effect \<Rightarrow> bool) \<Rightarrow> 'e world \<Rightarrow> bool" where
  "backed ok w \<longleftrightarrow> traced (ok (hclient w)) [] (w_trace w)"

context evidence
begin

lemma backed_evident:
  assumes "backed ok w" "evident ok w w'"
  shows "backed ok w'"
proof -
  obtain es where es: "w_trace w' = w_trace w @ es" "traced (ok (hclient w')) [] es"
    using assms(2) by (auto simp: evident_def)
  have "traced (ok (hclient w')) [] (w_trace w)"
  proof (cases "hclient w")
    case None
    with assms(1) have "traced (ok None) [] (w_trace w)" by (simp add: backed_def)
    then show ?thesis by (rule traced_client)
  next
    case (Some c)
    with assms show ?thesis by (simp add: backed_def evident_def)
  qed
  moreover have "traced (ok (hclient w')) (w_trace w) es" by (rule traced_mono [OF es(2)]) simp
  ultimately show ?thesis by (simp add: backed_def es(1) traced_append)
qed

lemma rel_backed: "rel (evident ok) m \<Longrightarrow> rel (keeps (backed ok)) m"
  unfolding rel_def keeps_def using backed_evident by blast

end

lemma probe_does: "rel (does (\<lambda>c rq. rq = version_request c) (\<lambda>_. False)) (DataplaneReady x cfg)"
  unfolding DataplaneReady_def Ping_def
  by (rule with_client_does; simp only: sum.case)
    ((intro does.rel_control does_with.rel_control rel_calls_with [OF getConfigVersion_calls])+, simp)

lemma backed_reachable:
  assumes "evidence ok" "\<And>req. rel (evident ok) (Reconcile x cfg req)" "rel (evident ok) (DataplaneReady x cfg)"
    "reachable x mg cfg w"
  shows "backed ok w"
proof (rule reachable_kept [where I = "backed ok", OF assms(4)])
  show "backed ok (initial_world e)" for e by (simp add: backed_def initial_world_def)
qed (use evidence.rel_backed [OF assms(1)] assms(2,3) in \<open>auto simp: backed_def\<close>)

lemma does_weaken:
  assumes "rel (does P K) m" "\<And>c rq. P c rq \<Longrightarrow> P' c rq" "\<And>e. K e \<Longrightarrow> K' e"
  shows "rel (does P' K') m"
proof -
  have "allowed k P' K' e" if "allowed k P K e" for k e
    using that assms(2,3) by (cases e) auto
  with assms(1) show ?thesis by (auto simp: rel_def does_def intro: emits_mono)
qed

text \<open>However reconciles, probes, failures and restarts of the gateway alternate, every configuration
  the operator ever applies is non-empty and was validated before, byte for byte, by the same client.\<close>

theorem history_applies_validated:
  assumes "reachable x mg cfg w"
  shows "traced (apply_guarded (hclient w)) [] (w_trace w)"
proof -
  have "rel (evident apply_guarded) (DataplaneReady x cfg)"
    by (rule rel_guarded [OF does_weaken [OF probe_does]])
      (auto simp: spares_def storage_request_kind [OF version_storage])
  from backed_reachable [OF guard.evidence_axioms Reconcile_guarded this assms]
  show ?thesis by (simp add: backed_def)
qed

text \<open>In every history a hash is recorded as applied only after an apply of those bytes was
  acknowledged, and as failed only after those bytes were refused.\<close>

theorem history_hashes_justified:
  assumes "honest x" "reachable x mg cfg w"
  shows "traced (hash_justified (hclient w)) [] (w_trace w)"
proof -
  have "rel (evident hash_justified) (DataplaneReady x cfg)"
    by (rule rel_justified [OF does_weaken [OF probe_does]]) auto
  from backed_reachable [OF just.evidence_axioms Reconcile_justified [OF assms(1)] this assms(2)]
  show ?thesis by (simp add: backed_def)
qed

section \<open>What every effect of a history satisfies\<close>

lemma does_effects:
  assumes "rel (does P K) m" "\<And>rq out. K (HttpCall rq out)"
  shows "rel (keeps (\<lambda>w. list_all K (w_trace w))) m"
proof -
  have "K e" if "allowed k P K e" for k e
    using that assms(2) by (cases e) auto
  then have e: "emits K w (snd (run_state m w))" for w
    using relD [OF assms(1), of w] by (auto simp: does_def intro: emits_mono)
  have "list_all K (w_trace w) \<longrightarrow> list_all K (w_trace (snd (run_state m w)))" for w
    using e [of w] by (auto simp: emits_def)
  then show ?thesis by (simp add: rel_def keeps_def)
qed

lemma history_effects:
  assumes "reachable x mg cfg w" "\<And>req. rel (does P K) (Reconcile x cfg req)" "\<And>rq out. K (HttpCall rq out)"
  shows "list_all K (w_trace w)"
proof (rule reachable_kept [where I = "\<lambda>w. list_all K (w_trace w)", OF assms(1)])
  show "rel (keeps (\<lambda>w. list_all K (w_trace w))) (DataplaneReady x cfg)"
    by (rule does_effects [OF does_weaken [OF probe_does]]) (auto intro: assms(3))
qed (auto simp: initial_world_def intro: does_effects [OF assms(2,3)])

section \<open>Examples\<close>

definition plain_manager :: "'e manager" where
  "plain_manager = \<lparr>mg_add = (\<lambda>e. (None, e)), mg_readyz = (\<lambda>e. (None, e)), mg_controller = (\<lambda>e. (None, e)),
     mg_done = (\<lambda>e. ((), e)), mg_close = (\<lambda>e. (None, e))\<rparr>"

text \<open>One reconcile and one probe of the concrete environment.\<close>

definition after_probe :: "cluster world" where
  "after_probe = snd (run_state (DataplaneReady (cluster_ext ''x'') demo_settings)
     (snd (run_state (Reconcile (cluster_ext ''x'') demo_settings config_key) (demo_world ''x'' fmempty))))"

lemma after_probe_reachable: "reachable (cluster_ext ''x'') plain_manager demo_settings after_probe"
  unfolding after_probe_def
  by (rule stepped [OF stepped [OF started reconciled [OF prod.collapse [symmetric]]] probed [OF prod.collapse [symmetric]]])

theorem history_well_formed_witness: "rec_wf demo_settings (w_rec after_probe)"
  by (rule history_well_formed [OF after_probe_reachable])

theorem history_single_series_witness:
  "ConfigHash (w_metrics after_probe) = fmempty \<or>
    ConfigHash (w_metrics after_probe) = fmupd (lastMetricHash (w_rec after_probe), lastMetricState (w_rec after_probe)) 1 fmempty"
  by (rule history_single_series [OF after_probe_reachable])

theorem history_applies_validated_witness: "traced (apply_guarded (hclient after_probe)) [] (w_trace after_probe)"
  by (rule history_applies_validated [OF after_probe_reachable])

theorem history_hashes_justified_witness: "traced (hash_justified (hclient after_probe)) [] (w_trace after_probe)"
  by (rule history_hashes_justified [OF cluster_honest after_probe_reachable])

end
