(* ===== verification/Lifecycle.thy ===== *)
theory Lifecycle
  imports Operator
begin

text \<open>
  The contract of the status annotations, as a small machine over four values (the applied, the
  observed and the failed hash and the status), and the refinement: every patch the operator sends,
  in any history, is a step of that machine whose guards are what the gateway answered before.
\<close>

section \<open>The specification\<close>

record lifecycle =
  lc_applied :: string
  lc_observed :: string
  lc_failed :: string
  lc_status :: string

datatype lifecycle_op = Report string | Refuse string string | Accept string string | Adopt string | Keep

fun lc_op :: "lifecycle_op \<Rightarrow> lifecycle \<Rightarrow> lifecycle" where
  "lc_op (Report v) l = l\<lparr>lc_status := v\<rparr>"
| "lc_op (Refuse h v) l = l\<lparr>lc_failed := h, lc_status := v\<rparr>"
| "lc_op (Accept h ob) l = \<lparr>lc_applied = h, lc_observed = ob, lc_failed = [], lc_status = ''Applied''\<rparr>"
| "lc_op (Adopt h) l = l\<lparr>lc_observed := h, lc_status := ''Applied''\<rparr>"
| "lc_op Keep l = l"

text \<open>A hash is new when it is one and the record did not hold it; only the gateway's word makes it so.\<close>

definition new_hash :: "string \<Rightarrow> string \<Rightarrow> bool" where
  "new_hash h old \<longleftrightarrow> h \<noteq> [] \<and> h \<noteq> old"

fun lc_guard :: "(string \<Rightarrow> bool) \<Rightarrow> (string \<Rightarrow> bool) \<Rightarrow> lifecycle_op \<Rightarrow> lifecycle \<Rightarrow> bool" where
  "lc_guard acked refused (Refuse h v) l = (new_hash h (lc_failed l) \<longrightarrow> refused h)"
| "lc_guard acked refused (Accept h ob) l = (new_hash h (lc_applied l) \<longrightarrow> acked h)"
| "lc_guard acked refused op l = True"

inductive lc_step :: "(string \<Rightarrow> bool) \<Rightarrow> (string \<Rightarrow> bool) \<Rightarrow> lifecycle \<Rightarrow> lifecycle \<Rightarrow> bool"
  for acked refused where
  step: "lc_guard acked refused op l \<Longrightarrow> lc_step acked refused l (lc_op op l)"

inductive_simps lc_step_iff: "lc_step acked refused l l'"

text \<open>A changed applied hash was acknowledged and leaves no failed hash and the status Applied; a new
  failed hash was refused and leaves the applied one alone.\<close>

lemma lc_step_applied:
  assumes "lc_step acked refused l l'" "new_hash (lc_applied l') (lc_applied l)"
  shows "acked (lc_applied l') \<and> lc_failed l' = [] \<and> lc_status l' = ''Applied''"
  using assms
proof cases
  case (step op)
  with assms(2) show ?thesis by (cases op) (auto simp: new_hash_def)
qed

lemma lc_step_failed:
  assumes "lc_step acked refused l l'" "new_hash (lc_failed l') (lc_failed l)"
  shows "refused (lc_failed l') \<and> lc_applied l' = lc_applied l \<and> lc_observed l' = lc_observed l"
  using assms
proof cases
  case (step op)
  with assms(2) show ?thesis by (cases op) (auto simp: new_hash_def)
qed

section \<open>The abstraction\<close>

definition lifecycle_of :: "secret \<Rightarrow> lifecycle" where
  "lifecycle_of s = \<lparr>lc_applied = annotation s LastAppliedHashAnnotation,
     lc_observed = annotation s LastObservedHashAnnotation,
     lc_failed = annotation s LastFailedHashAnnotation, lc_status = annotation s StatusAnnotation\<rparr>"

lemma annotation_mutated:
  "annotation (mutated f s) k = (case fmlookup (f (go_map (s_annotations s))) k of None \<Rightarrow> [] | Some v \<Rightarrow> v)"
  by (simp add: annotation_map)

text \<open>The code's mutations are the machine's operations.\<close>

lemma mutation_ops:
  "lifecycle_of (mutated clear_status s) = lc_op (Report ''Applied'') (lifecycle_of s)"
  "lifecycle_of (mutated (adopt_baseline h) s) = lc_op (Adopt h) (lifecycle_of s)"
  "lifecycle_of (mutated (record_cert_sync raw) s) = lc_op Keep (lifecycle_of s)"
  "lifecycle_of (mutated (status_mutation v m t no_extra) s) = lc_op (Report v) (lifecycle_of s)"
  "lifecycle_of (mutated (status_mutation v m t (reject_mutation h)) s) = lc_op (Refuse h v) (lifecycle_of s)"
  "lifecycle_of (mutated (record_applied h ob t) s) = lc_op (Accept h ob) (lifecycle_of s)"
  by (simp_all add: lifecycle_of_def annotation_mutated annotation_map [of s] mutation_defs annotation_defs)

definition performs :: "effect \<Rightarrow> bool" where
  "performs e = (case e of KubePatch orig new r \<Rightarrow> \<exists>op. lifecycle_of new = lc_op op (lifecycle_of orig) | _ \<Rightarrow> True)"

lemma base_performs: "base_mutation f \<Longrightarrow> performs (KubePatch s (mutated f s) r)"
  by (auto simp: performs_def base_mutation_def mutation_ops simp del: lc_op.simps)

interpretation perform: config_policy x cfg "\<lambda>_ _. True" performs "\<lambda>_. True" "\<lambda>_. True" "\<lambda>_. True" "\<lambda>_. True"
    "\<lambda>_. True" for x cfg
proof unfold_locales
  show "base_mutation f \<Longrightarrow> performs (KubePatch s (mutated f s) r)" for s f r by (rule base_performs)
qed (auto simp: performs_def mutation_ops simp del: lc_op.simps)

lemma history_performs:
  assumes "reachable x mg cfg w"
  shows "list_all performs (w_trace w)"
  by (rule history_effects [OF assms perform.Reconcile_does]) (simp_all add: performs_def)

section \<open>The refinement\<close>

definition acked :: "client option \<Rightarrow> effect list \<Rightarrow> string \<Rightarrow> bool" where
  "acked k pre h = (case k of None \<Rightarrow> False | Some c \<Rightarrow> list_ex (applied_evidence c h) pre)"

definition refused :: "client option \<Rightarrow> effect list \<Rightarrow> string \<Rightarrow> bool" where
  "refused k pre h \<longleftrightarrow> h = HashBytes [] \<or> (case k of None \<Rightarrow> False | Some c \<Rightarrow> list_ex (refused_evidence c h) pre)"

definition refines :: "client option \<Rightarrow> effect list \<Rightarrow> effect \<Rightarrow> bool" where
  "refines k pre e = (case e of
     KubePatch orig new r \<Rightarrow> lc_step (acked k pre) (refused k pre) (lifecycle_of orig) (lifecycle_of new)
   | _ \<Rightarrow> True)"

lemma patch_refines:
  assumes "hash_justified k pre e" "performs e"
  shows "refines k pre e"
proof (cases e)
  case (KubePatch orig new r)
  with assms(2) obtain op where op: "lifecycle_of new = lc_op op (lifecycle_of orig)"
    by (auto simp: performs_def)
  have "lc_guard (acked k pre) (refused k pre) op (lifecycle_of orig)"
    using assms(1) op KubePatch
    by (cases op) (auto simp: hash_justified_def sets_def new_hash_def lifecycle_of_def acked_def refused_def)
  then have "lc_step (acked k pre) (refused k pre) (lifecycle_of orig) (lc_op op (lifecycle_of orig))"
    by (rule lc_step.intros)
  with op KubePatch show ?thesis by (simp add: refines_def)
qed (simp_all add: refines_def)

lemma traced_refines:
  "traced (hash_justified k) pre es \<Longrightarrow> list_all performs es \<Longrightarrow> traced (refines k) pre es"
  by (induction es arbitrary: pre) (auto intro: patch_refines)

text \<open>C12: in every history of an environment that reports its errors, the status annotations follow the
  specified lifecycle: each patch is one of its operations, a new applied hash was acknowledged by
  the gateway before and clears the rejection, and a new failed hash was refused before.\<close>

theorem status_refines_lifecycle:
  assumes "honest x" "reachable x mg cfg w"
  shows "traced (refines (hclient w)) [] (w_trace w)"
proof (rule traced_refines)
  have "rel (evident hash_justified) (DataplaneReady x cfg)"
    by (rule rel_justified [OF does_weaken [OF probe_does]]) auto
  from backed_reachable [OF just.evidence_axioms Reconcile_justified [OF assms(1)] this assms(2)]
  show "traced (hash_justified (hclient w)) [] (w_trace w)" by (simp add: backed_def)
  show "list_all performs (w_trace w)" using assms(2) by (rule history_performs)
qed

theorem status_refines_lifecycle_witness: "traced (refines (hclient after_probe)) [] (w_trace after_probe)"
  by (rule status_refines_lifecycle [OF cluster_honest after_probe_reachable])

end
