(* ===== verification/Flags.thy ===== *)
theory Flags
  imports World
begin

text \<open>
  The command line of \<^verbatim>\<open>main.go\<close>: the flags with their defaults from the environment, and
  \<^verbatim>\<open>flag.Parse\<close> with the package's rules (one or two dashes, values after an equals sign or in
  the next argument, boolean flags without a value, the terminator). The flags that imported
  packages register on the same command line are a parameter, and so is the reading of a duration.
  The lemmas show that a command line that gives every flag decides all of them, whatever the
  environment says.
\<close>

section \<open>Flags\<close>

record flags =
  fl_mode :: string
  fl_metricsAddr :: string
  fl_enableLeaderElection :: bool
  fl_probeAddr :: string
  fl_watchNamespace :: string
  fl_secretName :: string
  fl_secretKey :: string
  fl_certsSecretNames :: string
  fl_localConfigPath :: string
  fl_localWatch :: bool
  fl_localPoll :: duration
  fl_dataplaneURL :: string
  fl_dataplaneCACert :: string
  fl_dataplaneClientCert :: string
  fl_dataplaneClientKey :: string
  fl_dataplaneUsername :: string
  fl_dataplanePassword :: string
  fl_dataplaneInsecure :: bool
  fl_driftRemediate :: bool
  fl_spireSocketPath :: string

definition defaultDataplaneURL :: string where "defaultDataplaneURL = ''https://haproxy:5555/v3''"
definition clientCertCheckInterval :: duration where "clientCertCheckInterval = 5 * minute"

text \<open>An unset variable reads as the empty string.\<close>

definition envOr :: "(string \<Rightarrow> string) \<Rightarrow> string \<Rightarrow> string \<Rightarrow> string" where
  "envOr getenv k d = (if getenv k \<noteq> [] then getenv k else d)"

definition flag_defaults :: "(string \<Rightarrow> string) \<Rightarrow> flags" where
  "flag_defaults getenv = \<lparr>
     fl_mode = envOr getenv ''MODE'' ''k8s'',
     fl_metricsAddr = envOr getenv ''METRICS_ADDR'' '':9090'',
     fl_enableLeaderElection = (envOr getenv ''LEADER_ELECT'' [] = ''true''),
     fl_probeAddr = envOr getenv ''PROBE_ADDR'' '':8081'',
     fl_watchNamespace = envOr getenv ''WATCH_NAMESPACE'' [],
     fl_secretName = envOr getenv ''SECRET_NAME'' [],
     fl_secretKey = envOr getenv ''SECRET_KEY'' ''haproxy.cfg'',
     fl_certsSecretNames = envOr getenv ''CERTS_SECRET_NAMES'' [],
     fl_localConfigPath = envOr getenv ''LOCAL_CONFIG_PATH'' [],
     fl_localWatch = (envOr getenv ''LOCAL_WATCH'' ''true'' = ''true''),
     fl_localPoll = 5 * second,
     fl_dataplaneURL = envOr getenv ''DATAPLANE_URL'' defaultDataplaneURL,
     fl_dataplaneCACert = envOr getenv ''DATAPLANE_CA_CERT'' [],
     fl_dataplaneClientCert = envOr getenv ''DATAPLANE_CLIENT_CERT'' [],
     fl_dataplaneClientKey = envOr getenv ''DATAPLANE_CLIENT_KEY'' [],
     fl_dataplaneUsername = envOr getenv ''DATAPLANE_USERNAME'' [],
     fl_dataplanePassword = envOr getenv ''DATAPLANE_PASSWORD'' [],
     fl_dataplaneInsecure = (envOr getenv ''DATAPLANE_INSECURE'' [] = ''true''),
     fl_driftRemediate = (envOr getenv ''DRIFT_REMEDIATE'' ''true'' = ''true''),
     fl_spireSocketPath = envOr getenv ''SPIRE_AGENT_SOCKET'' []\<rparr>"

section \<open>Registered flags\<close>

datatype flag_value =
    StringVar "string \<Rightarrow> flags \<Rightarrow> flags"
  | BoolVar "bool \<Rightarrow> flags \<Rightarrow> flags"
  | DurationVar "duration \<Rightarrow> flags \<Rightarrow> flags"

definition flag_table :: "(string \<times> flag_value) list" where
  "flag_table = [
     (''mode'', StringVar (\<lambda>v fl. fl\<lparr>fl_mode := v\<rparr>)),
     (''metrics-bind-address'', StringVar (\<lambda>v fl. fl\<lparr>fl_metricsAddr := v\<rparr>)),
     (''health-probe-bind-address'', StringVar (\<lambda>v fl. fl\<lparr>fl_probeAddr := v\<rparr>)),
     (''leader-elect'', BoolVar (\<lambda>v fl. fl\<lparr>fl_enableLeaderElection := v\<rparr>)),
     (''namespace'', StringVar (\<lambda>v fl. fl\<lparr>fl_watchNamespace := v\<rparr>)),
     (''secret-name'', StringVar (\<lambda>v fl. fl\<lparr>fl_secretName := v\<rparr>)),
     (''secret-key'', StringVar (\<lambda>v fl. fl\<lparr>fl_secretKey := v\<rparr>)),
     (''certs-secret-names'', StringVar (\<lambda>v fl. fl\<lparr>fl_certsSecretNames := v\<rparr>)),
     (''local-config-path'', StringVar (\<lambda>v fl. fl\<lparr>fl_localConfigPath := v\<rparr>)),
     (''local-watch'', BoolVar (\<lambda>v fl. fl\<lparr>fl_localWatch := v\<rparr>)),
     (''local-poll'', DurationVar (\<lambda>v fl. fl\<lparr>fl_localPoll := v\<rparr>)),
     (''dataplane-url'', StringVar (\<lambda>v fl. fl\<lparr>fl_dataplaneURL := v\<rparr>)),
     (''dataplane-ca-cert'', StringVar (\<lambda>v fl. fl\<lparr>fl_dataplaneCACert := v\<rparr>)),
     (''dataplane-client-cert'', StringVar (\<lambda>v fl. fl\<lparr>fl_dataplaneClientCert := v\<rparr>)),
     (''dataplane-client-key'', StringVar (\<lambda>v fl. fl\<lparr>fl_dataplaneClientKey := v\<rparr>)),
     (''dataplane-username'', StringVar (\<lambda>v fl. fl\<lparr>fl_dataplaneUsername := v\<rparr>)),
     (''dataplane-password'', StringVar (\<lambda>v fl. fl\<lparr>fl_dataplanePassword := v\<rparr>)),
     (''dataplane-insecure'', BoolVar (\<lambda>v fl. fl\<lparr>fl_dataplaneInsecure := v\<rparr>)),
     (''drift-remediate'', BoolVar (\<lambda>v fl. fl\<lparr>fl_driftRemediate := v\<rparr>)),
     (''spire-socket'', StringVar (\<lambda>v fl. fl\<lparr>fl_spireSocketPath := v\<rparr>))]"

text \<open>Flags of imported packages: whether they are boolean, and which values they accept.\<close>

record extra_flag =
  ef_bool :: bool
  ef_accepts :: "string \<Rightarrow> bool"

record flag_env =
  fe_extra :: "string \<Rightarrow> extra_flag option"
  fe_duration :: "string \<Rightarrow> duration option"

datatype registered = Own flag_value | Extra extra_flag

definition formal :: "flag_env \<Rightarrow> string \<Rightarrow> registered option" where
  "formal fe name =
    (case map_of flag_table name of
       Some v \<Rightarrow> Some (Own v)
     | None \<Rightarrow> map_option Extra (fe_extra fe name))"

definition is_bool_flag :: "registered \<Rightarrow> bool" where
  "is_bool_flag r = (case r of Own (BoolVar f) \<Rightarrow> True | Own _ \<Rightarrow> False | Extra f \<Rightarrow> ef_bool f)"

text \<open>\<^verbatim>\<open>strconv.ParseBool\<close>.\<close>

definition parse_bool :: "string \<Rightarrow> bool option" where
  "parse_bool s =
    (if s \<in> {''1'', ''t'', ''T'', ''true'', ''TRUE'', ''True''} then Some True
     else if s \<in> {''0'', ''f'', ''F'', ''false'', ''FALSE'', ''False''} then Some False
     else None)"

definition set_flag :: "flag_env \<Rightarrow> registered \<Rightarrow> string \<Rightarrow> flags \<Rightarrow> flags option" where
  "set_flag fe r v fl =
    (case r of
       Own (StringVar f) \<Rightarrow> Some (f v fl)
     | Own (BoolVar f) \<Rightarrow> map_option (\<lambda>b. f b fl) (parse_bool v)
     | Own (DurationVar f) \<Rightarrow> map_option (\<lambda>d. f d fl) (fe_duration fe v)
     | Extra ef \<Rightarrow> if ef_accepts ef v then Some fl else None)"

section \<open>Parsing\<close>

text \<open>Why parsing stops the process: help was asked for, or the command line is wrong.\<close>

datatype flag_error = ErrHelp | BadFlag string

definition flag_exit_code :: "flag_error \<Rightarrow> nat" where
  "flag_exit_code e = (case e of ErrHelp \<Rightarrow> 0 | BadFlag msg \<Rightarrow> 2)"

definition cut_value :: "string \<Rightarrow> string \<times> string option" where
  "cut_value name =
    (case str_cut (CHR ''='') name of (a, b, found) \<Rightarrow> (a, if found then Some b else None))"

text \<open>One argument with its name cut off its value, and the arguments after it: the flags and the
  arguments that are left.\<close>

definition apply_flag ::
  "flag_env \<Rightarrow> string \<Rightarrow> string option \<Rightarrow> string list \<Rightarrow> flags \<Rightarrow> flag_error + flags \<times> string list" where
  "apply_flag fe name value args fl =
    (case formal fe name of
       None \<Rightarrow> Inl (if name = ''help'' \<or> name = ''h'' then ErrHelp
                   else BadFlag (''flag provided but not defined: -'' @ name))
     | Some r \<Rightarrow>
         if is_bool_flag r then
           (case set_flag fe r (case value of None \<Rightarrow> ''true'' | Some v \<Rightarrow> v) fl of
              None \<Rightarrow> Inl (BadFlag (''invalid boolean value for -'' @ name))
            | Some fl' \<Rightarrow> Inr (fl', args))
         else
           (case (case value of Some v \<Rightarrow> Some (v, args) | None \<Rightarrow> (case args of [] \<Rightarrow> None | v # rest \<Rightarrow> Some (v, rest))) of
              None \<Rightarrow> Inl (BadFlag (''flag needs an argument: -'' @ name))
            | Some (v, rest) \<Rightarrow>
                (case set_flag fe r v fl of
                   None \<Rightarrow> Inl (BadFlag (''invalid value for flag -'' @ name))
                 | Some fl' \<Rightarrow> Inr (fl', rest))))"

text \<open>The name part of a flag, with its dashes off; nothing when parsing stops at this argument.\<close>

definition flag_text :: "string \<Rightarrow> string option" where
  "flag_text s =
    (if length s < 2 \<or> s ! 0 \<noteq> CHR ''-'' then None
     else if s ! 1 = CHR ''-'' then (if length s = 2 then None else Some (drop 2 s))
     else Some (drop 1 s))"

lemma apply_flag_shrinks: "apply_flag fe name value args fl = Inr (fl', rest) \<Longrightarrow> length rest \<le> length args"
  by (auto simp: apply_flag_def split: option.splits if_splits list.splits prod.splits)

function parse_args :: "flag_env \<Rightarrow> string list \<Rightarrow> flags \<Rightarrow> flag_error + flags" where
  "parse_args fe [] fl = Inr fl"
| "parse_args fe (s # args) fl =
    (case flag_text s of
       None \<Rightarrow> Inr fl
     | Some name \<Rightarrow>
         if name = [] \<or> hd name = CHR ''-'' \<or> hd name = CHR ''='' then Inl (BadFlag (''bad flag syntax: '' @ s))
         else (case apply_flag fe (fst (cut_value name)) (snd (cut_value name)) args fl of
                 Inl err \<Rightarrow> Inl err
               | Inr (fl', rest) \<Rightarrow> parse_args fe rest fl'))"
  by pat_completeness auto
termination
  by (relation "measure (\<lambda>(fe, args, fl). length args)") (auto dest: apply_flag_shrinks)

section \<open>A command line that gives every flag\<close>

definition render_bool :: "bool \<Rightarrow> string" where
  "render_bool b = (if b then ''true'' else ''false'')"

text \<open>The value of each flag as text, in the order of the table; \<open>poll\<close> is a text of the duration.\<close>

definition flag_texts :: "flags \<Rightarrow> string \<Rightarrow> string list" where
  "flag_texts fl poll = [fl_mode fl, fl_metricsAddr fl, fl_probeAddr fl, render_bool (fl_enableLeaderElection fl),
     fl_watchNamespace fl, fl_secretName fl, fl_secretKey fl, fl_certsSecretNames fl, fl_localConfigPath fl,
     render_bool (fl_localWatch fl), poll, fl_dataplaneURL fl, fl_dataplaneCACert fl, fl_dataplaneClientCert fl,
     fl_dataplaneClientKey fl, fl_dataplaneUsername fl, fl_dataplanePassword fl, render_bool (fl_dataplaneInsecure fl),
     render_bool (fl_driftRemediate fl), fl_spireSocketPath fl]"

definition render_flag :: "string \<Rightarrow> string \<Rightarrow> string" where
  "render_flag name v = ''--'' @ name @ CHR ''='' # v"

definition render_flags :: "flags \<Rightarrow> string \<Rightarrow> string list" where
  "render_flags fl poll = map (\<lambda>(nv, v). render_flag (fst nv) v) (zip flag_table (flag_texts fl poll))"

text \<open>A name that can stand before an equals sign.\<close>

definition plain_name :: "string \<Rightarrow> bool" where
  "plain_name name \<longleftrightarrow> name \<noteq> [] \<and> hd name \<noteq> CHR ''-'' \<and> CHR ''='' \<notin> set name"

lemma str_cut_first: "c \<notin> set a \<Longrightarrow> str_cut c (a @ c # b) = (a, b, True)"
  by (induction a) auto

lemma parse_rendered:
  assumes "plain_name name" "formal fe name = Some r" "set_flag fe r v fl = Some fl'"
  shows "parse_args fe (render_flag name v # args) fl = parse_args fe args fl'"
proof -
  have "flag_text (render_flag name v) = Some (name @ CHR ''='' # v)"
    by (simp add: flag_text_def render_flag_def)
  moreover have "cut_value (name @ CHR ''='' # v) = (name, Some v)"
    using assms(1) by (simp add: cut_value_def str_cut_first plain_name_def)
  moreover have "hd (name @ CHR ''='' # v) \<notin> {CHR ''-'', CHR ''=''}" "name @ CHR ''='' # v \<noteq> []"
    using assms(1) by (cases name; auto simp: plain_name_def)+
  ultimately show ?thesis
    using assms(2,3) by (simp add: apply_flag_def)
qed

lemma table_names: "list_all (\<lambda>(n, v). plain_name n \<and> map_of flag_table n = Some v) flag_table"
  unfolding flag_table_def plain_name_def by simp

text \<open>Setting the flags of a table one after the other.\<close>

fun set_all :: "flag_env \<Rightarrow> (string \<times> flag_value) list \<Rightarrow> string list \<Rightarrow> flags \<Rightarrow> flags option" where
  "set_all fe ((n, r) # tab) (v # vs) fl =
    (case set_flag fe (Own r) v fl of None \<Rightarrow> None | Some fl' \<Rightarrow> set_all fe tab vs fl')"
| "set_all fe _ _ fl = Some fl"

lemma parse_all:
  assumes "set tab \<subseteq> set flag_table" "set_all fe tab vs fl = Some fl'"
  shows "parse_args fe (map (\<lambda>(nv, v). render_flag (fst nv) v) (zip tab vs)) fl = Inr fl'"
  using assms
proof (induction fe tab vs fl rule: set_all.induct)
  case (1 fe n r tab v vs fl)
  have "(n, r) \<in> set flag_table" using "1.prems" by simp
  then have "plain_name n" "formal fe n = Some (Own r)"
    using table_names by (auto simp: list_all_iff formal_def)
  moreover obtain fl1 where "set_flag fe (Own r) v fl = Some fl1" "set_all fe tab vs fl1 = Some fl'"
    using "1.prems"(2) by (auto split: option.splits)
  moreover from this "1.IH" "1.prems"(1)
  have "parse_args fe (map (\<lambda>(nv, v). render_flag (fst nv) v) (zip tab vs)) fl1 = Inr fl'" by simp
  ultimately show ?case by (simp add: parse_rendered del: parse_args.simps)
qed auto

lemma parse_bool_render [simp]: "parse_bool (render_bool b) = Some b"
  by (simp add: parse_bool_def render_bool_def)

text \<open>C37: a command line that gives every flag decides the configuration: parsing it returns exactly the
  flags it was written from, for every value a string flag can have, whatever the environment set.\<close>

theorem flags_roundtrip:
  assumes "fe_duration fe poll = Some (fl_localPoll fl)"
  shows "parse_args fe (render_flags fl poll) (flag_defaults getenv) = Inr fl"
  unfolding render_flags_def
  by (rule parse_all) (use assms in \<open>simp_all add: flag_table_def flag_texts_def set_flag_def\<close>)

section \<open>Examples\<close>

definition bare_flag_env :: flag_env where
  "bare_flag_env = \<lparr>fe_extra = (\<lambda>n. None), fe_duration = (\<lambda>s. if s = ''5s'' then Some (5 * second) else None)\<rparr>"

definition unset :: "string \<Rightarrow> string" where "unset k = []"

theorem flags_roundtrip_witness:
  "parse_args bare_flag_env (render_flags (flag_defaults (\<lambda>k. ''--x='')) ''5s'') (flag_defaults unset)
     = Inr (flag_defaults (\<lambda>k. ''--x=''))"
  by (rule flags_roundtrip) (simp add: bare_flag_env_def flag_defaults_def)

lemma flag_forms:
  "parse_args bare_flag_env [''-secret-name'', ''a'', ''--dataplane-insecure'', ''--'', ''--mode=x''] (flag_defaults unset)
     = Inr ((flag_defaults unset)\<lparr>fl_secretName := ''a'', fl_dataplaneInsecure := True\<rparr>)"
  "parse_args bare_flag_env [''--no-such-flag''] (flag_defaults unset)
     = Inl (BadFlag ''flag provided but not defined: -no-such-flag'')"
  "parse_args bare_flag_env [''-h''] (flag_defaults unset) = Inl ErrHelp"
  by (simp_all add: flag_text_def cut_value_def apply_flag_def formal_def flag_table_def bare_flag_env_def
      is_bool_flag_def set_flag_def parse_bool_def)

end
