(* ===== verification/Startup.thy ===== *)
theory Startup
  imports Flags Operator Local_Laws Cert_Expiry Scenarios Tls_Trust
begin

text \<open>
  \<^verbatim>\<open>main.go\<close>: what the process makes of its flags, the adjustments of each mode, the
  goroutines it starts and what it then runs: the local runner, or the manager with the reconciler's
  settings. The manager and the sources of the Kubernetes configuration are parameters. The lemmas
  tie the command line to the guarantees of the components that are started with it.
\<close>

section \<open>Adjustments\<close>

definition insecureActive :: "flags \<Rightarrow> bool" where
  "insecureActive fl \<longleftrightarrow> fl_dataplaneInsecure fl \<and> fl_spireSocketPath fl = []"

definition k8s_defaults :: "flags \<Rightarrow> flags" where
  "k8s_defaults fl =
    (if fl_mode fl = ''k8s'' then
       fl\<lparr>fl_watchNamespace := (if fl_watchNamespace fl = [] then ''haproxy-operator'' else fl_watchNamespace fl),
          fl_secretName := (if fl_secretName fl = [] then ''haproxy-config'' else fl_secretName fl)\<rparr>
     else fl)"

definition export_insecure :: "flags \<Rightarrow> ('e, unit) go" where
  "export_insecure fl =
    (if fl_mode fl = ''k8s'' \<and> insecureActive fl then modify_metrics (\<lambda>m. m\<lparr>DataplaneInsecure := 1\<rparr>) else ret ())"

text \<open>The URL with another scheme, or the process exits.\<close>

definition withScheme :: "'e ext \<Rightarrow> string \<Rightarrow> string \<Rightarrow> string option" where
  "withScheme x rawURL scheme =
    (case x_url_parse x rawURL of Inl err \<Rightarrow> None | Inr u \<Rightarrow> Some (url_string (u\<lparr>u_scheme := scheme\<rparr>)))"

definition local_flags :: "'e ext \<Rightarrow> flags \<Rightarrow> flags option" where
  "local_flags x fl =
    (if fl_dataplaneURL fl = defaultDataplaneURL then
       (case withScheme x defaultDataplaneURL ''http'' of
          None \<Rightarrow> None
        | Some u \<Rightarrow> Some (fl\<lparr>fl_dataplaneURL := u, fl_dataplaneCACert := [], fl_dataplaneClientCert := [],
            fl_dataplaneClientKey := []\<rparr>))
     else Some fl)"

definition api_config_of :: "flags \<Rightarrow> api_config" where
  "api_config_of fl = \<lparr>BaseURL = fl_dataplaneURL fl, Insecure = fl_dataplaneInsecure fl,
     CACertPath = fl_dataplaneCACert fl, ClientCertPath = fl_dataplaneClientCert fl,
     ClientKeyPath = fl_dataplaneClientKey fl, Username = fl_dataplaneUsername fl,
     Password = fl_dataplanePassword fl\<rparr>"

definition cert_names :: "string \<Rightarrow> string list" where
  "cert_names names = filter (\<lambda>n. n \<noteq> []) (map trim_space (str_split CHR '','' names))"

definition settings_of :: "flags \<Rightarrow> settings" where
  "settings_of fl = \<lparr>SecretName = fl_secretName fl, SecretKey = fl_secretKey fl, APIConfig = api_config_of fl,
     SpireSocketPath = fl_spireSocketPath fl, Recorder = False, CertsSecretNames = cert_names (fl_certsSecretNames fl),
     DriftRemediate = fl_driftRemediate fl\<rparr>"

text \<open>The namespaces the cache is restricted to; none means all.\<close>

definition cache_namespaces :: "flags \<Rightarrow> string list" where
  "cache_namespaces fl = (if fl_watchNamespace fl \<noteq> [] then [fl_watchNamespace fl] else [])"

section \<open>The two modes\<close>

text \<open>Leaving with the code of \<^verbatim>\<open>flag.Parse\<close>, with code 1 and the logged message (none when a
  library exits), or normally.\<close>

datatype exit_reason = FlagExit nat | Exit1 string | Finished | StillRunning string

definition run_local :: "'e ext \<Rightarrow> 'e local_env \<Rightarrow> flags \<Rightarrow> nat \<Rightarrow> ('e, exit_reason) go" where
  "run_local x l fl n =
    (if fl_localConfigPath fl = [] then ret (Exit1 ''local-config-path is required in local mode'')
     else (case local_flags x fl of
        None \<Rightarrow> ret (Exit1 ''invalid dataplane url'')
      | Some fl \<Rightarrow> do {
          c \<leftarrow> NewClient x (api_config_of fl);
          (case c of
             Inl err \<Rightarrow> ret (Exit1 ''failed to create dataplane client'')
           | Inr c \<Rightarrow> do {
               out \<leftarrow> Run x l \<lparr>CfgPath = fl_localConfigPath fl, Client = c, PollEvery = fl_localPoll fl,
                 Watch = fl_localWatch fl\<rparr> n;
               ret (case out of
                      Exited err \<Rightarrow> if err \<noteq> Canceled then Exit1 ''local runner exited with error'' else Finished
                    | Running h \<Rightarrow> StillRunning h)
             })
        }))"

datatype rest_source = ClusterConfig | FlagConfig string string

definition loadRESTConfig :: "(string \<Rightarrow> string) \<Rightarrow> rest_source" where
  "loadRESTConfig getenv =
    (let override = envOr getenv ''KUBE_APISERVER'' []; kubeconfig = envOr getenv ''KUBECONFIG'' [] in
     if kubeconfig = [] \<and> override = [] then ClusterConfig else FlagConfig override kubeconfig)"

record 'e cluster_api =
  ca_rest :: "rest_source \<Rightarrow> 'e \<Rightarrow> goerr option \<times> 'e"
  ca_manager :: "flags \<Rightarrow> string list \<Rightarrow> 'e \<Rightarrow> (goerr + 'e manager) \<times> 'e"
  ca_healthz :: "'e \<Rightarrow> goerr option \<times> 'e"

text \<open>What runs beside the manager or the local runner.\<close>

datatype goroutine = WarnDataplaneInsecure | WatchClientCert string duration

text \<open>The recurring warning: the times at which it is logged, in at most \<open>n\<close> ticks. A tick may have been
  waiting already.\<close>

fun warn_ticks :: "'e ext \<Rightarrow> nat \<Rightarrow> ('e, nat list) go" where
  "warn_ticks x 0 = ret []"
| "warn_ticks x (Suc n) = do {
     ctx_done \<leftarrow> select_after x 0;
     (case ctx_done of
        Some _ \<Rightarrow> ret []
      | None \<Rightarrow> do {
          now \<leftarrow> gets w_now;
          later \<leftarrow> warn_ticks x n;
          ret (now # later)
        })
   }"

definition warnDataplaneInsecure :: "'e ext \<Rightarrow> nat \<Rightarrow> ('e, nat list) go" where
  "warnDataplaneInsecure x n = do {
     now \<leftarrow> gets w_now;
     later \<leftarrow> warn_ticks x n;
     ret (now # later)
   }"

text \<open>Setting up the manager: what the process exits with, or the settings the manager starts with and
  the certificate watcher beside it.\<close>

definition setup_manager ::
  "'e ext \<Rightarrow> 'e cluster_api \<Rightarrow> (string \<Rightarrow> string) \<Rightarrow> flags \<Rightarrow> ('e, exit_reason + settings \<times> goroutine list) go" where
  "setup_manager x api getenv fl = do {
     rest \<leftarrow> env_call (ca_rest api (loadRESTConfig getenv));
     (case rest of
        Some err \<Rightarrow> ret (Inl (Exit1 (case loadRESTConfig getenv of ClusterConfig \<Rightarrow> []
          | FlagConfig override kubeconfig \<Rightarrow> ''unable to build rest config'')))
      | None \<Rightarrow> do {
          m \<leftarrow> env_call (ca_manager api fl (cache_namespaces fl));
          (case m of
             Inl err \<Rightarrow> ret (Inl (Exit1 ''unable to start manager''))
           | Inr mg \<Rightarrow> do {
               s \<leftarrow> SetupWithManager mg (settings_of fl);
               (case fst s of
                  Some err \<Rightarrow> ret (Inl (Exit1 ''unable to create controller''))
                | None \<Rightarrow> do {
                    h \<leftarrow> env_call (ca_healthz api);
                    ret (case h of
                           Some err \<Rightarrow> Inl (Exit1 ''unable to set up health check'')
                         | None \<Rightarrow> Inr (snd s, if fl_dataplaneClientCert fl \<noteq> []
                             then [WatchClientCert (fl_dataplaneClientCert fl) clientCertCheckInterval] else []))
                  })
             })
        })
   }"

definition main ::
  "'e ext \<Rightarrow> 'e local_env \<Rightarrow> 'e cluster_api \<Rightarrow> (string \<Rightarrow> string) \<Rightarrow> flag_env \<Rightarrow> string list \<Rightarrow> nat \<Rightarrow>
   ('e, goroutine list \<times> (exit_reason + settings)) go" where
  "main x l api getenv fe args n =
    (case parse_args fe args (flag_defaults getenv) of
       Inl err \<Rightarrow> ret ([], Inl (FlagExit (flag_exit_code err)))
     | Inr fl0 \<Rightarrow>
         (let fl = k8s_defaults fl0; warn = (if insecureActive fl0 then [WarnDataplaneInsecure] else []) in do {
            export_insecure fl0;
            (if fl_mode fl = ''local'' then do {
               out \<leftarrow> run_local x l fl n;
               ret (warn, Inl out)
             } else do {
               s \<leftarrow> setup_manager x api getenv fl;
               ret (case s of Inl out \<Rightarrow> (warn, Inl out) | Inr (cfg, watch) \<Rightarrow> (warn @ watch, Inr cfg))
             })
          }))"

text \<open>A command line that does not parse ends the process before anything is touched.\<close>

lemma bad_command_line:
  assumes "parse_args fe args (flag_defaults getenv) = Inl err"
  shows "run_state (main x l api getenv fe args n) w = (([], Inl (FlagExit (flag_exit_code err))), w)"
  using assms by (simp add: main_def)

lemma warn_ticks_length:
  "run_state (warn_ticks x n) w = (ts, w') \<Longrightarrow> length ts \<le> n \<and> sorted (w_now w # ts) \<and> last (w_now w # ts) \<le> w_now w'"
proof (induction n arbitrary: w ts w')
  case (Suc n)
  obtain d w1 where s: "run_state (select_after x 0) w = (d, w1)" by (metis surj_pair)
  have t: "w_now w \<le> w_now w1"
    using s by (auto simp: select_after_def split: prod.splits option.splits)
  show ?case
  proof (cases d)
    case (Some err)
    with Suc.prems s t show ?thesis by auto
  next
    case None
    obtain later w2 where l: "run_state (warn_ticks x n) w1 = (later, w2)" by (metis surj_pair)
    with Suc.prems s None have "ts = w_now w1 # later" "w' = w2" by simp_all
    with Suc.IH [OF l] t show ?thesis by auto
  qed
qed simp

section \<open>The names of the certificate Secrets\<close>

text \<open>A list of plain certificate Secret names survives the flag's text form: joined with commas and
  read back, it is the same list.\<close>

theorem cert_names_roundtrip:
  assumes "list_all (\<lambda>n. n \<noteq> [] \<and> CHR '','' \<notin> set n \<and> trim_space n = n) ns"
  shows "cert_names (join_with CHR '','' ns) = ns"
proof (cases "ns = []")
  case True
  then show ?thesis
    by (simp add: cert_names_def join_with_def trim_space_def trim_left.simps trim_right.simps)
next
  case False
  then have "str_split CHR '','' (join_with CHR '','' ns) = ns"
    using assms by (intro str_split_join) (auto simp: list_all_iff)
  moreover have "map trim_space ns = ns" "filter (\<lambda>n. n \<noteq> []) ns = ns"
    using assms by (auto simp: list_all_iff map_idI filter_True)
  ultimately show ?thesis by (simp add: cert_names_def)
qed

theorem cert_names_roundtrip_witness: "cert_names ''tls,web'' = [''tls'', ''web'']"
proof -
  have "trim_space ''tls'' = ''tls''" "trim_space ''web'' = ''web''"
    by (rule trim_space_plain; simp add: plain_char_def)+
  then show ?thesis using cert_names_roundtrip [of "[''tls'', ''web'']"] by (simp add: join_with_def)
qed

section \<open>What a started manager may do\<close>

text \<open>The settings the manager starts with come from the flags.\<close>

lemma setup_manager_settings:
  "fst (run_state (setup_manager x api getenv fl) w) = Inr (cfg, watch) \<Longrightarrow>
   cfg = (settings_of fl)\<lparr>Recorder := True\<rparr> \<and> WarnDataplaneInsecure \<notin> set watch"
  by (auto simp: setup_manager_def env_call_def SetupWithManager_def Let_def
      split: prod.splits option.splits sum.splits if_splits)

lemma main_started:
  assumes "fst (run_state (main x l api getenv fe args n) w) = (gs, Inr cfg)"
  obtains fl where "parse_args fe args (flag_defaults getenv) = Inr fl"
    "cfg = (settings_of (k8s_defaults fl))\<lparr>Recorder := True\<rparr>"
    "WarnDataplaneInsecure \<in> set gs \<longleftrightarrow> insecureActive fl"
proof -
  obtain fl where fl: "parse_args fe args (flag_defaults getenv) = Inr fl"
    using assms by (cases "parse_args fe args (flag_defaults getenv)") (auto simp: main_def)
  obtain w1 where e: "run_state (export_insecure fl) w = ((), w1)"
    by (metis surj_pair old.unit.exhaust)
  with assms fl have m: "fl_mode (k8s_defaults fl) \<noteq> ''local''"
    by (auto simp: main_def Let_def split: prod.splits)
  obtain watch where "fst (run_state (setup_manager x api getenv (k8s_defaults fl)) w1) = Inr (cfg, watch)"
    "gs = (if insecureActive fl then [WarnDataplaneInsecure] else []) @ watch"
    using assms fl e m by (auto simp: main_def Let_def split: prod.splits sum.splits)
  with setup_manager_settings [of x api getenv "k8s_defaults fl" w1] fl that show ?thesis by auto
qed

lemma k8s_names:
  "fl_mode fl = ''k8s'' \<Longrightarrow> fl_secretName (k8s_defaults fl) \<noteq> [] \<and> fl_watchNamespace (k8s_defaults fl) \<noteq> []"
  by (simp add: k8s_defaults_def)

text \<open>C14: a manager started in the Kubernetes mode, whatever the flags and the environment say, patches
  no Secret but the configured one in any history, for an empty name means the default name.\<close>

theorem manager_patches_config_only:
  assumes "fst (run_state (main x l api getenv fe args n) w0) = (gs, Inr cfg)"
    "parse_args fe args (flag_defaults getenv) = Inr fl" "fl_mode fl = ''k8s''"
    "faithful_names x" "reachable x mg cfg w"
  shows "SecretName cfg \<noteq> [] \<and> list_all (patches_only (SecretName cfg)) (w_trace w)"
proof -
  have n: "SecretName cfg \<noteq> []"
    using main_started [OF assms(1)] k8s_names [OF assms(3)] assms(2) by (fastforce simp: settings_of_def)
  have "list_all (patches_only (SecretName cfg)) (w_trace w)"
    by (rule history_effects [OF assms(5) config_policy.Reconcile_does [OF patches_policy [OF assms(4) n]]])
      (simp_all add: patches_only_def)
  with n show ?thesis by simp
qed

section \<open>The warning about verification\<close>

lemma setup_manager_metrics: "w_metrics (snd (run_state (setup_manager x api getenv fl) w)) = w_metrics w"
  by (simp add: setup_manager_def env_call_def SetupWithManager_def Let_def split: prod.split option.split sum.split)

lemma main_gauge:
  assumes "parse_args fe args (flag_defaults getenv) = Inr fl" "fl_mode fl = ''k8s''"
  shows "DataplaneInsecure (w_metrics (snd (run_state (main x l api getenv fe args n) w))) =
    (if insecureActive fl then 1 else DataplaneInsecure (w_metrics w))"
  using assms
  by (simp add: main_def Let_def export_insecure_def k8s_defaults_def setup_manager_metrics case_prod_beta)

lemma started_client_transport:
  assumes "rec_wf cfg (w_rec w)" "hclient w = Some c" "u_scheme (c_base c) = ''https''"
  shows "c_config c = APIConfig cfg \<and> (SpireSocketPath cfg \<noteq> [] \<and> c_transport c = SpireTransport
    \<or> SpireSocketPath cfg = [] \<and> (Insecure (APIConfig cfg) \<or> c_transport c = HTTPTransport True True True))"
  using assms
  by (auto simp: rec_wf_def client_wf_def no_unverified_tls_def split: if_splits transport.splits)

text \<open>C13: a manager started in the Kubernetes mode, whose insecure gauge is zero or which runs without the
  recurring warning, accepts no server over https unverified. In every history, when the client it then
  holds is for an https URL and a handshake of it succeeds, either the client was built from the
  mounted files and the server's chain verified against the CA file the flags name, as the file is at
  that handshake, for the host of the URL; or it is the client of the SPIRE source and the chain verified
  against the bundle of the operator's own trust domain.\<close>

theorem zero_gauge_verified:
  assumes "run_state (main x l api getenv fe args n) (initial_world e) = ((gs, Inr cfg), w1)"
    "parse_args fe args (flag_defaults getenv) = Inr fl" "fl_mode fl = ''k8s''"
    "DataplaneInsecure (w_metrics w1) = 0 \<or> WarnDataplaneInsecure \<notin> set gs"
    "reachable x mg cfg w" "hclient w = Some c" "u_scheme (c_base c) = ''https''"
    "run_state (server_check x t c rawCerts) w2 = (None, w3)"
  shows "(fl_spireSocketPath fl = [] \<and> CACertPath (c_config c) = fl_dataplaneCACert fl
      \<and> accepted_by_files x t c rawCerts (w_env w2))
    \<or> (fl_spireSocketPath fl \<noteq> [] \<and> accepted_by_spire x t rawCerts (w_env w2) (w_env w3))"
proof -
  have started: "cfg = (settings_of (k8s_defaults fl))\<lparr>Recorder := True\<rparr>"
    "WarnDataplaneInsecure \<in> set gs \<longleftrightarrow> insecureActive fl"
    using main_started [of x l api getenv fe args n "initial_world e" gs cfg] assms(1,2) by auto
  have i: "\<not> insecureActive fl"
    using main_gauge [OF assms(2,3), of x l api n "initial_world e"] assms(1,4) started(2) by (auto split: if_splits)
  have cfg: "SpireSocketPath cfg = fl_spireSocketPath fl" "Insecure (APIConfig cfg) = fl_dataplaneInsecure fl"
    "CACertPath (APIConfig cfg) = fl_dataplaneCACert fl"
    by (simp_all add: started(1) settings_of_def api_config_of_def k8s_defaults_def)
  have "rec_wf cfg (w_rec w)"
    using wf.kept_state_axioms start_wf assms(5) by (rule kept_reachable)
  from started_client_transport [OF this assms(6,7)] i cfg show ?thesis
    using files_accept [OF _ assms(8)] spire_accepts [OF _ assms(8)] by (auto simp: insecureActive_def)
qed

text \<open>In the local mode a configured SPIRE socket silences the warning although the client does not use
  SPIRE: it skips every verification of the server.\<close>

theorem local_insecure_silent:
  assumes "fl_dataplaneInsecure fl" "fl_spireSocketPath fl \<noteq> []" "local_flags x fl = Some fl'"
    "fst (run_state (NewClient x (api_config_of fl')) w) = Inr c"
  shows "\<not> insecureActive fl \<and> (\<exists>pair. c_transport c = HTTPTransport True False pair)"
proof -
  have "Insecure (api_config_of fl')"
    using assms(1,3) by (auto simp: local_flags_def api_config_of_def split: if_splits option.splits)
  with assms(4) have "\<exists>pair. c_transport c = HTTPTransport True False pair"
    by (auto simp: NewClient_def Let_def newClient_def env_call_def loadCAPool_def
        split: sum.splits if_splits option.splits prod.splits)
  with assms(2) show ?thesis by (simp add: insecureActive_def)
qed

text \<open>A mode that is neither of the two starts the manager without the defaults: with no Secret name
  every Secret that has the key is taken for the configuration.\<close>

lemma unknown_mode_unrestricted:
  assumes "fst (run_state (main x l api getenv fe args n) w) = (gs, Inr cfg)"
    "parse_args fe args (flag_defaults getenv) = Inr fl" "fl_mode fl \<noteq> ''k8s''" "fl_secretName fl = []"
  shows "shouldReconcile cfg s"
  using main_started [OF assms(1)] assms(2-4) by (fastforce simp: k8s_defaults_def settings_of_def shouldReconcile_def)

section \<open>Examples\<close>

definition plain_api :: "'e cluster_api" where
  "plain_api = \<lparr>ca_rest = (\<lambda>r e. (None, e)), ca_manager = (\<lambda>fl ns e. (Inr plain_manager, e)),
     ca_healthz = (\<lambda>e. (None, e))\<rparr>"

definition default_settings :: settings where
  "default_settings = (settings_of (k8s_defaults (flag_defaults unset)))\<lparr>Recorder := True\<rparr>"

lemma default_mode: "parse_args bare_flag_env [] (flag_defaults unset) = Inr (flag_defaults unset)"
  "fl_mode (flag_defaults unset) = ''k8s''"
  by (simp_all add: flag_defaults_def envOr_def unset_def)

lemma default_main:
  "run_state (main (cluster_ext ''x'') idle_env plain_api unset bare_flag_env [] 0) (demo_world ''x'' fmempty) =
     (([], Inr default_settings), demo_world ''x'' fmempty)"
proof -
  have "fl_mode (k8s_defaults (flag_defaults unset)) = ''k8s''" "\<not> insecureActive (flag_defaults unset)"
    "fl_dataplaneClientCert (k8s_defaults (flag_defaults unset)) = []"
    by (simp_all add: k8s_defaults_def flag_defaults_def envOr_def unset_def insecureActive_def)
  then show ?thesis
    by (simp add: main_def Let_def export_insecure_def setup_manager_def env_call_def plain_api_def
        SetupWithManager_def plain_manager_def default_settings_def initial_world_def)
qed

definition after_event :: "cluster world" where
  "after_event = snd (run_state (Reconcile (cluster_ext ''x'') default_settings config_key) (demo_world ''x'' fmempty))"

lemma after_event_reachable: "reachable (cluster_ext ''x'') plain_manager default_settings after_event"
  unfolding after_event_def by (rule stepped [OF started reconciled [OF prod.collapse [symmetric]]])

theorem manager_patches_config_only_witness:
  "SecretName default_settings \<noteq> [] \<and> list_all (patches_only (SecretName default_settings)) (w_trace after_event)"
proof -
  have "fst (run_state (main (cluster_ext ''x'') idle_env plain_api unset bare_flag_env [] 0) (demo_world ''x'' fmempty))
      = ([], Inr default_settings)"
    by (simp add: default_main)
  then show ?thesis
    by (rule manager_patches_config_only [OF _ default_mode cluster_faithful after_event_reachable])
qed

text \<open>A manager whose environment names the mounted files, after it has answered a probe.\<close>

definition mounted_files :: "string \<Rightarrow> string" where
  "mounted_files k =
    (if k = ''DATAPLANE_CA_CERT'' then ''ca'' else if k = ''DATAPLANE_CLIENT_CERT'' then ''crt''
     else if k = ''DATAPLANE_CLIENT_KEY'' then ''key'' else [])"

definition mounted_settings :: settings where
  "mounted_settings = (settings_of (k8s_defaults (flag_defaults mounted_files)))\<lparr>Recorder := True\<rparr>"

lemma mounted_mode: "parse_args bare_flag_env [] (flag_defaults mounted_files) = Inr (flag_defaults mounted_files)"
  "fl_mode (flag_defaults mounted_files) = ''k8s''" "\<not> insecureActive (flag_defaults mounted_files)"
  "fl_spireSocketPath (flag_defaults mounted_files) = []" "fl_dataplaneCACert (flag_defaults mounted_files) = ''ca''"
  by (simp_all add: flag_defaults_def envOr_def mounted_files_def insecureActive_def)

lemma mounted_main:
  "\<exists>gs w1. run_state (main https_ext idle_env plain_api mounted_files bare_flag_env [] 0) (initial_world ()) =
     ((gs, Inr mounted_settings), w1) \<and> WarnDataplaneInsecure \<notin> set gs"
proof -
  have "fl_mode (k8s_defaults (flag_defaults mounted_files)) = ''k8s''"
    by (simp add: k8s_defaults_def mounted_mode(2))
  then show ?thesis
    using mounted_mode(1-3)
    by (simp add: main_def Let_def export_insecure_def setup_manager_def env_call_def plain_api_def
        SetupWithManager_def plain_manager_def mounted_settings_def)
qed

definition mounted_client :: client where
  "mounted_client = newClient (APIConfig mounted_settings)
     \<lparr>u_scheme = ''https'', u_host = ''gw'', u_path = ''/v3'', u_query = []\<rparr> (HTTPTransport True True True)"

definition after_readyz :: "unit world" where
  "after_readyz = snd (run_state (DataplaneReady https_ext mounted_settings) (initial_world ()))"

lemma after_readyz_reachable: "reachable https_ext plain_manager mounted_settings after_readyz"
  unfolding after_readyz_def by (rule stepped [OF started probed [OF prod.collapse [symmetric]]])

lemma after_readyz_client: "hclient after_readyz = Some mounted_client"
proof -
  have "SpireSocketPath mounted_settings = []" "CACertPath (APIConfig mounted_settings) = ''ca''"
    "ClientCertPath (APIConfig mounted_settings) = ''crt''"
    "ClientKeyPath (APIConfig mounted_settings) = ''key''" "\<not> Insecure (APIConfig mounted_settings)"
    by (simp_all add: mounted_settings_def settings_of_def api_config_of_def k8s_defaults_def flag_defaults_def
        envOr_def mounted_files_def)
  then have "run_state (getOrCreateClient https_ext mounted_settings) (initial_world ()) =
      (Inr mounted_client, (initial_world ())\<lparr>w_rec := initial_reconciler\<lparr>haproxyClient := Some mounted_client\<rparr>\<rparr>)"
    by (simp add: getOrCreateClient_def NewClient_def Let_def loadCAPool_def mounted_client_def initial_world_def
        initial_reconciler_def)
  moreover have "rel (calls (version_read mounted_client)) (Ping https_ext mounted_client)"
    unfolding Ping_def by (intro calls.rel_control getConfigVersion_calls)
  then have "w_rec (snd (run_state (Ping https_ext mounted_client) w)) = w_rec w" for w
    by (auto simp: calls_def dest: relD [of _ _ w])
  ultimately show ?thesis
    by (simp add: after_readyz_def DataplaneReady_def case_prod_beta)
qed

theorem zero_gauge_verified_witness:
  "CACertPath (c_config mounted_client) = ''ca''
   \<and> accepted_by_files https_ext trusting_env mounted_client [''DER''] ()"
proof -
  obtain gs w1 where m: "run_state (main https_ext idle_env plain_api mounted_files bare_flag_env [] 0) (initial_world ()) =
     ((gs, Inr mounted_settings), w1)" "WarnDataplaneInsecure \<notin> set gs" using mounted_main by blast
  have s: "run_state (server_check https_ext trusting_env mounted_client [''DER'']) (initial_world ()) = (None, initial_world ())"
    by (simp add: server_check_def tls_config_of_def mounted_client_def newClient_def VerifyPeerCertificate_def
        loadCAPool_def trusting_env_def)
  have "u_scheme (c_base mounted_client) = ''https''" by (simp add: mounted_client_def newClient_def)
  from zero_gauge_verified [OF m(1) mounted_mode(1,2) _ after_readyz_reachable after_readyz_client this s] m(2) mounted_mode(4,5)
  show ?thesis by simp
qed

definition quiet_flags :: flags where
  "quiet_flags = (flag_defaults unset)\<lparr>fl_mode := ''local'', fl_dataplaneInsecure := True, fl_spireSocketPath := ''sock''\<rparr>"

definition quiet_client :: client where
  "quiet_client = newClient (api_config_of (the (local_flags (cluster_ext ''x'') quiet_flags)))
     \<lparr>u_scheme = ''http'', u_host = ''gw'', u_path = ''/v3'', u_query = []\<rparr> (HTTPTransport True False False)"

theorem local_insecure_silent_witness:
  "\<not> insecureActive quiet_flags \<and> (\<exists>pair. c_transport quiet_client = HTTPTransport True False pair)"
proof -
  let ?fl = "the (local_flags (cluster_ext ''x'') quiet_flags)"
  have l: "local_flags (cluster_ext ''x'') quiet_flags = Some ?fl"
    by (simp add: local_flags_def withScheme_def)
  have "fl_dataplaneCACert ?fl = []" "fl_dataplaneClientCert ?fl = []" "fl_dataplaneClientKey ?fl = []" "fl_dataplaneInsecure ?fl"
    by (simp_all add: local_flags_def withScheme_def quiet_flags_def flag_defaults_def envOr_def unset_def)
  then have "fst (run_state (NewClient (cluster_ext ''x'') (api_config_of ?fl)) (initial_world (demo_cluster [] fmempty))) = Inr quiet_client"
    by (simp add: NewClient_def Let_def api_config_of_def quiet_client_def)
  moreover have "fl_dataplaneInsecure quiet_flags" "fl_spireSocketPath quiet_flags \<noteq> []"
    by (simp_all add: quiet_flags_def)
  ultimately show ?thesis using local_insecure_silent l by blast
qed

end
