(* ===== verification/Recovery.thy ===== *)
theory Recovery
  imports Cluster
begin

text \<open>
  How a reconcile deals with what goes wrong at the gateway: a configuration it refuses, a gateway
  that does not answer the version read, a live configuration that drifted, and one whose baseline
  could not be read after the apply. Each is a whole reconcile with its result, its requests and
  what it records.
\<close>

section \<open>A gateway that refuses\<close>

definition answers_code :: "'e ext \<Rightarrow> http_request \<Rightarrow> int \<Rightarrow> bool" where
  "answers_code x rq code \<longleftrightarrow> x_new_request x rq = None
     \<and> (\<forall>e. case fst (x_http x rq e) of Inr resp \<Rightarrow> rs_status resp = code | Inl _ \<Rightarrow> False)"

lemma do_request_code:
  assumes "answers_code x (make_request c m p b t) code" "\<not> success code"
  obtains msg out w' where "run_state (do_request x c m p b t) w = (Inl (APIError code msg), w')" "talks x w w'"
    "w_trace w' = w_trace w @ [HttpCall (make_request c m p b t) out]"
proof -
  let ?rq = "make_request c m p b t"
  obtain out dt e where h: "x_http x ?rq (w_env w) = (out, dt, e)" by (metis prod_cases3)
  have "case fst (x_http x ?rq (w_env w)) of Inr resp \<Rightarrow> rs_status resp = code | Inl _ \<Rightarrow> False"
    using assms(1) by (simp add: answers_code_def)
  with h obtain resp where resp: "out = Inr resp" "rs_status resp = code" by (auto split: sum.splits)
  obtain r w' where run: "run_state (do_request x c m p b t) w = (r, w')" by (metis surj_pair)
  have t: "talks x w w'"
    using relD [OF do_request_talks [of x c m p b t], of w] run by simp
  have tr: "w_trace w' = w_trace w @ [HttpCall ?rq out]" and r: "r = answer out"
    using run assms(1) h resp
    by (auto simp: do_request_def Let_def do_http_def observe_leaf_def modify_metrics_def answers_code_def
        answer_def success_def split: option.splits if_splits)
  have "\<exists>msg. r = Inl (APIError code msg)"
    using r resp assms(2) by (simp add: answer_def newAPIError_def Let_def)
  with run t tr that show ?thesis by blast
qed

lemma version_refused:
  assumes "answers_code x (version_request c) code" "\<not> success code"
  obtains msg out w' where "run_state (getConfigVersion x c) w = (Inl (VersionCheckError (APIError code msg)), w')"
    "talks x w w'" "w_trace w' = w_trace w @ [HttpCall (version_request c) out]"
proof -
  from assms(1) have "answers_code x (make_request c ''GET'' version_path None ''application/json'') code"
    by (simp add: version_request_def)
  then obtain msg out w' where r: "run_state (do_request x c ''GET'' version_path None ''application/json'') w = (Inl (APIError code msg), w')"
    "talks x w w'" "w_trace w' = w_trace w @ [HttpCall (version_request c) out]"
    unfolding version_request_def by (rule do_request_code [OF _ assms(2), where w = w])
  then have "run_state (getConfigVersion x c) w = (Inl (VersionCheckError (APIError code msg)), w')"
    by (simp add: getConfigVersion_def doRequest_def json_result_def)
  with r that show ?thesis by blast
qed

lemma post_refused:
  assumes "answers x (version_request c) (\<lambda>resp. \<exists>n. version_answer x (Inr resp) = Inr n)"
    "\<And>n. answers_code x (post_request c ep raw n) code" "\<not> success code"
  obtains msg out n out' w' where "run_state (post_raw x c ep raw) w = (Some (APIError code msg), w')" "talks x w w'"
    "w_trace w' = w_trace w @ [HttpCall (version_request c) out, HttpCall (post_request c ep raw n) out']"
proof -
  from answers_in_any [OF assms(1)] have "answers_in x (w_env w) (make_request c ''GET'' version_path None ''application/json'')
      (\<lambda>resp. \<exists>n. version_answer x (Inr resp) = Inr n)" by (simp add: version_request_def)
  then obtain resp w1 where d: "run_state (do_request x c ''GET'' version_path None ''application/json'') w = (Inr resp, w1)"
    "\<exists>n. version_answer x (Inr resp) = Inr n" "success (rs_status resp)" "talks x w w1"
    "w_trace w1 = w_trace w @ [HttpCall (version_request c) (Inr resp)]"
    unfolding version_request_def by (rule do_request_answered [where w = w])
  then obtain n where n: "version_answer x (Inr resp) = Inr n" by blast
  with d have v: "run_state (getConfigVersion x c) w = (Inr n, w1)"
    by (simp add: getConfigVersion_def doRequest_def version_answer_def answer_def)
  have "answers_code x (make_request c ''POST'' (ep n) (if raw \<noteq> [] then Some raw else None) ''text/plain'') code"
    using assms(2) [of n] by (simp only: post_request_def)
  then obtain msg out' w' where r: "run_state (do_request x c ''POST'' (ep n) (if raw \<noteq> [] then Some raw else None) ''text/plain'') w1
      = (Inl (APIError code msg), w')" "talks x w1 w'"
    "w_trace w' = w_trace w1 @ [HttpCall (post_request c ep raw n) out']"
    unfolding post_request_def by (rule do_request_code [OF _ assms(3), where w = w1])
  then have "run_state (post_raw x c ep raw) w = (Some (APIError code msg), w')"
    using v by (simp add: post_raw_def doRequestPlain_def no_result_def)
  moreover have "talks x w w'" using d(4) r(2) by (rule talks.R_trans)
  moreover have "w_trace w' = w_trace w @ [HttpCall (version_request c) (Inr resp), HttpCall (post_request c ep raw n) out']"
    by (simp add: r(3) d(5))
  ultimately show ?thesis by (rule that)
qed

section \<open>A failed validation\<close>

text \<open>The world in which the validator is called.\<close>

definition before_validation :: "string \<Rightarrow> 'e world \<Rightarrow> 'e world" where
  "before_validation h w = snd (run_state (count_attempt ''validate'') (snd (run_state (note_desired h) w)))"

lemma before_validation_simps [simp]:
  "w_trace (before_validation h w) = w_trace w" "hclient (before_validation h w) = hclient w"
  "transientFailures (w_rec (before_validation h w)) =
    (if lastDesiredHash (w_rec w) = h then transientFailures (w_rec w) else 0)"
  by (simp_all add: before_validation_def count_attempt_def note_desired_def)

lemma push_config_refused:
  assumes "hclient w = Some c" "h \<noteq> annotation s LastFailedHashAnnotation" "CertsSecretNames cfg = []"
    "run_state (Validate x c raw) (before_validation h w) = (Some err, w1)"
  shows "run_state (push_config x cfg s h raw) w = run_state
    (if classify_err err = ClassConfigRejected then reject_config x cfg s h err else transient_failure x cfg s [] err)
    (snd (run_state (count_result (StatusValue (classify_err err))) w1))"
proof -
  let ?w0 = "snd (run_state (note_desired h) w)"
  have "hclient ?w0 = Some c" using assms(1) by (simp add: note_desired_def)
  then have "run_state (prepare x cfg s h) w = (Inr (c, s), ?w0)"
    using assms(2,3) by (simp add: prepare_def getOrCreateClient_def note_desired_def)
  moreover have unit: "run_state m v = ((), snd (run_state m v))" for m :: "('a, unit) go" and v
    by (simp add: prod_eq_iff)
  have "run_state (count_attempt ''validate'') ?w0 = ((), before_validation h w)"
    unfolding before_validation_def by (rule unit)
  ultimately show ?thesis
    using assms(4) unit [of "count_result (StatusValue (classify_err err))" w1]
    by (simp add: push_config_def validate_phase_def case_prod_beta)
qed

text \<open>What the two outcomes write.\<close>

lemma reject_recorded:
  assumes "patches_succeed x"
  shows "\<exists>w' es s' m t. run_state (reject_config x cfg s h err) w = (RequeueAfter RequeueInterval, w')
    \<and> w_trace w' = w_trace w @ es @ [KubePatch s (mutated (status_mutation ''ConfigRejected'' m t (reject_mutation h)) s) (Inr s')]
    \<and> list_all (\<lambda>e. \<not> sends P e) es \<and> w_rec w' = (w_rec w)\<lparr>lastMetricHash := h, lastMetricState := ''rejected''\<rparr>"
proof -
  define wa where "wa = snd (run_state (exportConfigHash h ''rejected'')
    (snd (run_state (emit (Recorder cfg) (key_of s) ConfigRejected (error_text err)) w)))"
  have a: "\<exists>es. w_trace wa = w_trace w @ es \<and> list_all (\<lambda>e. \<not> sends P e) es"
    "w_rec wa = (w_rec w)\<lparr>lastMetricHash := h, lastMetricState := ''rejected''\<rparr>"
    by (auto simp: wa_def emit_def exportConfigHash_run sends_def split: option.split)
  let ?f = "status_mutation ''ConfigRejected'' (error_text err) (x_format_time x (w_now wa)) (reject_mutation h)"
  obtain s' w' where p: "run_state (patchAnnotations x s ?f) wa = ((None, s'), w')" "w_rec w' = w_rec wa"
    "w_trace w' = w_trace wa @ [KubePatch s (mutated ?f s) (Inr s')]"
    by (rule patch_succeeds [OF assms, of s ?f wa])
  have "run_state (reject_config x cfg s h err) w = (RequeueAfter RequeueInterval, w')"
    using p(1) by (simp add: reject_config_def failWithStatus_def wa_def emit_def exportConfigHash_run)
  with a p(2,3) show ?thesis by fastforce
qed

lemma transient_recorded:
  assumes "patches_succeed x"
  shows "\<exists>w' es s' m t. run_state (transient_failure x cfg s stage err) w = (RequeueAfter (backoffForFailure (transientFailures (w_rec w'))), w')
    \<and> w_trace w' = w_trace w @ es @ [KubePatch s (mutated (status_mutation (stage @ StatusValue (classify_err err)) m t no_extra) s) (Inr s')]
    \<and> transientFailures (w_rec w') = int_succ (transientFailures (w_rec w))"
proof -
  define wa where "wa = snd (run_state (emit (Recorder cfg) (key_of s) (eventReasonForClass (classify_err err)) (error_text err))
    (snd (run_state (count_class (classify_err err)) w)))"
  have a: "\<exists>es. w_trace wa = w_trace w @ es" "w_rec wa = w_rec w"
    by (auto simp: wa_def emit_def count_class_def split: option.split)
  let ?f = "status_mutation (stage @ StatusValue (classify_err err)) (error_text err) (x_format_time x (w_now wa)) no_extra"
  obtain s' wb where p: "run_state (patchAnnotations x s ?f) wa = ((None, s'), wb)" "w_rec wb = w_rec wa"
    "w_trace wb = w_trace wa @ [KubePatch s (mutated ?f s) (Inr s')]"
    by (rule patch_succeeds [OF assms, of s ?f wa])
  let ?w' = "wb\<lparr>w_rec := (w_rec wb)\<lparr>transientFailures := int_succ (transientFailures (w_rec wb))\<rparr>\<rparr>"
  have "run_state (transient_failure x cfg s stage err) w = (RequeueAfter (backoffForFailure (transientFailures (w_rec ?w'))), ?w')"
    using p(1)
    by (simp add: transient_failure_def fail_transient_def failWithStatus_def count_failure_def Let_def wa_def emit_def count_class_def)
  moreover have "\<exists>es. w_trace ?w' = w_trace w @ es @ [KubePatch s (mutated ?f s) (Inr s')]"
    "transientFailures (w_rec ?w') = int_succ (transientFailures (w_rec w))"
    using a p(2,3) by auto
  ultimately show ?thesis by blast
qed

lemma refused_annotations:
  "annotation (mutated (status_mutation v m t (reject_mutation h)) s) LastFailedHashAnnotation = h"
  "annotation (mutated (status_mutation v m t (reject_mutation h)) s) StatusAnnotation = v"
  "annotation (mutated (status_mutation v m t (reject_mutation h)) s) LastAppliedHashAnnotation = annotation s LastAppliedHashAnnotation"
  "annotation (mutated (status_mutation v m t no_extra) s) StatusAnnotation = v"
  "annotation (mutated (status_mutation v m t no_extra) s) LastFailedHashAnnotation = annotation s LastFailedHashAnnotation"
  "annotation (mutated (status_mutation v m t no_extra) s) LastAppliedHashAnnotation = annotation s LastAppliedHashAnnotation"
  by (simp_all add: annotation_map mutation_defs annotation_defs)

section \<open>The configuration is refused\<close>

text \<open>C6: a gateway that answers the validation of a new configuration with 400 or 422 ends the reconcile with
  the hash recorded as failed, the status ConfigRejected, the applied hash kept and the regular
  interval; nothing is applied.\<close>

theorem invalid_config_rejected:
  assumes "config_event x cfg req s raw w" "HashBytes raw \<noteq> annotation s LastAppliedHashAnnotation"
    "HashBytes raw \<noteq> annotation s LastFailedHashAnnotation" "raw \<noteq> []" "CertsSecretNames cfg = []"
    "hclient w = Some c" "answers x (version_request c) (\<lambda>resp. \<exists>n. version_answer x (Inr resp) = Inr n)"
    "\<And>n. answers_code x (validate_request c raw n) code" "code = 400 \<or> code = 422" "patches_succeed x"
  shows "\<exists>w' es new s'. run_state (Reconcile x cfg req) w = (RequeueAfter RequeueInterval, w')
    \<and> w_trace w' = w_trace w @ es @ [KubePatch s new (Inr s')] \<and> list_all (\<lambda>e. \<not> sends (is_apply c) e) es
    \<and> annotation new LastFailedHashAnnotation = HashBytes raw \<and> annotation new StatusAnnotation = ''ConfigRejected''
    \<and> annotation new LastAppliedHashAnnotation = annotation s LastAppliedHashAnnotation"
proof -
  let ?h = "HashBytes raw" and ?w0 = "after_get x req s w"
  have code: "\<not> success code" using assms(9) by (auto simp: success_def)
  have ans: "answers_code x (post_request c validate_endpoint raw n) code" for n
    using assms(8) [of n] by (simp add: post_raw_instances(3))
  obtain msg out n out' w1 where v: "run_state (post_raw x c validate_endpoint raw) (before_validation ?h ?w0) = (Some (APIError code msg), w1)"
    "w_trace w1 = w_trace ?w0 @ [HttpCall (version_request c) out, HttpCall (validate_request c raw n) out']"
    by (rule post_refused [OF assms(7) ans code, of "before_validation ?h ?w0"]) (simp add: post_raw_instances(3))
  have cls: "classify_err (APIError code msg) = ClassConfigRejected"
    using classify_err_rejected_iff [of "APIError code msg"] assms(9) by (auto simp: rejecting_status_def errors_as_def)
  let ?w2 = "snd (run_state (count_result ''ConfigRejected'') w1)"
  obtain w' es s' m t where r: "run_state (reject_config x cfg s ?h (APIError code msg)) ?w2 = (RequeueAfter RequeueInterval, w')"
    "w_trace w' = w_trace ?w2 @ es @ [KubePatch s (mutated (status_mutation ''ConfigRejected'' m t (reject_mutation ?h)) s) (Inr s')]"
    "list_all (\<lambda>e. \<not> sends (is_apply c) e) es"
    using reject_recorded [OF assms(10), of cfg s ?h "APIError code msg" ?w2 "is_apply c"] by blast
  have "run_state (Validate x c raw) (before_validation ?h ?w0) = (Some (APIError code msg), w1)"
    using assms(4) v(1) by (simp add: Validate_def post_raw_instances)
  from push_config_refused [OF _ assms(3,5) this] assms(2,6) cls r(1)
  have "run_state (Reconcile x cfg req) w = (RequeueAfter RequeueInterval, w')"
    by (simp add: config_event_run [OF assms(1)])
  moreover have "w_trace w' = w_trace w @ (KubeGet req (Inr s) # HttpCall (version_request c) out # HttpCall (validate_request c raw n) out' # es)
      @ [KubePatch s (mutated (status_mutation ''ConfigRejected'' m t (reject_mutation ?h)) s) (Inr s')]"
    using r(2) v(2) by (simp add: count_result_def)
  moreover have "\<not> is_apply c (version_request c)" "\<not> is_apply c (validate_request c raw n)"
    using storage_request_kind [OF version_storage [of c]] validate_request_kind by simp_all
  then have "list_all (\<lambda>e. \<not> sends (is_apply c) e)
      (KubeGet req (Inr s) # HttpCall (version_request c) out # HttpCall (validate_request c raw n) out' # es)"
    using r(3) by (simp add: sends_def)
  ultimately show ?thesis using refused_annotations(1-3) by blast
qed

section \<open>The gateway is not available\<close>

text \<open>C7: a gateway that answers the version read with an error status, whatever the status, is retried:
  both recorded hashes stay, the failure is counted in a counter that starts afresh for new bytes,
  and the next reconcile comes after the backoff of that counter.\<close>

theorem unavailable_gateway_retried:
  assumes "config_event x cfg req s raw w" "HashBytes raw \<noteq> annotation s LastAppliedHashAnnotation"
    "HashBytes raw \<noteq> annotation s LastFailedHashAnnotation" "raw \<noteq> []" "CertsSecretNames cfg = []"
    "hclient w = Some c" "answers_code x (version_request c) code" "\<not> success code" "patches_succeed x"
  shows "\<exists>w' es new s'. run_state (Reconcile x cfg req) w = (RequeueAfter (backoffForFailure (transientFailures (w_rec w'))), w')
    \<and> w_trace w' = w_trace w @ es @ [KubePatch s new (Inr s')]
    \<and> transientFailures (w_rec w') =
        int_succ (if lastDesiredHash (w_rec w) = HashBytes raw then transientFailures (w_rec w) else 0)
    \<and> annotation new LastFailedHashAnnotation = annotation s LastFailedHashAnnotation
    \<and> annotation new LastAppliedHashAnnotation = annotation s LastAppliedHashAnnotation
    \<and> annotation new StatusAnnotation =
        StatusValue (if code = 400 \<or> code = 422 then ClassUnknown else classifyHTTPStatus code)"
proof -
  let ?h = "HashBytes raw" and ?w0 = "after_get x req s w"
  obtain msg out w1 where v: "run_state (getConfigVersion x c) (before_validation ?h ?w0) = (Inl (VersionCheckError (APIError code msg)), w1)"
    "talks x (before_validation ?h ?w0) w1" "w_trace w1 = w_trace ?w0 @ [HttpCall (version_request c) out]"
    by (rule version_refused [OF assms(7,8), of "before_validation ?h ?w0"]) simp
  let ?err = "VersionCheckError (APIError code msg)"
  have cls: "classify_err ?err = (if code = 400 \<or> code = 422 then ClassUnknown else classifyHTTPStatus code)"
    by (simp add: classify_err.simps [of ?err] classify_err.simps [of "APIError code msg"] Let_def
        classifyHTTPStatus_rejected_iff errors_as_def)
  then have nr: "classify_err ?err \<noteq> ClassConfigRejected" by (simp add: classifyHTTPStatus_rejected_iff)
  let ?w2 = "snd (run_state (count_result (StatusValue (classify_err ?err))) w1)"
  obtain w' es s' m t where r: "run_state (transient_failure x cfg s [] ?err) ?w2 = (RequeueAfter (backoffForFailure (transientFailures (w_rec w'))), w')"
    "w_trace w' = w_trace ?w2 @ es @ [KubePatch s (mutated (status_mutation (StatusValue (classify_err ?err)) m t no_extra) s) (Inr s')]"
    "transientFailures (w_rec w') = int_succ (transientFailures (w_rec ?w2))"
    using transient_recorded [OF assms(9), of cfg s "[]" ?err ?w2] by auto
  have "run_state (Validate x c raw) (before_validation ?h ?w0) = (Some ?err, w1)"
    using assms(4) v(1) by (simp add: Validate_def post_raw_instances post_raw_def)
  from push_config_refused [OF _ assms(3,5) this] assms(2,6) nr r(1)
  have "run_state (Reconcile x cfg req) w = (RequeueAfter (backoffForFailure (transientFailures (w_rec w'))), w')"
    by (simp add: config_event_run [OF assms(1)])
  moreover have "w_trace w' = w_trace w @ (KubeGet req (Inr s) # HttpCall (version_request c) out # es)
      @ [KubePatch s (mutated (status_mutation (StatusValue (classify_err ?err)) m t no_extra) s) (Inr s')]"
    using r(2) v(3) by (simp add: count_result_def)
  moreover have "transientFailures (w_rec w') =
      int_succ (if lastDesiredHash (w_rec w) = ?h then transientFailures (w_rec w) else 0)"
    using r(3) v(2) by (simp add: count_result_def talks_def)
  ultimately show ?thesis
    using refused_annotations(4-6) [of "StatusValue (classify_err ?err)" m t s] unfolding cls by blast
qed

section \<open>The live configuration drifted\<close>

lemma check_drift_read:
  assumes "hclient w = Some c" "answers_in x (w_env w) (live_request c) (\<lambda>resp. string_result (Inr resp) = Inr stored)"
  obtains resp w1 where "run_state (check_drift x cfg s h) w = run_state (compare_live x cfg s h stored) w1"
    "hclient w1 = Some c" "w_trace w1 = w_trace w @ [HttpCall (live_request c) (Inr resp)]"
    "string_result (Inr resp) = Inr stored"
proof -
  obtain resp w1 where l: "run_state (GetRawConfiguration x c) w = (Inr stored, w1)" "talks x w w1"
    "w_trace w1 = w_trace w @ [HttpCall (live_request c) (Inr resp)]" "string_result (Inr resp) = Inr stored"
    by (rule live_answered [OF assms(2)])
  show ?thesis
    by (rule that [of w1 resp]) (use assms(1) l in \<open>simp_all add: check_drift_def getOrCreateClient_def talks_def\<close>)
qed

text \<open>C8: a configuration that is recorded as applied, with an observation recorded for it, on a gateway that
  by now runs something else. With remediation and Events on, no managed certificates and the bytes not
  recorded as rejected, the reconcile reads what runs, reports the drift by an Event, then has the
  bytes validated and applied again and records the new observation; the gateway runs what it
  made of them.\<close>

theorem drift_remediated:
  assumes "config_event x cfg req s raw w" "annotation s LastAppliedHashAnnotation = HashBytes raw"
    "annotation s LastObservedHashAnnotation = observed" "observed \<noteq> observedHashPending"
    "HashBytes (g (w_env w)) \<noteq> (if observed = [] then HashBytes raw else observed)"
    "annotation s LastFailedHashAnnotation \<noteq> HashBytes raw" "DriftRemediate cfg" "Recorder cfg" "raw \<noteq> []"
    "CertsSecretNames cfg = []" "hclient w = Some c" "serves x c raw stored g" "patches_succeed x"
  shows "\<exists>w' live ev es new s'. run_state (Reconcile x cfg req) w = (RequeueAfter RequeueInterval, w')
    \<and> w_trace w' = w_trace w @ [KubeGet req (Inr s), HttpCall (live_request c) (Inr live), Recorded ev] @ es @ [KubePatch s new (Inr s')]
    \<and> string_result (Inr live) = Inr (g (w_env w)) \<and> ev_reason ev = ConfigDriftReason \<and> pushes c raw stored es
    \<and> recorded_applied new (HashBytes raw) (HashBytes stored) \<and> g (w_env w') = stored"
proof -
  let ?h = "HashBytes raw" and ?w0 = "after_get x req s w" and ?live = "g (w_env w)"
  have c0: "hclient ?w0 = Some c" using assms(11) by simp
  have "g (w_env ?w0) = ?live" using servesD(7) [OF assms(12)] by (simp add: after_get_def)
  then have live: "answers_in x (w_env ?w0) (live_request c) (\<lambda>resp. string_result (Inr resp) = Inr ?live)"
    using servesD(2) [OF assms(12), of "w_env ?w0"] by simp
  obtain resp w1 where r: "run_state (check_drift x cfg s ?h) ?w0 = run_state (compare_live x cfg s ?h ?live) w1"
    "hclient w1 = Some c" "w_trace w1 = w_trace ?w0 @ [HttpCall (live_request c) (Inr resp)]"
    "string_result (Inr resp) = Inr ?live"
    by (rule check_drift_read [OF c0 live, of cfg s ?h])
  obtain ev where ev: "EmitEvent True (key_of s) ConfigDriftReason reapplying_text = Some ev" "ev_reason ev = ConfigDriftReason"
    by (simp add: EmitEvent_def)
  let ?w1 = "w1\<lparr>w_rec := (w_rec w1)\<lparr>transientFailures := 0\<rparr>\<rparr>"
  let ?w2 = "snd (run_state (drift_found cfg s ?h) ?w1)"
  have "run_state (compare_live x cfg s ?h ?live) w1 = run_state (drift_found cfg s ?h) ?w1"
    using assms(2-5) by (cases "observed = []") (simp_all add: compare_live_def Let_def)
  moreover have "run_state (drift_found cfg s ?h) ?w1 = (None, ?w2) \<and> hclient ?w2 = Some c \<and> w_trace ?w2 = w_trace w1 @ [Recorded ev]"
    using assms(6-8) r(2) ev(1) by (simp add: drift_found_def count_drift_def emit_def)
  ultimately have d: "run_state (compare_live x cfg s ?h ?live) w1 = (None, ?w2)" "hclient ?w2 = Some c"
    "w_trace ?w2 = w_trace w1 @ [Recorded ev]" by simp_all
  from push_config_applied [OF d(2) _ assms(9,10,12,13), of ?h s] assms(6)
  obtain w' es s' new where p: "run_state (push_config x cfg s ?h raw) ?w2 = (RequeueAfter RequeueInterval, w')"
    "w_trace w' = w_trace ?w2 @ es @ [KubePatch s new (Inr s')]" "pushes c raw stored es"
    "\<exists>t. new = mutated (record_applied ?h (HashBytes stored) t) s" "g (w_env w') = stored"
    by metis
  have "run_state (Reconcile x cfg req) w = (RequeueAfter RequeueInterval, w')"
    using assms(2) r(1) d(1) p(1) by (simp add: config_event_run [OF assms(1)])
  moreover have "w_trace w' = w_trace w @ [KubeGet req (Inr s), HttpCall (live_request c) (Inr resp), Recorded ev] @ es
      @ [KubePatch s new (Inr s')]"
    using p(2) d(3) r(3) by simp
  moreover have "recorded_applied new ?h (HashBytes stored)" using p(4) record_applied_annotations by blast
  ultimately show ?thesis using ev(2) r(4) p(3,5) by blast
qed

section \<open>A baseline that could not be read\<close>

text \<open>C9: when the baseline is still pending the live configuration is adopted as the observed one: one
  read, one write, the applied and the failed hash kept, no apply and no report of drift.\<close>

theorem pending_baseline_adopted:
  assumes "config_event x cfg req s raw w" "annotation s LastAppliedHashAnnotation = HashBytes raw"
    "annotation s LastObservedHashAnnotation = observedHashPending" "hclient w = Some c"
    "answers x (live_request c) (\<lambda>resp. string_result (Inr resp) = Inr stored)" "patches_succeed x"
  shows "\<exists>w' resp new s'. run_state (Reconcile x cfg req) w = (RequeueAfter RequeueInterval, w')
    \<and> w_trace w' = w_trace w @ [KubeGet req (Inr s), HttpCall (live_request c) (Inr resp), KubePatch s new (Inr s')]
    \<and> annotation new LastObservedHashAnnotation = HashBytes stored
    \<and> annotation new LastAppliedHashAnnotation = HashBytes raw
    \<and> annotation new LastFailedHashAnnotation = annotation s LastFailedHashAnnotation"
proof -
  let ?h = "HashBytes raw" and ?w0 = "after_get x req s w" and ?f = "adopt_baseline (HashBytes stored)"
  have c0: "hclient ?w0 = Some c" using assms(4) by simp
  obtain resp w1 where r: "run_state (check_drift x cfg s ?h) ?w0 = run_state (compare_live x cfg s ?h stored) w1"
    "w_trace w1 = w_trace ?w0 @ [HttpCall (live_request c) (Inr resp)]"
    by (rule check_drift_read [OF c0 answers_in_any [OF assms(5)], of cfg s ?h])
  let ?w2 = "w1\<lparr>w_rec := (w_rec w1)\<lparr>transientFailures := 0\<rparr>\<rparr>"
  obtain s' w3 where p: "run_state (patchAnnotations x s ?f) ?w2 = ((None, s'), w3)"
    "w_trace w3 = w_trace ?w2 @ [KubePatch s (mutated ?f s) (Inr s')]"
    by (rule patch_succeeds [OF assms(6), of s ?f ?w2])
  let ?w' = "snd (run_state (set_in_sync (s_name s') 1) w3)"
  have "run_state (compare_live x cfg s ?h stored) w1 = (Some (RequeueAfter RequeueInterval), ?w')"
    using assms(3) p(1) by (simp add: compare_live_def Let_def set_in_sync_def)
  with assms(2) r(1) have "run_state (Reconcile x cfg req) w = (RequeueAfter RequeueInterval, ?w')"
    by (simp add: config_event_run [OF assms(1)])
  moreover have "w_trace ?w' = w_trace w @ [KubeGet req (Inr s), HttpCall (live_request c) (Inr resp), KubePatch s (mutated ?f s) (Inr s')]"
    using p(2) r(2) by (simp add: set_in_sync_def)
  moreover have "annotation (mutated ?f s) LastObservedHashAnnotation = HashBytes stored"
    "annotation (mutated ?f s) LastAppliedHashAnnotation = ?h"
    "annotation (mutated ?f s) LastFailedHashAnnotation = annotation s LastFailedHashAnnotation"
    using assms(2) by (simp_all add: annotation_map mutation_defs annotation_defs)
  ultimately show ?thesis by blast
qed

section \<open>Examples\<close>

text \<open>The concrete environment with a gateway that reports its version and refuses the rest, and with one
  that answers everything with 503.\<close>

definition strict_ext :: "cluster ext" where
  "strict_ext = (cluster_ext ''y'')\<lparr>x_http := (\<lambda>rq e.
     (if rq = version_request demo_client then reply 200 ''1'' else reply 422 ''bad'', 0, e))\<rparr>"

definition down_ext :: "cluster ext" where
  "down_ext = (cluster_ext ''y'')\<lparr>x_http := (\<lambda>rq e. (reply 503 [], 0, e))\<rparr>"

lemma refusing_event:
  "config_event strict_ext demo_settings config_key (config_secret raw ann) raw (running_world raw ann)"
  "config_event down_ext demo_settings config_key (config_secret raw ann) raw (running_world raw ann)"
  using demo_event(2) [of "''y''" raw ann] by (simp_all add: config_event_def strict_ext_def down_ext_def)

lemma refusing_patches: "patches_succeed strict_ext" "patches_succeed down_ext"
  using cluster_patches [of "''y''"] by (simp_all add: patches_succeed_def strict_ext_def down_ext_def)

lemma new_bytes:
  "HashBytes m \<noteq> annotation (config_secret raw fmempty) k" "CertsSecretNames demo_settings = []"
  "hclient (running_world raw ann) = Some demo_client"
  using sha.hash_nonempty [of m] by (simp_all add: demo_settings_def running_world_def)

theorem invalid_config_rejected_witness:
  "\<exists>w' es new s'. run_state (Reconcile strict_ext demo_settings config_key) (running_world ''x'' fmempty) = (RequeueAfter RequeueInterval, w')
    \<and> w_trace w' = es @ [KubePatch (config_secret ''x'' fmempty) new (Inr s')]
    \<and> annotation new LastFailedHashAnnotation = HashBytes ''x''"
proof -
  have v: "answers strict_ext (version_request demo_client) (\<lambda>resp. \<exists>n. version_answer strict_ext (Inr resp) = Inr n)"
    using version_text [of strict_ext] by (auto simp: answers_def strict_ext_def reply_def success_def)
  have r: "answers_code strict_ext (validate_request demo_client ''x'' n) 422" for n
    using validate_request_kind(1) [of demo_client "''x''" n] version_request_def [of demo_client]
    by (auto simp: answers_code_def strict_ext_def reply_def is_validate_def make_request_def)
  show ?thesis
    using invalid_config_rejected [OF refusing_event(1) new_bytes(1) new_bytes(1) _ new_bytes(2) new_bytes(3) v r _ refusing_patches(1)]
    by fastforce
qed

theorem unavailable_gateway_retried_witness:
  "\<exists>w' d. run_state (Reconcile down_ext demo_settings config_key) (running_world ''x'' fmempty) = (RequeueAfter d, w')
    \<and> transientFailures (w_rec w') = 1"
proof -
  have v: "answers_code down_ext (version_request demo_client) 503"
    by (simp add: answers_code_def down_ext_def reply_def)
  have z: "lastDesiredHash (w_rec (running_world ''x'' fmempty)) \<noteq> HashBytes ''x''"
    using sha.hash_nonempty [of "''x''"] by (simp add: running_world_def initial_reconciler_def)
  have "\<not> success 503" by (simp add: success_def)
  from unavailable_gateway_retried [OF refusing_event(2) new_bytes(1) new_bytes(1) _ new_bytes(2) new_bytes(3) v this refusing_patches(2)]
  show ?thesis using z by (fastforce simp: int_succ_def)
qed

theorem drift_remediated_witness:
  "\<exists>w' es new s'. run_state (Reconcile (serving_ext ''y'') demo_settings config_key)
      (running_world ''x'' (fmupd LastAppliedHashAnnotation (HashBytes ''x'') (fmupd LastObservedHashAnnotation ''other'' fmempty)))
      = (RequeueAfter RequeueInterval, w')
    \<and> (\<exists>read. w_trace w' = read @ es @ [KubePatch (config_secret ''x'' (fmupd LastAppliedHashAnnotation (HashBytes ''x'')
        (fmupd LastObservedHashAnnotation ''other'' fmempty))) new (Inr s')])
    \<and> pushes demo_client ''x'' ''y'' es \<and> recorded_applied new (HashBytes ''x'') (HashBytes ''y'')
    \<and> cl_running (w_env w') = ''y''"
proof -
  let ?ann = "fmupd LastAppliedHashAnnotation (HashBytes ''x'') (fmupd LastObservedHashAnnotation ''other'' fmempty)"
  have a: "annotation (config_secret ''x'' ?ann) LastAppliedHashAnnotation = HashBytes ''x''"
    "annotation (config_secret ''x'' ?ann) LastObservedHashAnnotation = ''other''"
    "annotation (config_secret ''x'' ?ann) LastFailedHashAnnotation \<noteq> HashBytes ''x''"
    using sha.hash_nonempty [of "''x''"] by (simp_all add: annotation_defs)
  have h: "''other'' \<noteq> observedHashPending"
    "HashBytes (cl_running (w_env (running_world ''x'' ?ann))) \<noteq> (if ''other'' = [] then HashBytes ''x'' else ''other'')"
    using sha.hash_not_short [of "''other''"] by (simp_all add: observedHashPending_def)
  have d: "DriftRemediate demo_settings" "Recorder demo_settings" by (simp_all add: demo_settings_def)
  have "''x'' \<noteq> []" by simp
  from drift_remediated [OF demo_event(3) a(1,2) h a(3) d this new_bytes(2) new_bytes(3) serving_serves serving_patches]
  show ?thesis by (metis append.assoc)
qed

theorem pending_baseline_adopted_witness:
  "\<exists>w' new. run_state (Reconcile (cluster_ext ''y'') demo_settings config_key)
      (running_world ''x'' (fmupd LastAppliedHashAnnotation (HashBytes ''x'') (fmupd LastObservedHashAnnotation observedHashPending fmempty)))
      = (RequeueAfter RequeueInterval, w')
    \<and> annotation new LastObservedHashAnnotation = HashBytes ''y''"
proof -
  let ?ann = "fmupd LastAppliedHashAnnotation (HashBytes ''x'') (fmupd LastObservedHashAnnotation observedHashPending fmempty)"
  have a: "annotation (config_secret ''x'' ?ann) LastAppliedHashAnnotation = HashBytes ''x''"
    "annotation (config_secret ''x'' ?ann) LastObservedHashAnnotation = observedHashPending"
    by (simp_all add: annotation_defs)
  have "answers (cluster_ext ''y'') (live_request demo_client) (\<lambda>resp. string_result (Inr resp) = Inr ''y'')"
    by (rule cluster_live)
  from pending_baseline_adopted [OF demo_event(2) a new_bytes(3) this cluster_patches]
  show ?thesis by fastforce
qed

end
