(* ===== verification/Stale_Status.thy ===== *)
theory Stale_Status
  imports Recovery
begin

text \<open>
  A status that outlives its cause. When the Data Plane client cannot even be built during the drift
  check, the status written carries no stage in its name, and the check clears only statuses that
  name its own stage.
\<close>

section \<open>No client for the drift check\<close>

lemma client_failure_recorded:
  assumes "patches_succeed x"
  shows "\<exists>w' s' m t. run_state (client_failure x s err) w = (RequeueAfter (backoffForFailure (transientFailures (w_rec w'))), w')
    \<and> w_trace w' = w_trace w @ [KubePatch s (mutated (status_mutation (StatusValue (classify_err err)) m t no_extra) s) (Inr s')]
    \<and> transientFailures (w_rec w') = int_succ (transientFailures (w_rec w))"
proof -
  define wa where "wa = snd (run_state (count_class (classify_err err)) w)"
  have a: "w_trace wa = w_trace w" "w_rec wa = w_rec w"
    by (simp_all add: wa_def count_class_def)
  let ?f = "status_mutation (StatusValue (classify_err err)) (error_text err) (x_format_time x (w_now wa)) no_extra"
  obtain s' wb where p: "run_state (patchAnnotations x s ?f) wa = ((None, s'), wb)" "w_rec wb = w_rec wa"
    "w_trace wb = w_trace wa @ [KubePatch s (mutated ?f s) (Inr s')]"
    by (rule patch_succeeds [OF assms, of s ?f wa])
  let ?w' = "wb\<lparr>w_rec := (w_rec wb)\<lparr>transientFailures := int_succ (transientFailures (w_rec wb))\<rparr>\<rparr>"
  have "run_state (client_failure x s err) w = (RequeueAfter (backoffForFailure (transientFailures (w_rec ?w'))), ?w')"
    using p(1)
    by (simp add: client_failure_def fail_transient_def failWithStatus_def count_failure_def Let_def wa_def count_class_def)
  moreover have "w_trace ?w' = w_trace w @ [KubePatch s (mutated ?f s) (Inr s')]"
    "transientFailures (w_rec ?w') = int_succ (transientFailures (w_rec w))"
    using a p(2,3) by simp_all
  ultimately show ?thesis by blast
qed

lemma status_names_no_stage: "\<not> has_prefix (StatusValue k) ''DriftCheck''"
  by (cases k) (simp_all add: has_prefix_def)

lemma status_keeps_observed:
  "annotation (mutated (status_mutation v m t no_extra) s) LastObservedHashAnnotation = annotation s LastObservedHashAnnotation"
  by (simp add: annotation_map mutation_defs annotation_defs)

definition outage_reported :: "secret \<Rightarrow> secret \<Rightarrow> goerr \<Rightarrow> bool" where
  "outage_reported s new err \<longleftrightarrow>
     annotation new StatusAnnotation = StatusValue (classify_err err)
   \<and> annotation new LastAppliedHashAnnotation = annotation s LastAppliedHashAnnotation
   \<and> annotation new LastObservedHashAnnotation = annotation s LastObservedHashAnnotation"

lemma no_client_reported:
  assumes "config_event x cfg req s raw w" "annotation s LastAppliedHashAnnotation = HashBytes raw"
    "run_state (getOrCreateClient x cfg) (after_get x req s w) = (Inl err, w1)" "patches_succeed x"
  shows "\<exists>w' new s'. run_state (Reconcile x cfg req) w = (RequeueAfter (backoffForFailure (transientFailures (w_rec w'))), w')
    \<and> w_trace w' = w_trace w @ [KubeGet req (Inr s), KubePatch s new (Inr s')] \<and> outage_reported s new err"
proof -
  obtain w' s' m t where f: "run_state (client_failure x s err) w1 = (RequeueAfter (backoffForFailure (transientFailures (w_rec w'))), w')"
    "w_trace w' = w_trace w1 @ [KubePatch s (mutated (status_mutation (StatusValue (classify_err err)) m t no_extra) s) (Inr s')]"
    using client_failure_recorded [OF assms(4), of s err w1] by blast
  have "w_trace w1 = w_trace w @ [KubeGet req (Inr s)]"
    using getOrCreateClient_laws [OF assms(3)] by simp
  moreover have "run_state (Reconcile x cfg req) w = (RequeueAfter (backoffForFailure (transientFailures (w_rec w'))), w')"
    using assms(2,3) f(1) by (simp add: config_event_run [OF assms(1)] check_drift_def)
  ultimately show ?thesis
    using f(2) refused_annotations(4,6) status_keeps_observed
    by (intro exI [of _ w'] exI [of _ "mutated (status_mutation (StatusValue (classify_err err)) m t no_extra) s"] exI [of _ s'])
      (simp add: outage_reported_def)
qed

text \<open>C21: a drift check for which no client can be built reports the outage in the status and keeps both
  hashes. Afterwards, whenever a reconcile finds that Secret and the gateway serving the observed
  configuration, it writes nothing: the Secret goes on reporting an outage that is over.\<close>

theorem outage_status_stays:
  assumes "config_event x cfg req s raw w" "annotation s LastAppliedHashAnnotation = HashBytes raw"
    "annotation s LastObservedHashAnnotation = HashBytes stored"
    "run_state (getOrCreateClient x cfg) (after_get x req s w) = (Inl err, w1)" "patches_succeed x"
  shows "\<exists>w' new s'. run_state (Reconcile x cfg req) w = (RequeueAfter (backoffForFailure (transientFailures (w_rec w'))), w')
    \<and> w_trace w' = w_trace w @ [KubeGet req (Inr s), KubePatch s new (Inr s')]
    \<and> annotation new StatusAnnotation = StatusValue (classify_err err)
    \<and> (\<forall>w2 s2 c. config_event x cfg req s2 raw w2 \<longrightarrow> (\<forall>k. annotation s2 k = annotation new k) \<longrightarrow> hclient w2 = Some c
         \<longrightarrow> answers x (live_request c) (\<lambda>resp. string_result (Inr resp) = Inr stored)
         \<longrightarrow> (\<exists>w3 resp. run_state (Reconcile x cfg req) w2 = (RequeueAfter RequeueInterval, w3)
               \<and> w_trace w3 = w_trace w2 @ [KubeGet req (Inr s2), HttpCall (live_request c) (Inr resp)]))"
proof -
  from no_client_reported [OF assms(1,2,4,5)] obtain w' new s' where
    r: "run_state (Reconcile x cfg req) w = (RequeueAfter (backoffForFailure (transientFailures (w_rec w'))), w')"
      "w_trace w' = w_trace w @ [KubeGet req (Inr s), KubePatch s new (Inr s')]"
    and new: "outage_reported s new err" by blast
  have "\<exists>w3 resp. run_state (Reconcile x cfg req) w2 = (RequeueAfter RequeueInterval, w3)
      \<and> w_trace w3 = w_trace w2 @ [KubeGet req (Inr s2), HttpCall (live_request c) (Inr resp)]"
    if s2: "config_event x cfg req s2 raw w2" "\<forall>k. annotation s2 k = annotation new k" and c: "hclient w2 = Some c"
      "answers x (live_request c) (\<lambda>resp. string_result (Inr resp) = Inr stored)" for w2 s2 c
    using in_sync_reconcile [OF s2(1) _ _ _ c(1) answers_in_any [OF c(2)]] new s2(2) assms(2,3) status_names_no_stage
    unfolding outage_reported_def by metis
  with r new show ?thesis unfolding outage_reported_def by blast
qed

section \<open>Example\<close>

text \<open>A SPIRE agent whose socket does not answer.\<close>

definition agentless_ext :: "cluster ext" where
  "agentless_ext = (cluster_ext ''y'')\<lparr>x_spire_source := (\<lambda>p e. (Some (PlainError ''no agent''), e))\<rparr>"

definition spire_settings :: settings where
  "spire_settings = demo_settings\<lparr>SpireSocketPath := ''/run/agent.sock''\<rparr>"

lemma agentless_start:
  "config_event agentless_ext spire_settings config_key (config_secret raw ann) raw (demo_world raw ann)"
  "config_event agentless_ext spire_settings config_key (config_secret raw ann) raw (running_world raw ann)"
  "patches_succeed agentless_ext"
  using demo_event [of "''y''" raw ann] cluster_patches [of "''y''"]
  by (simp_all add: config_event_def agentless_ext_def spire_settings_def patches_succeed_def)

lemma agentless_client:
  assumes "hclient w = None"
  shows "\<exists>w1. run_state (getOrCreateClient agentless_ext spire_settings) w
    = (Inl (Wrap ''SPIRE transport: '' (Wrap ''create SPIRE x509 source: '' (PlainError ''no agent'') []) []), w1)"
  using assms
  by (simp add: getOrCreateClient_def TLSTransport_def spire_settings_def agentless_ext_def env_call_def)

theorem outage_status_stays_witness:
  "\<exists>d w' ann w3 resp. run_state (Reconcile agentless_ext spire_settings config_key)
      (demo_world ''x'' (fmupd LastAppliedHashAnnotation (HashBytes ''x'')
        (fmupd LastObservedHashAnnotation (HashBytes ''y'') fmempty))) = (RequeueAfter d, w')
    \<and> fmlookup ann StatusAnnotation = Some ''UnknownError''
    \<and> run_state (Reconcile agentless_ext spire_settings config_key) (running_world ''x'' ann) = (RequeueAfter RequeueInterval, w3)
    \<and> w_trace w3 = [KubeGet config_key (Inr (config_secret ''x'' ann)), HttpCall (live_request demo_client) (Inr resp)]"
proof -
  let ?ann = "fmupd LastAppliedHashAnnotation (HashBytes ''x'') (fmupd LastObservedHashAnnotation (HashBytes ''y'') fmempty)"
  let ?err = "Wrap ''SPIRE transport: '' (Wrap ''create SPIRE x509 source: '' (PlainError ''no agent'') []) []"
  have a: "annotation (config_secret ''x'' ?ann) LastAppliedHashAnnotation = HashBytes ''x''"
    "annotation (config_secret ''x'' ?ann) LastObservedHashAnnotation = HashBytes ''y''"
    by (simp_all add: annotation_defs)
  have cls: "StatusValue (classify_err ?err) = ''UnknownError''" by code_simp
  obtain w1 where e: "run_state (getOrCreateClient agentless_ext spire_settings)
      (after_get agentless_ext config_key (config_secret ''x'' ?ann) (demo_world ''x'' ?ann)) = (Inl ?err, w1)"
    using agentless_client [of "after_get agentless_ext config_key (config_secret ''x'' ?ann) (demo_world ''x'' ?ann)"]
    by (auto simp: initial_world_def initial_reconciler_def)
  have live: "answers agentless_ext (live_request demo_client) (\<lambda>resp. string_result (Inr resp) = Inr ''y'')"
    using cluster_live [of "''y''"] by (simp add: answers_def agentless_ext_def)
  obtain w' new where r: "run_state (Reconcile agentless_ext spire_settings config_key) (demo_world ''x'' ?ann)
      = (RequeueAfter (backoffForFailure (transientFailures (w_rec w'))), w')"
    "annotation new StatusAnnotation = ''UnknownError''"
    "\<And>w2 s2 c. config_event agentless_ext spire_settings config_key s2 ''x'' w2 \<Longrightarrow> \<forall>k. annotation s2 k = annotation new k
      \<Longrightarrow> hclient w2 = Some c \<Longrightarrow> answers agentless_ext (live_request c) (\<lambda>resp. string_result (Inr resp) = Inr ''y'')
      \<Longrightarrow> \<exists>w3 resp. run_state (Reconcile agentless_ext spire_settings config_key) w2 = (RequeueAfter RequeueInterval, w3)
        \<and> w_trace w3 = w_trace w2 @ [KubeGet config_key (Inr s2), HttpCall (live_request c) (Inr resp)]"
    using outage_status_stays [OF agentless_start(1) a e agentless_start(3)] unfolding cls by blast
  let ?new = "go_map (s_annotations new)"
  have "\<forall>k. annotation (config_secret ''x'' ?new) k = annotation new k"
    by (simp add: annotation_map [of new] go_get_def go_lookup_def config_secret_def)
  from r(3) [OF agentless_start(2) this new_bytes(3) live] obtain w3 resp where
    "run_state (Reconcile agentless_ext spire_settings config_key) (running_world ''x'' ?new) = (RequeueAfter RequeueInterval, w3)"
    "w_trace w3 = w_trace (running_world ''x'' ?new) @ [KubeGet config_key (Inr (config_secret ''x'' ?new)), HttpCall (live_request demo_client) (Inr resp)]"
    by blast
  moreover have "fmlookup ?new StatusAnnotation = Some ''UnknownError''"
    using r(2) by (simp add: annotation_map split: option.splits)
  moreover have "w_trace (running_world ''x'' ?new) = []" by (simp add: running_world_def initial_world_def)
  ultimately show ?thesis using r(1) by auto
qed

end
