(* ===== verification/Cert_Order.thy ===== *)
theory Cert_Order
  imports Verdicts Scenarios
begin

text \<open>
  Certificates come first: a configuration that names certificate files is validated only after every
  managed TLS Secret was read in the same reconcile and the gateway holds its bundle, because it
  acknowledged a write of it or reported a stored certificate that matches it.
\<close>

section \<open>What the gateway holds\<close>

definition stored :: "'e ext \<Rightarrow> client \<Rightarrow> string \<Rightarrow> bytes \<Rightarrow> effect \<Rightarrow> bool" where
  "stored x c name pem e =
    (case e of
       HttpCall rq out \<Rightarrow>
         (rq = cert_put c name pem \<or> (\<exists>b. rq = cert_post c b name pem)) \<and> (\<exists>resp. out = Inr resp \<and> success (rs_status resp))
       \<or> rq = cert_read c name \<and> (\<exists>serial remote. leafSerial x pem = Some (Inr serial)
           \<and> json_result x ssl_zero ssl_of_json (answer out) = Inr remote \<and> up_to_date remote serial pem True)
     | _ \<Rightarrow> False)"

definition cert_ready :: "'e ext \<Rightarrow> client \<Rightarrow> effect list \<Rightarrow> string \<Rightarrow> bool" where
  "cert_ready x c pre n \<longleftrightarrow> (\<exists>ns s pem. KubeGet (ns, n) (Inr s) \<in> set pre \<and> certPEMBundle s = Inr pem
     \<and> list_ex (stored x c (s_name s @ ''.pem'') pem) pre)"

definition certs_first :: "'e ext \<Rightarrow> settings \<Rightarrow> client option \<Rightarrow> effect list \<Rightarrow> effect \<Rightarrow> bool" where
  "certs_first x cfg k pre e =
    (case e of
       HttpCall rq out \<Rightarrow> (case k of None \<Rightarrow> False
         | Some c \<Rightarrow> is_validate c rq \<longrightarrow> list_all (cert_ready x c pre) (CertsSecretNames cfg))
     | _ \<Rightarrow> True)"

lemma cert_ready_mono: "cert_ready x c pre n \<Longrightarrow> set pre \<subseteq> set pre' \<Longrightarrow> cert_ready x c pre' n"
  unfolding cert_ready_def list_ex_iff by blast

interpretation first: evidence "certs_first x cfg" for x cfg
  by unfold_locales
    (auto simp: certs_first_def list_all_iff intro: cert_ready_mono split: effect.splits option.splits)

section \<open>Stages that validate nothing\<close>

interpretation unvalidated: config_policy x cfg "\<lambda>c rq. \<not> is_validate c rq" "\<lambda>_. True" "\<lambda>_. True" "\<lambda>_. False"
    "\<lambda>_. True" "\<lambda>_. True" "\<lambda>_. True" for x cfg
  by unfold_locales (auto simp: apply_request_kind storage_request_kind [OF live_storage] dest: storage_request_kind)

lemma unvalidated_first: "allowed k (\<lambda>c rq. \<not> is_validate c rq) (\<lambda>_. True) e \<Longrightarrow> certs_first x cfg k pre e"
  by (auto simp: allowed_def certs_first_def split: effect.splits option.splits)

lemma does_unvalidated:
  assumes "does (\<lambda>c rq. \<not> is_validate c rq) (\<lambda>_. True) w w'"
  shows "evident (certs_first x cfg) w w'"
proof -
  from assms obtain es where es: "w_trace w' = w_trace w @ es"
    "\<And>e. e \<in> set es \<Longrightarrow> allowed (hclient w') (\<lambda>c rq. \<not> is_validate c rq) (\<lambda>_. True) e"
    by (auto simp: does_def emits_def list_all_iff)
  have "traced (certs_first x cfg (hclient w')) [] es"
    by (rule first.traced_all) (rule unvalidated_first [OF es(2)])
  with assms es show ?thesis by (auto simp: does_def evident_def)
qed

lemma rel_unvalidated: "rel (does (\<lambda>c rq. \<not> is_validate c rq) (\<lambda>_. True)) m \<Longrightarrow> rel (evident (certs_first x cfg)) m"
  unfolding rel_def by (auto intro: does_unvalidated)

section \<open>Pushing one certificate\<close>

lemma run_create:
  assumes "run_state (createSSLCertificate x c name pem) w = (None, w')"
  shows "\<exists>boundary w1 r. w_trace w1 = w_trace w \<and> no_result r = None
    \<and> run_state (do_request x c ''POST'' storage_path (Some (multipart_body boundary name pem))
        (''multipart/form-data; boundary='' @ boundary)) w1 = (r, w')"
proof -
  obtain b e where b: "x_boundary x (w_env w) = (b, e)" by (metis surj_pair)
  obtain r w2 where r: "run_state (do_request x c ''POST'' storage_path (Some (multipart_body b name pem))
      (''multipart/form-data; boundary='' @ b)) (w\<lparr>w_env := e\<rparr>) = (r, w2)" by (metis surj_pair)
  have "no_result r = None" "w2 = w'" using assms r by (simp_all add: createSSLCertificate_def env_call_def b)
  with r show ?thesis by (intro exI [of _ b] exI [of _ "w\<lparr>w_env := e\<rparr>"] exI [of _ r]) simp
qed

lemma SyncSSL_stored:
  assumes "pem_shrinks x" "run_state (SyncSSLCertificate x c name pem prev) w = ((b, None), w')"
  shows "\<exists>es. w_trace w' = w_trace w @ es \<and> list_ex (stored x c name pem) es"
proof -
  obtain serial where serial: "leafSerial x pem = Some (Inr serial)"
    using assms(2) leafSerial_some [OF assms(1), of pem] by (auto simp: SyncSSLCertificate_def split: option.splits sum.splits)
  obtain rd w1 where rd: "run_state (waitForReady x c dataplaneReadyTimeout) w = (rd, w1)" by (metis surj_pair)
  from assms(2) serial rd have ready: "rd = None" by (auto simp: SyncSSLCertificate_def split: option.splits)
  have "calls (version_read c) w w1" using relD [OF waitForReady_calls [of c x dataplaneReadyTimeout], of w] rd by simp
  then obtain es1 where es1: "w_trace w1 = w_trace w @ es1" by (auto simp: calls_def emits_def)
  obtain r w2 where r: "run_state (do_request x c ''GET'' (cert_endpoint name) None ''application/json'') w1 = (r, w2)"
    by (metis surj_pair)
  have "emits (\<lambda>_. True) w1 w2"
    using relD [OF do_request_calls [of "\<lambda>_. True" c "''GET''" "cert_endpoint name" None "''application/json''" x], of w1] r
    by (simp add: calls_def emits_def)
  then obtain es2 where es2: "w_trace w2 = w_trace w1 @ es2" by (auto simp: emits_def)
  note run = assms(2) [unfolded SyncSSLCertificate_def Let_def, folded cert_endpoint_def]
  show ?thesis
  proof (cases "json_result x ssl_zero ssl_of_json r")
    case (Inl err)
    with run serial rd ready r have "run_state (createSSLCertificate x c name pem) w2 = (None, w')"
      by (auto simp: doRequest_def split: if_splits prod.splits)
    from run_create [OF this] obtain boundary w3 r' where p: "w_trace w3 = w_trace w2"
      "run_state (do_request x c ''POST'' storage_path (Some (multipart_body boundary name pem))
         (''multipart/form-data; boundary='' @ boundary)) w3 = (r', w')" "no_result r' = None" by blast
    from p(2) show ?thesis
    proof (cases rule: do_request_cases)
      case (sent out)
      with p(3) have "stored x c name pem (HttpCall (cert_post c boundary name pem) out)"
        by (auto simp: stored_def cert_post_def no_result_None)
      with sent(2) p(1) es1 es2 show ?thesis by (auto simp: cert_post_def)
    qed (use p(3) in \<open>simp add: no_result_def\<close>)
  next
    case (Inr remote)
    show ?thesis
    proof (cases "up_to_date remote serial pem prev")
      case True
      with run serial rd ready r Inr have w': "w' = w2" by (simp add: doRequest_def)
      from r show ?thesis
      proof (cases rule: do_request_cases)
        case (sent out)
        with Inr serial True have "stored x c name pem (HttpCall (cert_read c name) out)"
          by (auto simp: stored_def cert_read_def up_to_date_def)
        with sent(2) w' es1 show ?thesis by (auto simp: cert_read_def)
      qed (use Inr in \<open>simp add: json_result_def\<close>)
    next
      case False
      with run serial rd ready r Inr obtain r' where
        p: "run_state (do_request x c ''PUT'' (cert_endpoint name) (if pem \<noteq> [] then Some pem else None) ''text/plain'') w2 = (r', w')"
        "no_result r' = None"
        by (auto simp: doRequest_def doRequestPlain_def split: prod.splits)
      from p(1) show ?thesis
      proof (cases rule: do_request_cases)
        case (sent out)
        with p(2) have "stored x c name pem (HttpCall (cert_put c name pem) out)"
          by (auto simp: stored_def cert_put_def no_result_None)
        with sent(2) es1 es2 show ?thesis by (auto simp: cert_put_def)
      qed (use p(2) in \<open>simp add: no_result_def\<close>)
    qed
  qed
qed

section \<open>Pushing every certificate\<close>

lemma emits_any: "emits (\<lambda>_. True) w w' \<Longrightarrow> \<exists>es. w_trace w' = w_trace w @ es"
  by (auto simp: emits_def)

lemma patch_grows: "rel (emits (\<lambda>_. True)) (patchAnnotations x s f)"
  unfolding patchAnnotations_def by (intro emits.rel_control kube_patch_emits TrueI)

lemma bind_run: "run_state (State_Monad.bind m f) w = (r, w') \<Longrightarrow> run_state m w = (a, w1) \<Longrightarrow> run_state (f a) w1 = (r, w')"
  by simp

lemma bind_grows:
  assumes "run_state (State_Monad.bind m f) w = (r, w')" "run_state m w = (a, w1)" "rel (emits (\<lambda>_. True)) (f a)"
  shows "\<exists>es. w_trace w' = w_trace w1 @ es"
  using relD [OF assms(3), of w1] bind_run [OF assms(1,2)] by (auto dest: emits_any)

lemma push_stored:
  assumes "pem_shrinks x" "run_state (pushCertSecret x c s st) w = ((Returned (ch, None), st'), w')"
  shows "\<exists>pem es. certPEMBundle s = Inr pem \<and> w_trace w' = w_trace w @ es \<and> list_ex (stored x c (s_name s @ ''.pem'') pem) es"
proof -
  obtain pem where pem: "certPEMBundle s = Inr pem"
    using assms(2) by (auto simp: pushCertSecret_def split: sum.splits)
  define prev where "prev = (entry_hash (certSyncState st) (s_name s) = HashBytes pem \<or> cert_hash (w_rec w) (s_name s) = HashBytes pem)"
  obtain b e w1 where sync: "run_state (SyncSSLCertificate x c (s_name s @ ''.pem'') pem prev) w = ((b, e), w1)"
    by (metis surj_pair)
  have ok: "e = None"
    using assms(2) pem sync by (auto simp: pushCertSecret_def Let_def prev_def split: option.splits)
  from SyncSSL_stored [OF assms(1)] sync ok obtain es where
    es: "w_trace w1 = w_trace w @ es" "list_ex (stored x c (s_name s @ ''.pem'') pem) es" by blast
  note run = assms(2) [unfolded pushCertSecret_def pem sum.case Let_def]
  have "run_state (gets w_rec) w = (w_rec w, w)" by simp
  from bind_run [OF run this] have "\<exists>fs. w_trace w' = w_trace w1 @ fs"
    by (rule bind_grows [OF _ sync [unfolded prev_def]])
      (intro emits.rel_control patch_grows modify_rec_emits)
  with pem es show ?thesis by auto
qed

lemma ensure_stored:
  assumes "pem_shrinks x"
  shows "run_state (ensureCertSecretsSynced x namespace c names st) w = ((Returned None, st'), w') \<Longrightarrow>
    \<exists>es. w_trace w' = w_trace w @ es \<and> list_all (cert_ready x c es) names"
proof (induction names arbitrary: st w)
  case (Cons n names)
  obtain g w1 where g: "run_state (kube_get x (namespace, n)) w = (g, w1)" by (metis surj_pair)
  then have t1: "w_trace w1 = w_trace w @ [KubeGet (namespace, n) g]"
    by (auto simp: kube_get_def split: prod.splits)
  note run1 = bind_run [OF Cons.prems [unfolded ensureCertSecretsSynced.simps] g]
  obtain s where s: "g = Inr s" using run1 by (cases g) auto
  obtain o' st1 w2 where p: "run_state (pushCertSecret x c s (Some st)) w1 = ((o', st1), w2)" by (metis surj_pair)
  note run2 = bind_run [OF run1 [unfolded s sum.case] p]
  obtain ch where o': "o' = Returned (ch, None)"
  proof (cases o')
    case (Returned q)
    then show ?thesis using run2 that by (cases q; cases "snd q") (auto simp: Let_def)
  qed (use run2 in \<open>simp add: Let_def\<close>)
  from push_stored [OF assms p [unfolded o']] obtain pem es where
    es: "certPEMBundle s = Inr pem" "w_trace w2 = w_trace w1 @ es" "list_ex (stored x c (s_name s @ ''.pem'') pem) es" by blast
  have "\<exists>st2. run_state (ensureCertSecretsSynced x namespace c names st2) w2 = ((Returned None, st'), w')"
    using run2 o' by (auto simp: Let_def)
  then obtain fs where fs: "w_trace w' = w_trace w2 @ fs" "list_all (cert_ready x c fs) names"
    using Cons.IH by blast
  let ?es = "KubeGet (namespace, n) (Inr s) # es @ fs"
  have "cert_ready x c ?es n" using es unfolding cert_ready_def by fastforce
  moreover have "list_all (cert_ready x c ?es) names"
    using fs(2) by (auto simp: list_all_iff intro: cert_ready_mono)
  moreover have "w_trace w' = w_trace w @ ?es" using fs(1) es(2) t1 s by simp
  ultimately show ?case by auto
qed simp

section \<open>Before validation\<close>

lemma prepare_ready:
  assumes "pem_shrinks x" "run_state (prepare x cfg s h) w = (Inr (c, st), w')"
  shows "\<exists>es. w_trace w' = w_trace w @ es \<and> list_all (cert_ready x c es) (CertsSecretNames cfg)"
proof -
  obtain w1 w2 where w1: "run_state (note_desired h) w = ((), w1)"
    and w2: "run_state (getOrCreateClient x cfg) w1 = (Inr c, w2)"
    and rest: "CertsSecretNames cfg = [] \<and> w' = w2 \<or> (\<exists>st' w3. run_state (count_attempt ''cert-sync'') w2 = ((), w3) \<and>
      run_state (ensureCertSecretsSynced x (s_namespace s) c (CertsSecretNames cfg) s) w3 = ((Returned None, st'), w'))"
    using assms(2)
    by (auto simp: prepare_def note_desired_def count_attempt_def
        split: if_splits prod.splits sum.splits outcome.splits option.splits)
  from w1 getOrCreateClient_laws [OF w2] have t: "w_trace w2 = w_trace w" by (auto simp: note_desired_def)
  from rest show ?thesis
  proof
    assume "CertsSecretNames cfg = [] \<and> w' = w2"
    with t show ?thesis by simp
  next
    assume "\<exists>st' w3. run_state (count_attempt ''cert-sync'') w2 = ((), w3) \<and>
      run_state (ensureCertSecretsSynced x (s_namespace s) c (CertsSecretNames cfg) s) w3 = ((Returned None, st'), w')"
    then obtain st' w3 where c: "run_state (count_attempt ''cert-sync'') w2 = ((), w3)"
      and e: "run_state (ensureCertSecretsSynced x (s_namespace s) c (CertsSecretNames cfg) s) w3 = ((Returned None, st'), w')"
      by blast
    from c t have "w_trace w3 = w_trace w" by (auto simp: count_attempt_def)
    with ensure_stored [OF assms(1) e] show ?thesis by simp
  qed
qed

text \<open>Once every certificate is ready, whatever the operator does is in order.\<close>

lemma after_ready:
  assumes "pem_shrinks x" "run_state (prepare x cfg s h) w = (Inr (c, st), w1)" "hclient w1 = Some c"
    "does_with c (\<lambda>_ _. True) (\<lambda>_. True) w1 w'"
  shows "evident (certs_first x cfg) w w'"
proof -
  have prep: "evident (certs_first x cfg) w w1"
    using relD [OF rel_unvalidated [OF unvalidated.prepare_does [OF TrueI, of x cfg s h]], where w = w] assms(2) by simp
  from prepare_ready [OF assms(1,2)] obtain pre where
    pre: "w_trace w1 = w_trace w @ pre" "list_all (cert_ready x c pre) (CertsSecretNames cfg)" by blast
  with prep assms(3) have front: "traced (certs_first x cfg (Some c)) [] pre" by (auto simp: evident_def)
  from assms(3,4) obtain es where es: "w_trace w' = w_trace w1 @ es" "hclient w' = Some c"
    by (auto simp: does_with_def does_def emits_def)
  have "traced (certs_first x cfg (Some c)) pre es"
    by (rule first.traced_all) (use pre(2) in \<open>auto simp: certs_first_def split: effect.splits\<close>)
  with front have "traced (certs_first x cfg (Some c)) [] (pre @ es)" by (simp add: first.traced_append)
  with pre(1) es prep assms(3) show ?thesis by (auto simp: evident_def)
qed

interpretation any: config_policy x cfg "\<lambda>_ _. True" "\<lambda>_. True" "\<lambda>_. True" "\<lambda>_. True" "\<lambda>_. True" "\<lambda>_. True"
    "\<lambda>_. True" for x cfg
  by unfold_locales simp_all

lemma push_config_certs:
  assumes "pem_shrinks x"
  shows "rel (evident (certs_first x cfg)) (push_config x cfg s h raw)"
  unfolding rel_def
proof
  fix w :: "'a world"
  obtain r w' where run: "run_state (push_config x cfg s h raw) w = (r, w')" by (metis surj_pair)
  have step: "does_with c (\<lambda>_ _. True) (\<lambda>_. True) w1 w2" if "run_state m w1 = (q, w2)"
    "rel (does_with c (\<lambda>_ _. True) (\<lambda>_. True)) m" for m :: "('a, result option) go" and c w1 q w2
    using relD [OF that(2), of w1] that(1) by simp
  have "evident (certs_first x cfg) w w'"
    using run
  proof (cases rule: push_config_cases)
    case early
    then show ?thesis
      using relD [OF rel_unvalidated [OF unvalidated.prepare_does [OF TrueI, of x cfg s h]], where w = w] by simp
  next
    case (invalid c st w1)
    show ?thesis
      by (rule after_ready [OF assms invalid(1) prepare_client [OF invalid(1)]])
        (rule step [OF invalid(2) any.validate_phase_does]; simp)
  next
    case (refused c st w1 w2)
    show ?thesis
      by (rule after_ready [OF assms refused(1) prepare_client [OF refused(1)]],
          rule does_with.R_trans [OF step [OF refused(2) any.validate_phase_does] step [OF refused(3) any.apply_phase_does]])
        simp_all
  next
    case (applied c st w1 w2 w3)
    have "does_with c (\<lambda>_ _. True) (\<lambda>_. True) w3 w'"
      using relD [OF any.record_phase_does [OF TrueI TrueI, of c x cfg st h], where w = w3] applied(4) by simp
    with does_with.R_trans [OF step [OF applied(2) any.validate_phase_does] step [OF applied(3) any.apply_phase_does]]
    have "does_with c (\<lambda>_ _. True) (\<lambda>_. True) w1 w'" by (blast intro: does_with.R_trans)
    then show ?thesis by (rule after_ready [OF assms applied(1) prepare_client [OF applied(1)]])
  qed
  with run show "evident (certs_first x cfg) w (snd (run_state (push_config x cfg s h raw) w))" by simp
qed

lemma Reconcile_certs:
  assumes "pem_shrinks x"
  shows "rel (evident (certs_first x cfg)) (Reconcile x cfg req)"
proof -
  have "rel (evident (certs_first x cfg)) (reconcile_config x cfg s)" for s
    unfolding reconcile_config_def Let_def
    by (intro first.rel_control push_config_certs assms rel_unvalidated [OF unvalidated.check_drift_does]
        rel_unvalidated [OF unvalidated.failWithStatus_does]) simp_all
  then show ?thesis
    unfolding Reconcile_def Let_def
    by (intro first.rel_control rel_unvalidated [OF unvalidated.get_does] rel_unvalidated [OF unvalidated.reconcile_cert_does])
qed

text \<open>C3: certificates come before the configuration: a reconcile asks the gateway to validate (and so
  to apply) a configuration only after it has read every managed TLS Secret and, for each, the gateway
  acknowledged a write of exactly its bundle or reported the bundle's serial and size as stored.\<close>

theorem certificates_before_config:
  assumes "pem_shrinks x"
  shows "\<exists>es. w_trace (snd (run_state (Reconcile x cfg req) w)) = w_trace w @ es
    \<and> traced (certs_first x cfg (hclient (snd (run_state (Reconcile x cfg req) w)))) [] es"
  using relD [OF Reconcile_certs [OF assms, of cfg req], of w] by (auto simp: evident_def)

theorem certificates_before_config_witness:
  "\<exists>es. w_trace (snd (run_state (Reconcile (cluster_ext ''x'') cert_settings config_key) (demo_world ''x'' fmempty)))
        = w_trace (demo_world ''x'' fmempty) @ es
    \<and> traced (certs_first (cluster_ext ''x'') cert_settings
        (hclient (snd (run_state (Reconcile (cluster_ext ''x'') cert_settings config_key) (demo_world ''x'' fmempty))))) [] es"
  by (rule certificates_before_config [OF cluster_pem])

end
