(* ===== verification/Metrics_Laws.thy ===== *)
theory Metrics_Laws
  imports Operator
begin

text \<open>
  \<^verbatim>\<open>internal/metrics/metrics.go\<close> beyond the values themselves: the collectors and their
  registration, and what the counters mean over every history. Counters never decrease, and the
  books balance: every validation that was tried ends in exactly one counted outcome, and applies
  are tried only after a validation.
\<close>

section \<open>Collectors\<close>

datatype collector_kind = CounterVec | GaugeVec | SingleGauge

record collector =
  co_kind :: collector_kind
  co_name :: string
  co_labels :: "string list"

definition collectors :: "collector list" where
  "collectors = [
     \<lparr>co_kind = CounterVec, co_name = ''haproxy_operator_reconcile_attempts_total'', co_labels = [''phase'']\<rparr>,
     \<lparr>co_kind = CounterVec, co_name = ''haproxy_operator_reconcile_results_total'', co_labels = [''class'']\<rparr>,
     \<lparr>co_kind = CounterVec, co_name = ''haproxy_operator_transient_errors_total'', co_labels = [''class'']\<rparr>,
     \<lparr>co_kind = GaugeVec, co_name = ''haproxy_operator_config_hash'', co_labels = [''hash'', ''state'']\<rparr>,
     \<lparr>co_kind = SingleGauge, co_name = ''haproxy_operator_last_successful_apply_timestamp_seconds'', co_labels = []\<rparr>,
     \<lparr>co_kind = GaugeVec, co_name = ''haproxy_operator_dataplane_server_cert_expiry_timestamp_seconds'', co_labels = [''gateway'']\<rparr>,
     \<lparr>co_kind = SingleGauge, co_name = ''haproxy_operator_dataplane_client_cert_expiry_timestamp_seconds'', co_labels = []\<rparr>,
     \<lparr>co_kind = CounterVec, co_name = ''haproxy_operator_config_drift_total'', co_labels = [''secret'']\<rparr>,
     \<lparr>co_kind = GaugeVec, co_name = ''haproxy_operator_config_in_sync'', co_labels = [''secret'']\<rparr>,
     \<lparr>co_kind = SingleGauge, co_name = ''haproxy_operator_dataplane_insecure'', co_labels = []\<rparr>]"

text \<open>\<^verbatim>\<open>MustRegister\<close>: each collector in turn; a refusal panics.\<close>

primrec must_register :: "(collector \<Rightarrow> 'r \<Rightarrow> goerr option \<times> 'r) \<Rightarrow> collector list \<Rightarrow> 'r \<Rightarrow> 'r outcome" where
  "must_register reg [] r = Returned r"
| "must_register reg (c # cs) r =
    (case reg c r of (Some err, r') \<Rightarrow> Panicked | (None, r') \<Rightarrow> must_register reg cs r')"

definition metrics_init :: "(collector \<Rightarrow> 'r \<Rightarrow> goerr option \<times> 'r) \<Rightarrow> 'r \<Rightarrow> 'r outcome" where
  "metrics_init reg r = must_register reg collectors r"

text \<open>A registry that refuses only names it has, and remembers the names it took.\<close>

lemma must_register_distinct:
  assumes "\<And>c r. co_name c \<notin> names r \<Longrightarrow> fst (reg c r) = None \<and> names (snd (reg c r)) = insert (co_name c) (names r)"
  shows "distinct (map co_name cs) \<Longrightarrow> set (map co_name cs) \<inter> names r = {} \<Longrightarrow> \<exists>r'. must_register reg cs r = Returned r'"
proof (induction cs arbitrary: r)
  case (Cons c cs)
  obtain e r1 where r1: "reg c r = (e, r1)" by (metis surj_pair)
  with assms [of c r] Cons.prems have "e = None" "names r1 = insert (co_name c) (names r)" by auto
  with Cons.IH [of r1] Cons.prems r1 show ?case by auto
qed simp

lemma metrics_init_returns:
  assumes "\<And>c r. co_name c \<notin> names r \<Longrightarrow> fst (reg c r) = None \<and> names (snd (reg c r)) = insert (co_name c) (names r)"
    "names r = {}"
  shows "\<exists>r'. metrics_init reg r = Returned r'"
  unfolding metrics_init_def
  by (rule must_register_distinct [where names = names, OF assms(1)]) (simp_all add: collectors_def assms(2))

section \<open>Counters only grow\<close>

definition counters_grow :: "'e world \<Rightarrow> 'e world \<Rightarrow> bool" where
  "counters_grow w w' \<longleftrightarrow> (\<forall>l.
     ReconcileAttempts (w_metrics w) l \<le> ReconcileAttempts (w_metrics w') l
   \<and> ReconcileResults (w_metrics w) l \<le> ReconcileResults (w_metrics w') l
   \<and> TransientErrors (w_metrics w) l \<le> TransientErrors (w_metrics w') l
   \<and> ConfigDrift (w_metrics w) l \<le> ConfigDrift (w_metrics w') l)"

lemmas count_defs = count_failure_def count_class_def count_result_def count_attempt_def set_in_sync_def
  count_drift_def note_desired_def inc_def

text \<open>Metrics that agree but for the server's expiry have the same counters.\<close>

lemma same_counters:
  assumes "m'\<lparr>ServerCertExpiry := v\<rparr> = m"
  shows "ReconcileAttempts m' = ReconcileAttempts m \<and> ReconcileResults m' = ReconcileResults m
    \<and> TransientErrors m' = TransientErrors m \<and> ConfigDrift m' = ConfigDrift m"
  using assms by auto

lemma client_metrics: "w_metrics (snd (run_state (getOrCreateClient x cfg) w)) = w_metrics w"
proof -
  obtain r w' where "run_state (getOrCreateClient x cfg) w = (r, w')" by (metis surj_pair)
  with getOrCreateClient_laws [OF this] show ?thesis by simp
qed

interpretation grow: world_rel counters_grow
  by unfold_locales (auto simp: counters_grow_def intro: order_trans)

interpretation grow: reconcile_frame counters_grow x cfg for x cfg
proof unfold_locales
  fix w w' :: "'a world" and c s st
  show "w_rec w' = w_rec w \<Longrightarrow> (w_metrics w')\<lparr>ServerCertExpiry := ServerCertExpiry (w_metrics w)\<rparr> = w_metrics w
      \<Longrightarrow> \<exists>es. w_trace w' = w_trace w @ es \<Longrightarrow> counters_grow w w'"
    by (drule same_counters) (simp add: counters_grow_def)
  show "rel counters_grow (getOrCreateClient x cfg)"
    by (simp add: rel_def counters_grow_def client_metrics)
  have "calls P w w' \<Longrightarrow> counters_grow w w'" for P and w w' :: "'a world"
    by (auto simp: calls_def counters_grow_def dest!: same_counters)
  then show "rel counters_grow (pushCertSecret x c s st)"
    unfolding pushCertSecret_def patchAnnotations_def Let_def
    by (intro grow.rel_control rel_mono [OF SyncSSLCertificate_calls])
      (auto simp: rel_def counters_grow_def kube_patch_def split: prod.split)
qed (auto simp: rel_def counters_grow_def count_defs exportConfigHash_run)

theorem counters_never_decrease:
  assumes "operator_step x mg cfg w w'"
  shows "counters_grow w w'"
  using assms
proof (cases rule: operator_step.cases)
  case (reconciled req r)
  then show ?thesis using relD [OF grow.Reconcile_frame [of x cfg req], of w] by simp
next
  case (probed e)
  then show ?thesis using relD [OF grow.DataplaneReady_frame [of x cfg], of w] by simp
next
  case (closed e)
  then show ?thesis
    by (auto simp: spireSourceCloser_Start_def Close_def env_call_def counters_grow_def split: if_splits prod.splits)
qed (simp add: counters_grow_def)

section \<open>The books balance\<close>

text \<open>Every label an outcome can be counted under.\<close>

definition outcomes :: "string list" where
  "outcomes = ''applied'' # map StatusValue [ClassNone, ClassConfigRejected, ClassAuth, ClassTLS, ClassConnection,
     ClassConflict, ClassRateLimited, ClassServer, ClassUnknown]"

definition outcome_total :: "metrics \<Rightarrow> nat" where
  "outcome_total m = sum_list (map (ReconcileResults m) outcomes)"

definition balanced :: "metrics \<Rightarrow> bool" where
  "balanced m \<longleftrightarrow> outcome_total m = ReconcileAttempts m ''validate''
     \<and> ReconcileResults m ''applied'' \<le> ReconcileAttempts m ''apply''
     \<and> ReconcileAttempts m ''apply'' \<le> ReconcileAttempts m ''validate''"

text \<open>What a stage adds to the accounts: validations tried, applies tried, outcomes, applied ones.\<close>

definition adds :: "nat \<Rightarrow> nat \<Rightarrow> nat \<Rightarrow> nat \<Rightarrow> 'e world \<Rightarrow> 'e world \<Rightarrow> bool" where
  "adds v a r d w w' \<longleftrightarrow>
     ReconcileAttempts (w_metrics w') ''validate'' = ReconcileAttempts (w_metrics w) ''validate'' + v
   \<and> ReconcileAttempts (w_metrics w') ''apply'' = ReconcileAttempts (w_metrics w) ''apply'' + a
   \<and> outcome_total (w_metrics w') = outcome_total (w_metrics w) + r
   \<and> ReconcileResults (w_metrics w') ''applied'' = ReconcileResults (w_metrics w) ''applied'' + d"

lemma adds_trans: "adds v a r d w1 w2 \<Longrightarrow> adds v' a' r' d' w2 w3 \<Longrightarrow> adds (v + v') (a + a') (r + r') (d + d') w1 w3"
  by (simp add: adds_def)

lemma adds_metrics: "w_metrics w' = w_metrics w \<Longrightarrow> adds 0 0 0 0 w w'"
  by (simp add: adds_def)

lemma adds_calls: "calls P w w' \<Longrightarrow> adds 0 0 0 0 w w'"
  by (auto simp: calls_def adds_def outcome_total_def dest!: same_counters)

lemma sum_list_inc:
  "distinct ks \<Longrightarrow> l \<in> set ks \<Longrightarrow> sum_list (map (f(l := Suc (f l))) ks) = Suc (sum_list (map f ks))"
proof (induction ks)
  case (Cons k ks)
  show ?case
  proof (cases "k = l")
    case True
    with Cons.prems have "map (f(l := Suc (f l))) ks = map f ks" by auto
    with True show ?thesis by (simp only: list.map sum_list.Cons fun_upd_same add_Suc)
  qed (use Cons in auto)
qed simp

lemma outcomes_distinct: "distinct outcomes"
  by (simp add: outcomes_def)

lemmas outcome_inc = sum_list_inc [OF outcomes_distinct]

lemma adds_attempts:
  "adds 1 0 0 0 w (snd (run_state (count_attempt ''validate'') w))"
  "adds 0 1 0 0 w (snd (run_state (count_attempt ''apply'') w))"
  by (simp_all add: adds_def count_attempt_def inc_def outcome_total_def)

lemma adds_results:
  "adds 0 0 1 1 w (snd (run_state (count_result ''applied'') w))"
  "adds 0 0 1 0 w (snd (run_state (count_result (StatusValue k)) w))"
proof -
  have "''applied'' \<in> set outcomes" "StatusValue k \<in> set outcomes" "StatusValue k \<noteq> ''applied''"
    by (cases k; simp add: outcomes_def)+
  then show "adds 0 0 1 1 w (snd (run_state (count_result ''applied'') w))"
    "adds 0 0 1 0 w (snd (run_state (count_result (StatusValue k)) w))"
    by (simp_all add: adds_def count_result_def inc_def outcome_total_def outcome_inc)
qed

interpretation still_open: world_rel "adds 0 0 0 0"
  by unfold_locales (simp_all add: adds_def)

interpretation still_open: stage_frame "adds 0 0 0 0" x cfg for x cfg
proof unfold_locales
  fix w w' :: "'a world" and c s st
  show "w_rec w' = w_rec w \<Longrightarrow> (w_metrics w')\<lparr>ServerCertExpiry := ServerCertExpiry (w_metrics w)\<rparr> = w_metrics w
      \<Longrightarrow> \<exists>es. w_trace w' = w_trace w @ es \<Longrightarrow> adds 0 0 0 0 w w'"
    by (drule same_counters) (simp add: adds_def outcome_total_def)
  show "rel (adds 0 0 0 0) (getOrCreateClient x cfg)"
    by (simp add: rel_def adds_metrics client_metrics)
  show "rel (adds 0 0 0 0) (pushCertSecret x c s st)"
    unfolding pushCertSecret_def patchAnnotations_def Let_def
    by (intro still_open.rel_control rel_mono [OF SyncSSLCertificate_calls adds_calls])
      (auto simp: rel_def adds_def kube_patch_def split: prod.split)
qed (auto simp: rel_def adds_def count_defs exportConfigHash_run outcome_total_def)

text \<open>Stages whose outcomes depend on what they return: a validation or an apply that stops the reconcile
  has been counted, one that lets it go on has not.\<close>

definition accounts :: "nat \<Rightarrow> nat \<Rightarrow> ('a \<Rightarrow> nat) \<Rightarrow> nat \<Rightarrow> ('e, 'a) go \<Rightarrow> bool" where
  "accounts v a r d m \<longleftrightarrow> (\<forall>w. adds v a (r (fst (run_state m w))) d w (snd (run_state m w)))"

lemma accounts_bind:
  assumes "rel (adds v a k d) m" "\<And>y. accounts v' a' r d' (f y)"
  shows "accounts (v + v') (a + a') (\<lambda>q. k + r q) (d + d') (State_Monad.bind m f)"
  unfolding accounts_def
proof
  fix w :: "'a world"
  obtain y w1 where m: "run_state m w = (y, w1)" by (metis surj_pair)
  have "adds v a k d w w1" using relD [OF assms(1), of w] m by simp
  moreover have "adds v' a' (r (fst (run_state (f y) w1))) d' w1 (snd (run_state (f y) w1))"
    using assms(2) by (simp add: accounts_def)
  ultimately show "adds (v + v') (a + a') (k + r (fst (run_state (State_Monad.bind m f) w))) (d + d') w
      (snd (run_state (State_Monad.bind m f) w))"
    using m by (simp add: adds_trans)
qed

lemma accounts_stop:
  "rel (adds v a k d) m \<Longrightarrow> accounts v a (\<lambda>q. if q = None then 0 else k) d (do { r \<leftarrow> m; ret (Some r) })"
  by (simp add: accounts_def rel_def case_prod_beta)

lemma accounts_go_on: "accounts 0 0 (\<lambda>q. if q = None then 0 else k) 0 (ret None)"
  by (simp add: accounts_def adds_def)

lemma adds_bind:
  assumes "rel (adds v a r d) m" "\<And>y. rel (adds v' a' r' d') (f y)"
  shows "rel (adds (v + v') (a + a') (r + r') (d + d')) (State_Monad.bind m f)"
  using accounts_bind [OF assms(1), of v' a' "\<lambda>_. r'" d' f] assms(2) by (simp add: accounts_def rel_def)

lemma counted_once:
  "rel (adds 1 0 0 0) (count_attempt ''validate'')" "rel (adds 0 1 0 0) (count_attempt ''apply'')"
  "rel (adds 0 0 1 1) (count_result ''applied'')" "rel (adds 0 0 1 0) (count_result (StatusValue k))"
  unfolding rel_def by (simp_all only: adds_attempts adds_results simp_thms)

lemma verdict_accounts:
  "accounts 0 0 (\<lambda>q. if q = None then 0 else 1) 0 (case v of None \<Rightarrow> ret None
      | Some err \<Rightarrow> do {
          count_result (StatusValue (classify_err err));
          r \<leftarrow> (if classify_err err = ClassConfigRejected then reject_config x cfg s (HashBytes raw) err
                else transient_failure x cfg s stage err);
          ret (Some r)
        })"
proof (cases v)
  case (Some err)
  let ?f = "if classify_err err = ClassConfigRejected then reject_config x cfg s (HashBytes raw) err
    else transient_failure x cfg s stage err"
  have "rel (adds 0 0 0 0) ?f" by (intro still_open.rel_control still_open.failures_frame)
  then have "rel (adds (0 + 0) (0 + 0) (1 + 0) (0 + 0)) (do { count_result (StatusValue (classify_err err)); ?f })"
    by (rule adds_bind [OF counted_once(4)])
  then have "accounts 0 0 (\<lambda>q. if q = None then 0 else 1) 0
      (do { r \<leftarrow> do { count_result (StatusValue (classify_err err)); ?f }; ret (Some r) })"
    by (intro accounts_stop) simp
  moreover have "do { r \<leftarrow> do { count_result (StatusValue (classify_err err)); ?f }; ret (Some r) }
      = do { count_result (StatusValue (classify_err err)); r \<leftarrow> ?f; ret (Some r) }"
    by (rule State_Monad.bind_assoc)
  ultimately show ?thesis using Some by (simp only: option.case)
qed (simp add: accounts_go_on)

lemma validate_phase_accounts:
  "accounts 1 0 (\<lambda>q. if q = None then 0 else 1) 0 (validate_phase x cfg c s (HashBytes raw) b)"
proof -
  have "accounts (1 + (0 + 0)) (0 + (0 + 0)) (\<lambda>q. 0 + (0 + (if q = None then 0 else 1))) (0 + (0 + 0))
      (validate_phase x cfg c s (HashBytes raw) b)"
    unfolding validate_phase_def
    by (intro accounts_bind counted_once still_open.gateway_frame verdict_accounts)
  then show ?thesis by simp
qed

lemma apply_phase_accounts:
  "accounts 0 1 (\<lambda>q. if q = None then 0 else 1) 0 (apply_phase x cfg c s (HashBytes raw) b)"
proof -
  have "accounts (0 + (0 + (0 + 0))) (0 + (1 + (0 + 0))) (\<lambda>q. 0 + (0 + (0 + (if q = None then 0 else 1)))) (0 + (0 + (0 + 0)))
      (apply_phase x cfg c s (HashBytes raw) b)"
    unfolding apply_phase_def
    by (intro accounts_bind counted_once still_open.gateway_frame still_open.primitive_frame verdict_accounts)
  then show ?thesis by simp
qed

lemma record_phase_adds: "rel (adds 0 0 1 1) (record_phase x cfg c s (HashBytes raw))"
proof -
  have stamp: "rel (adds 0 0 0 0) (modify_metrics (\<lambda>m. m\<lparr>LastSuccessfulApply := t\<rparr>))" for t
    by (simp add: rel_def adds_def outcome_total_def)
  have "rel (adds (0 + (0 + 0)) (0 + (0 + 0)) (0 + (1 + 0)) (0 + (1 + 0))) (record_phase x cfg c s (HashBytes raw))"
    unfolding record_phase_def
    by (rule adds_bind [OF still_open.primitive_frame(3) adds_bind [OF counted_once(3)]])
      (intro still_open.rel_control still_open.export stamp still_open.counted still_open.success
        still_open.gateway_frame still_open.patch_frame)
  then show ?thesis by simp
qed

section \<open>Whole histories\<close>

text \<open>A stretch of work that leaves no validation open.\<close>

definition closes :: "'e world \<Rightarrow> 'e world \<Rightarrow> bool" where
  "closes w w' \<longleftrightarrow> (\<exists>v a d. adds v a v d w w' \<and> d \<le> a \<and> a \<le> v)"

lemma closesI: "adds v a v d w w' \<Longrightarrow> d \<le> a \<Longrightarrow> a \<le> v \<Longrightarrow> closes w w'"
  by (auto simp: closes_def)

lemma adds_closes: "adds 0 0 0 0 w w' \<Longrightarrow> closes w w'"
  by (erule closesI) simp_all

interpretation closes: world_rel closes
proof
  fix w1 w2 w3 :: "'a world"
  show "closes w1 w1" by (rule adds_closes) (rule still_open.R_refl)
  assume "closes w1 w2" "closes w2 w3"
  then obtain v a d v' a' d' where "adds v a v d w1 w2" "d \<le> a" "a \<le> v" "adds v' a' v' d' w2 w3" "d' \<le> a'" "a' \<le> v'"
    unfolding closes_def by blast
  then show "closes w1 w3"
    by (intro closesI [of "v + v'" "a + a'" "d + d'"] adds_trans add_mono)
qed

lemma accountsD: "accounts v a r d m \<Longrightarrow> run_state m w = (q, w') \<Longrightarrow> adds v a (r q) d w w'"
  unfolding accounts_def by (metis fst_conv snd_conv)

lemma push_config_closes: "rel closes (push_config x cfg s (HashBytes raw) b)"
  unfolding rel_def
proof
  fix w :: "'a world"
  obtain r w' where run: "run_state (push_config x cfg s (HashBytes raw) b) w = (r, w')" by (metis surj_pair)
  have prep: "closes w w1" if "run_state (prepare x cfg s (HashBytes raw)) w = (q, w1)" for q w1
    using relD [OF still_open.prepare_frame [of x cfg s raw], of w] that by (simp add: adds_closes)
  have "closes w w'"
    using run
  proof (cases rule: push_config_cases)
    case early
    then show ?thesis by (rule prep)
  next
    case (invalid c st w1)
    from accountsD [OF validate_phase_accounts invalid(2)] have "closes w1 w'" by (auto intro: closesI)
    with prep [OF invalid(1)] show ?thesis by (rule closes.R_trans)
  next
    case (refused c st w1 w2)
    from adds_trans [OF accountsD [OF validate_phase_accounts refused(2)] accountsD [OF apply_phase_accounts refused(3)]]
    have "closes w1 w'" by (auto intro: closesI)
    with prep [OF refused(1)] show ?thesis by (rule closes.R_trans)
  next
    case (applied c st w1 w2 w3)
    have "adds 0 0 1 1 w3 w'" using relD [OF record_phase_adds [of x cfg c st raw], of w3] applied(4) by simp
    from adds_trans [OF adds_trans [OF accountsD [OF validate_phase_accounts applied(2)]
      accountsD [OF apply_phase_accounts applied(3)]] this] have "closes w1 w'" by (auto intro: closesI)
    with prep [OF applied(1)] show ?thesis by (rule closes.R_trans)
  qed
  with run show "closes w (snd (run_state (push_config x cfg s (HashBytes raw) b) w))" by simp
qed

lemma rel_closes: "rel (adds 0 0 0 0) m \<Longrightarrow> rel closes m"
  by (erule rel_mono) (rule adds_closes)

lemma Reconcile_closes: "rel closes (Reconcile x cfg req)"
  unfolding Reconcile_def reconcile_config_def Let_def
  by (intro closes.rel_control push_config_closes rel_closes [OF still_open.primitive_frame(1)]
      rel_closes [OF still_open.reconcile_cert_frame] rel_closes [OF still_open.check_drift_frame]
      rel_closes [OF still_open.patch_frame(2)])

lemma closes_balanced: "closes w w' \<Longrightarrow> balanced (w_metrics w) \<Longrightarrow> balanced (w_metrics w')"
  by (auto simp: closes_def adds_def balanced_def)

lemma closes_kept: "rel closes m \<Longrightarrow> rel (keeps (\<lambda>w. balanced (w_metrics w))) m"
  by (auto simp: rel_def keeps_def intro: closes_balanced)

text \<open>C26: at every point of every history the counters agree with each other: the outcomes counted are as
  many as the validations tried, no more applies succeeded than were tried, and no more were tried
  than validations.\<close>

theorem history_counters_balance:
  assumes "reachable x mg cfg w"
  shows "outcome_total (w_metrics w) = ReconcileAttempts (w_metrics w) ''validate''
    \<and> ReconcileResults (w_metrics w) ''applied'' \<le> ReconcileAttempts (w_metrics w) ''apply''
    \<and> ReconcileAttempts (w_metrics w) ''apply'' \<le> ReconcileAttempts (w_metrics w) ''validate''"
proof -
  have "balanced (w_metrics w)"
  proof (rule reachable_kept [OF assms])
    show "balanced (w_metrics (initial_world e))" for e :: 'a
      by (simp add: balanced_def outcome_total_def initial_world_def initial_metrics_def outcomes_def)
  qed (simp_all add: closes_kept Reconcile_closes rel_closes [OF still_open.DataplaneReady_frame])
  then show ?thesis by (simp add: balanced_def)
qed

theorem history_counters_balance_witness:
  "outcome_total (w_metrics after_probe) = ReconcileAttempts (w_metrics after_probe) ''validate''
    \<and> ReconcileResults (w_metrics after_probe) ''applied'' \<le> ReconcileAttempts (w_metrics after_probe) ''apply''
    \<and> ReconcileAttempts (w_metrics after_probe) ''apply'' \<le> ReconcileAttempts (w_metrics after_probe) ''validate''"
  by (rule history_counters_balance [OF after_probe_reachable])

end
