(* ===== verification/Cert_Memory.thy ===== *)
theory Cert_Memory
  imports Cert_Order Metrics_Laws
begin

text \<open>
  What the operator remembers about certificates. A remembered hash lets a later push be skipped, so
  it must stand for something the gateway has: over every history, each one is the hash of a bundle
  the gateway acknowledged, or reported as stored, under that Secret's name. And a push is skipped
  only with such a record, in memory or in the annotation, and the gateway's agreement.
\<close>

section \<open>Remembered bundles\<close>

definition cert_backed :: "'e ext \<Rightarrow> effect list \<Rightarrow> string \<Rightarrow> string \<Rightarrow> bool" where
  "cert_backed x es name h \<longleftrightarrow> (\<exists>c pem. HashBytes pem = h \<and> list_ex (stored x c (name @ ''.pem'') pem) es)"

definition memory_backed :: "'e ext \<Rightarrow> 'e world \<Rightarrow> bool" where
  "memory_backed x w \<longleftrightarrow>
     (\<forall>name h. fmlookup (certSyncHashes (w_rec w)) name = Some h \<longrightarrow> cert_backed x (w_trace w) name h)"

definition backs :: "'e ext \<Rightarrow> 'e world \<Rightarrow> 'e world \<Rightarrow> bool" where
  "backs x w w' \<longleftrightarrow> (\<exists>es. w_trace w' = w_trace w @ es) \<and> (memory_backed x w \<longrightarrow> memory_backed x w')"

lemma cert_backed_more: "cert_backed x es name h \<Longrightarrow> cert_backed x (es @ fs) name h"
  by (auto simp: cert_backed_def)

lemma backs_same:
  "certSyncHashes (w_rec w') = certSyncHashes (w_rec w) \<Longrightarrow> \<exists>es. w_trace w' = w_trace w @ es \<Longrightarrow> backs x w w'"
  by (auto simp: backs_def memory_backed_def cert_backed_more)

interpretation backs: world_rel "backs x" for x
  by unfold_locales (auto simp: backs_def)

lemma backs_calls: "calls P w w' \<Longrightarrow> backs x w w'"
  by (rule backs_same) (auto simp: calls_def emits_def)

lemma patch_backs: "rel (backs x) (patchAnnotations x s f)"
  by (auto simp: rel_def patchAnnotations_def kube_patch_def intro!: backs_same split: prod.split)

lemma remember_backs:
  assumes "list_ex (stored x c (name @ ''.pem'') pem) es" "w_trace w1 = w_trace w @ es"
    "w_rec w1 = w_rec w"
  shows "backs x w (w1\<lparr>w_rec := (w_rec w1)\<lparr>certSyncHashes := fmupd name (HashBytes pem) (certSyncHashes (w_rec w1))\<rparr>\<rparr>)"
proof -
  have "cert_backed x (w_trace w @ es) name (HashBytes pem)"
    using assms(1) by (auto simp: cert_backed_def)
  then show ?thesis
    using assms(2,3) by (auto simp: backs_def memory_backed_def cert_backed_more)
qed

lemma bind_rel_after:
  "run_state (State_Monad.bind m f) w = (r, w') \<Longrightarrow> run_state m w = (a, w1) \<Longrightarrow> rel R (f a) \<Longrightarrow> R w1 w'"
  using relD [of R "f a" w1] by simp

lemma run_emits: "run_state m w = (r, w') \<Longrightarrow> rel (emits P) m \<Longrightarrow> emits P w w'"
  using relD [of "emits P" m w] by simp

lemma push_backs:
  assumes "pem_shrinks x"
  shows "rel (backs x) (pushCertSecret x c s st)"
  unfolding rel_def
proof
  fix w :: "'a world"
  obtain r w' where run: "run_state (pushCertSecret x c s st) w = (r, w')" by (metis surj_pair)
  have "backs x w w'"
  proof (cases "certPEMBundle s")
    case (Inl err)
    with run show ?thesis by (simp add: pushCertSecret_def backs.R_refl)
  next
    case (Inr pem)
    define prev where "prev = (entry_hash (certSyncState st) (s_name s) = HashBytes pem
      \<or> cert_hash (w_rec w) (s_name s) = HashBytes pem)"
    obtain b e w1 where sync: "run_state (SyncSSLCertificate x c (s_name s @ ''.pem'') pem prev) w = ((b, e), w1)"
      by (metis surj_pair)
    have sync_calls: "calls (sends (storage_request c)) w w1"
      using relD [OF SyncSSLCertificate_calls [of c x "s_name s @ ''.pem''" pem prev], of w] sync by simp
    have quiet: "backs x w w1" "w_rec w1 = w_rec w"
      by (rule backs_calls [OF sync_calls]) (use sync_calls in \<open>simp add: calls_def\<close>)
    have "run_state (gets w_rec) w = (w_rec w, w)" by simp
    note tail = bind_run [OF bind_run [OF run [unfolded pushCertSecret_def Inr sum.case Let_def] this]
        sync [unfolded prev_def], unfolded prod.case]
    show ?thesis
    proof (cases e)
      case (Some err)
      with tail quiet show ?thesis by simp
    next
      case None
      from SyncSSL_stored [OF assms sync [unfolded None]] obtain es where
        es: "w_trace w1 = w_trace w @ es" "list_ex (stored x c (s_name s @ ''.pem'') pem) es" by blast
      let ?w2 = "w1\<lparr>w_rec := (w_rec w1)\<lparr>certSyncHashes := fmupd (s_name s) (HashBytes pem) (certSyncHashes (w_rec w1))\<rparr>\<rparr>"
      have "backs x w ?w2" by (rule remember_backs [OF es(2,1) quiet(2)])
      moreover have "backs x ?w2 w'"
        by (rule bind_rel_after [OF tail [unfolded None option.case], of "()"])
          (simp, intro backs.rel_control patch_backs)
      ultimately show ?thesis by (rule backs.R_trans)
    qed
  qed
  with run show "backs x w (snd (run_state (pushCertSecret x c s st) w))" by simp
qed

lemma client_backs: "rel (backs x) (getOrCreateClient x cfg)"
proof -
  have "certSyncHashes (w_rec w') = certSyncHashes (w_rec w)" if "run_state (getOrCreateClient x cfg) w = (r, w')" for w w' r
    using that
    by (auto simp: getOrCreateClient_def TLSTransport_def env_call_def dest!: NewClient_keeps
        split: option.splits sum.splits if_splits prod.splits)
  then have "backs x w w'" if "run_state (getOrCreateClient x cfg) w = (r, w')" for w w' r
    using that getOrCreateClient_laws [OF that] by (intro backs_same) auto
  then show ?thesis unfolding rel_def by (metis prod.collapse)
qed

lemma memory_frame:
  assumes "pem_shrinks x"
  shows "reconcile_frame (backs x) x cfg"
proof unfold_locales
  fix w w' :: "'a world" and c s st
  show "rel (backs x) (pushCertSecret x c s st)" by (rule push_backs [OF assms])
  show "rel (backs x) (getOrCreateClient x cfg)" by (rule client_backs)
qed (auto simp: rel_def count_defs exportConfigHash_run intro!: backs_same)

section \<open>Over every history\<close>

lemma backs_kept: "rel (backs x) m \<Longrightarrow> rel (keeps (memory_backed x)) m"
  by (auto simp: rel_def keeps_def backs_def)

text \<open>C20: at every point of every history, a certificate hash the operator remembers under a Secret's name is
  the hash of a bundle that the gateway, earlier in this process, either acknowledged under that
  name or reported as stored with the bundle's serial.\<close>

theorem history_certs_backed:
  assumes "pem_shrinks x" "reachable x mg cfg w" "fmlookup (certSyncHashes (w_rec w)) name = Some h"
  shows "\<exists>c pem. HashBytes pem = h \<and> list_ex (stored x c (name @ ''.pem'') pem) (w_trace w)"
proof -
  note frame = memory_frame [OF assms(1), of cfg]
  have "memory_backed x w"
  proof (rule reachable_kept [OF assms(2)])
    show "memory_backed x (initial_world e)" for e
      by (simp add: memory_backed_def initial_world_def initial_reconciler_def)
    show "rel (keeps (memory_backed x)) (Reconcile x cfg req)" for req
      by (rule backs_kept) (rule reconcile_frame.Reconcile_frame [OF frame])
    show "rel (keeps (memory_backed x)) (DataplaneReady x cfg)"
      by (rule backs_kept) (rule stage_frame.DataplaneReady_frame [OF reconcile_frame.axioms(1) [OF frame]])
  qed (simp add: memory_backed_def)
  with assms(3) show ?thesis by (simp add: memory_backed_def cert_backed_def)
qed

section \<open>A push that is skipped\<close>

text \<open>The effects of writing the record: patches at most.\<close>

definition is_patch :: "effect \<Rightarrow> bool" where
  "is_patch e = (case e of KubePatch orig new r \<Rightarrow> True | _ \<Rightarrow> False)"

lemma patch_only_patches: "rel (emits is_patch) (patchAnnotations x s f)"
  unfolding patchAnnotations_def by (intro emits.rel_control kube_patch_emits) (simp add: is_patch_def)

text \<open>C19: a managed certificate is left as it is only when the hash of this very bundle is recorded for the
  Secret, in the annotation or in memory, and the gateway, asked in this push for the Secret's
  storage name, reports the bundle's leaf serial and no size or the bundle's size. Nothing is uploaded
  then: version reads, the one read of the certificate, and the write of the record.\<close>

theorem cert_push_skipped:
  assumes "pem_shrinks x" "run_state (pushCertSecret x c s st) w = ((Returned (False, None), st'), w')"
  shows "\<exists>pem serial out remote es fs. certPEMBundle s = Inr pem \<and> leafSerial x pem = Some (Inr serial)
    \<and> (entry_hash (certSyncState st) (s_name s) = HashBytes pem \<or> cert_hash (w_rec w) (s_name s) = HashBytes pem)
    \<and> w_trace w' = w_trace w @ es @ HttpCall (cert_read c (s_name s @ ''.pem'')) out # fs
    \<and> list_all (version_read c) es \<and> list_all is_patch fs
    \<and> json_result x ssl_zero ssl_of_json (answer out) = Inr remote
    \<and> Serial remote = serial \<and> Serial remote \<noteq> [] \<and> (Size remote = 0 \<or> Size remote = int (length pem))"
proof -
  obtain pem where pem: "certPEMBundle s = Inr pem"
    using assms(2) by (auto simp: pushCertSecret_def split: sum.splits)
  define prev where "prev = (entry_hash (certSyncState st) (s_name s) = HashBytes pem \<or> cert_hash (w_rec w) (s_name s) = HashBytes pem)"
  obtain b e w1 where sync: "run_state (SyncSSLCertificate x c (s_name s @ ''.pem'') pem prev) w = ((b, e), w1)"
    by (metis surj_pair)
  have ok: "e = None" "b = False"
    using assms(2) pem sync by (auto simp: pushCertSecret_def Let_def prev_def split: option.splits if_splits outcome.splits prod.splits)
  from SyncSSL_skip [OF _ assms(1)] sync ok obtain serial out remote es where
    skip: "leafSerial x pem = Some (Inr serial)" "w_trace w1 = w_trace w @ es @ [HttpCall (cert_read c (s_name s @ ''.pem'')) out]"
    "list_all (version_read c) es" "json_result x ssl_zero ssl_of_json (answer out) = Inr remote" "up_to_date remote serial pem prev"
    by blast
  note run = assms(2) [unfolded pushCertSecret_def pem sum.case Let_def]
  have "run_state (gets w_rec) w = (w_rec w, w)" by simp
  from bind_run [OF bind_run [OF run this] sync [unfolded prev_def], unfolded prod.case ok option.case]
  have "emits is_patch w1 w'"
    by (rule run_emits) (intro emits.rel_control patch_only_patches modify_rec_emits)
  then obtain fs where "w_trace w' = w_trace w1 @ fs" "list_all is_patch fs" by (auto simp: emits_def)
  with pem skip show ?thesis by (fastforce simp: up_to_date_def prev_def)
qed

section \<open>Example\<close>

text \<open>A process that has answered a probe and then handles an event of a managed TLS Secret; its config
  Secret has no configuration yet.\<close>

definition empty_config :: secret where
  "empty_config = (config_secret [] fmempty)\<lparr>s_data := None\<rparr>"

definition cert_world :: "cluster world" where
  "cert_world = initial_world \<lparr>cl_config = empty_config, cl_tls = tls_secret, cl_stored = False, cl_running = ''old''\<rparr>"

definition probed_world :: "cluster world" where
  "probed_world = snd (run_state (DataplaneReady (cluster_ext ''x'') cert_settings) cert_world)"

definition pushed_world :: "cluster world" where
  "pushed_world = snd (run_state (Reconcile (cluster_ext ''x'') cert_settings (''ns'', ''tls'')) probed_world)"

lemma pushed_reachable: "reachable (cluster_ext ''x'') plain_manager cert_settings pushed_world"
  unfolding pushed_world_def probed_world_def cert_world_def
  by (rule stepped [OF stepped [OF started probed [OF prod.collapse [symmetric]]] reconciled [OF prod.collapse [symmetric]]])

lemma probed_world_state: "hclient probed_world = Some demo_client" "w_env probed_world = w_env cert_world"
proof -
  have "SpireSocketPath cert_settings = []" "APIConfig cert_settings = demo_config"
    "CACertPath demo_config = []" "ClientCertPath demo_config = []" "ClientKeyPath demo_config = []" "\<not> Insecure demo_config"
    by (simp_all add: cert_settings_def demo_settings_def demo_config_def)
  moreover have "hclient cert_world = None" by (simp add: cert_world_def initial_world_def initial_reconciler_def)
  ultimately have c: "run_state (getOrCreateClient (cluster_ext ''x'') cert_settings) cert_world =
      (Inr demo_client, cert_world\<lparr>w_rec := (w_rec cert_world)\<lparr>haproxyClient := Some demo_client\<rparr>\<rparr>)"
    by (simp add: getOrCreateClient_def NewClient_def Let_def demo_client_def)
  let ?w = "cert_world\<lparr>w_rec := (w_rec cert_world)\<lparr>haproxyClient := Some demo_client\<rparr>\<rparr>"
  have "still ?w (sent_to ''x'' (version_request demo_client) ?w)" by (rule still_version)
  then show "hclient probed_world = Some demo_client" "w_env probed_world = w_env cert_world"
    by (simp_all add: probed_world_def DataplaneReady_def c Ping_def version_run still_def)
qed

lemma pushed_memory: "fmlookup (certSyncHashes (w_rec pushed_world)) ''tls'' = Some (HashBytes tls_pem)"
proof -
  have env: "w_env probed_world = \<lparr>cl_config = empty_config, cl_tls = tls_secret, cl_stored = False, cl_running = ''old''\<rparr>"
    by (simp add: probed_world_state cert_world_def initial_world_def)
  have key: "key_of empty_config = config_key" by (simp add: empty_config_def config_secret_def key_of_def config_key_def)
  obtain w0 where g: "run_state (kube_get (cluster_ext ''x'') (''ns'', ''tls'')) probed_world = (Inr tls_secret, w0)" "still probed_world w0"
    using tls_get [of probed_world "''x''"] env key by auto
  have "annotation empty_config k = []" for k by (simp add: empty_config_def config_secret_def go_get_def)
  moreover have "decode_all [] = None" by code_simp
  ultimately have "certSyncState (Some empty_config) = Some fmempty" "\<not> has_prefix (annotation empty_config StatusAnnotation) ''CertSync''"
    by (simp_all add: certSyncState_def has_prefix_def)
  then obtain s w1 where ce: "run_state (reconcile_cert (cluster_ext ''x'') cert_settings (''ns'', ''tls'') tls_secret) w0 = (Inr s, w1)"
    "cert_hash (w_rec w1) ''tls'' = HashBytes tls_pem" "s = forget_rejection (mutated (record_cert_sync (sync_text demo_time)) empty_config)"
    using cert_event_run [of w0 empty_config "''x''"] env key g(2) probed_world_state(1) by (auto simp: still_def)
  have "w_rec (snd (run_state (reconcile_config (cluster_ext ''x'') cert_settings s) w1)) = w_rec w1"
    by (simp add: ce(3) reconcile_config_def shouldReconcile_def forget_rejection_def mutated_def empty_config_def
        config_secret_def failWithStatus_def patchAnnotations_def kube_patch_def go_lookup_def split: prod.split)
  then have "w_rec pushed_world = w_rec w1"
    by (simp add: pushed_world_def Reconcile_def g(1) ce(1))
  with ce(2) show ?thesis using sha.hash_nonempty [of tls_pem] by (auto simp: cert_hash_def split: option.splits)
qed

theorem history_certs_backed_witness:
  "\<exists>c pem. HashBytes pem = HashBytes tls_pem \<and> list_ex (stored (cluster_ext ''x'') c (''tls'' @ ''.pem'') pem) (w_trace pushed_world)"
  by (rule history_certs_backed [OF cluster_pem pushed_reachable pushed_memory])

text \<open>The same bundle once more, after the gateway has it and the operator remembers it.\<close>

definition remembering_world :: "cluster world" where
  "remembering_world = (demo_world ''x'' fmempty)\<lparr>w_env := (demo_cluster ''x'' fmempty)\<lparr>cl_stored := True\<rparr>,
     w_rec := initial_reconciler\<lparr>certSyncHashes := fmupd ''tls'' (HashBytes tls_pem) fmempty\<rparr>\<rparr>"

lemma push_remembered:
  "\<exists>w'. run_state (pushCertSecret (cluster_ext ''x'') demo_client tls_secret None) remembering_world
    = ((Returned (False, None), None), w')"
proof -
  have h: "cert_hash (w_rec remembering_world) ''tls'' = HashBytes tls_pem"
    by (simp add: remembering_world_def cert_hash_def)
  obtain w1 where "run_state (SyncSSLCertificate (cluster_ext ''x'') demo_client ''tls.pem'' tls_pem True) remembering_world = ((False, None), w1)"
    using sync_again [of remembering_world "''x''"] by (auto simp: remembering_world_def)
  moreover have "s_name tls_secret = ''tls''" by (simp add: tls_secret_def)
  ultimately show ?thesis
    using h by (simp add: pushCertSecret_def tls_bundle Let_def)
qed

theorem cert_push_skipped_witness:
  "\<exists>w' es out fs. run_state (pushCertSecret (cluster_ext ''x'') demo_client tls_secret None) remembering_world
      = ((Returned (False, None), None), w')
    \<and> w_trace w' = es @ HttpCall (cert_read demo_client ''tls.pem'') out # fs \<and> list_all is_patch fs"
proof -
  obtain w' where w': "run_state (pushCertSecret (cluster_ext ''x'') demo_client tls_secret None) remembering_world
      = ((Returned (False, None), None), w')" using push_remembered by blast
  from cert_push_skipped [OF cluster_pem this] have "\<exists>es out fs.
      w_trace w' = w_trace remembering_world @ es @ HttpCall (cert_read demo_client (s_name tls_secret @ ''.pem'')) out # fs \<and> list_all is_patch fs"
    by blast
  with w' show ?thesis by (fastforce simp: tls_secret_def remembering_world_def initial_world_def)
qed

end
