(* ===== verification/Settling.thy ===== *)
theory Settling
  imports Cluster Recovery
begin

text \<open>
  Where everything working ends: the operator settles. After the reconcile that applies a new
  configuration, whatever sequence of further reconciles, readiness probes and outside changes
  follows, nothing is written any more as long as the outside changes leave the Secret and the
  configuration the gateway runs alone. (A gateway whose configuration changes is the matter of
  \<^verbatim>\<open>drift_remediated\<close>.) The API server and the gateway are described by two views of the
  environment: the Secret as it is stored, and the configuration that runs.
\<close>

section \<open>The stored Secret\<close>

text \<open>What an accepted annotation patch stores: the annotations of the patch, the rest untouched.\<close>

definition stored_as :: "secret \<Rightarrow> secret \<Rightarrow> bool" where
  "stored_as s' new \<longleftrightarrow> key_of s' = key_of new \<and> s_data s' = s_data new
     \<and> (\<forall>k. annotation s' k = annotation new k)"

text \<open>The API server answers reads of the key with the stored Secret, and a patch of its annotations that
  was computed from the stored Secret is accepted; no other traffic changes it.\<close>

definition object_store :: "'e ext \<Rightarrow> object_key \<Rightarrow> ('e \<Rightarrow> secret) \<Rightarrow> bool" where
  "object_store x req v \<longleftrightarrow> silent x v
     \<and> (\<forall>e. key_of (v e) = req \<longrightarrow> fst (x_get x req e) = Inr (v e) \<and> v (snd (x_get x req e)) = v e)
     \<and> (\<forall>e ann. let new = (v e)\<lparr>s_annotations := ann\<rparr> in
          case x_patch x (v e) new e of (Inr s', e') \<Rightarrow> v e' = s' \<and> stored_as s' new | (Inl err, e') \<Rightarrow> False)"

lemma store_get:
  assumes "object_store x req v" "key_of (v e) = req"
  shows "fst (x_get x req e) = Inr (v e)" "v (snd (x_get x req e)) = v e"
  using assms by (auto simp: object_store_def)

lemma store_silent: "object_store x req v \<Longrightarrow> silent x v"
  by (simp add: object_store_def)

lemma store_patch:
  assumes "object_store x req v" "x_patch x (v e) (mutated f (v e)) e = (Inr s', e')"
  shows "v e' = s' \<and> stored_as s' (mutated f (v e))"
proof -
  have "mutated f (v e) = (v e)\<lparr>s_annotations := s_annotations (mutated f (v e))\<rparr>"
    by (simp add: mutated_def)
  moreover have "let new = (v e)\<lparr>s_annotations := ann\<rparr> in
      case x_patch x (v e) new e of (Inr s', e') \<Rightarrow> v e' = s' \<and> stored_as s' new | (Inl err, e') \<Rightarrow> False" for ann
    using assms(1) unfolding object_store_def by blast
  ultimately have "case x_patch x (v e) (mutated f (v e)) e of
      (Inr s', e') \<Rightarrow> v e' = s' \<and> stored_as s' (mutated f (v e)) | (Inl err, e') \<Rightarrow> False"
    by (metis (no_types))
  with assms(2) show ?thesis by simp
qed

section \<open>Calm histories\<close>

text \<open>What may follow: reconciles of the Secret, readiness probes, and outside changes that leave the
  Secret and the gateway's configuration alone.\<close>

inductive calm_step ::
  "'e ext \<Rightarrow> settings \<Rightarrow> object_key \<Rightarrow> ('e \<Rightarrow> secret) \<Rightarrow> ('e \<Rightarrow> string) \<Rightarrow> 'e world \<Rightarrow> 'e world \<Rightarrow> bool"
  for x cfg req v g where
  requeued: "run_state (Reconcile x cfg req) w = (r, w') \<Longrightarrow> calm_step x cfg req v g w w'"
| readyz: "run_state (DataplaneReady x cfg) w = (err, w') \<Longrightarrow> calm_step x cfg req v g w w'"
| elsewhere: "v e = v (w_env w) \<Longrightarrow> g e = g (w_env w) \<Longrightarrow> w_now w \<le> t
    \<Longrightarrow> calm_step x cfg req v g w (w\<lparr>w_env := e, w_now := t\<rparr>)"

text \<open>The state that is kept: the gateway runs what it made of the bytes, the stored Secret records that,
  and the client is built.\<close>

definition in_sync ::
  "settings \<Rightarrow> object_key \<Rightarrow> ('e \<Rightarrow> secret) \<Rightarrow> ('e \<Rightarrow> string) \<Rightarrow> client \<Rightarrow> string \<Rightarrow> string \<Rightarrow> 'e world \<Rightarrow> bool" where
  "in_sync cfg req v g c raw stored w \<longleftrightarrow>
     recorded_applied (v (w_env w)) (HashBytes raw) (HashBytes stored) \<and> g (w_env w) = stored \<and> hclient w = Some c
   \<and> key_of (v (w_env w)) = req \<and> go_lookup (s_data (v (w_env w))) (SecretKey cfg) = Some raw"

text \<open>Reads of the Secret, of the live configuration and of the version.\<close>

definition only_reads :: "object_key \<Rightarrow> client \<Rightarrow> effect \<Rightarrow> bool" where
  "only_reads req c e =
    (case e of
       KubeGet k r \<Rightarrow> k = req
     | HttpCall rq out \<Rightarrow> rq = live_request c \<or> rq = version_request c
     | _ \<Rightarrow> False)"

lemma in_sync_event:
  assumes "object_store x req v" "in_sync cfg req v g c raw stored w"
    "snd req \<notin> set (CertsSecretNames cfg)" "SecretName cfg = [] \<or> SecretName cfg = snd req"
  shows "config_event x cfg req (v (w_env w)) raw w"
  using assms by (auto simp: config_event_def in_sync_def store_get key_of_def)

lemma in_sync_requeued:
  assumes "object_store x req v" "in_sync cfg req v g c raw stored w" "serves x c raw stored g"
    "snd req \<notin> set (CertsSecretNames cfg)" "SecretName cfg = [] \<or> SecretName cfg = snd req"
  shows "\<exists>w'. run_state (Reconcile x cfg req) w = (RequeueAfter RequeueInterval, w')
    \<and> in_sync cfg req v g c raw stored w' \<and> emits (only_reads req c) w w'"
proof -
  let ?s = "v (w_env w)" and ?e = "snd (x_get x req (w_env w))"
  have a: "annotation ?s LastAppliedHashAnnotation = HashBytes raw"
    "annotation ?s LastObservedHashAnnotation = HashBytes stored" "hclient w = Some c"
    "\<not> has_prefix (annotation ?s StatusAnnotation) ''DriftCheck''"
    using assms(2) by (simp_all add: in_sync_def recorded_applied_def has_prefix_def)
  have e: "g ?e = stored" "v ?e = ?s"
    using servesD(7) [OF assms(3)] store_get(2) [OF assms(1), of "w_env w"] assms(2) by (simp_all add: in_sync_def)
  have "answers_in x ?e (live_request c) (\<lambda>resp. string_result (Inr resp) = Inr stored)"
    using servesD(2) [OF assms(3), of ?e] e(1) by simp
  from in_sync_reconcile [OF in_sync_event [OF assms(1,2,4,5)] a(1,2,4,3) this]
  obtain w' resp where w': "run_state (Reconcile x cfg req) w = (RequeueAfter RequeueInterval, w')"
    "w_trace w' = w_trace w @ [KubeGet req (Inr ?s), HttpCall (live_request c) (Inr resp)]"
    "hclient w' = Some c" "w_env w' = sent_env x (live_request c) ?e"
    by blast
  have "g (w_env w') = stored" using w'(4) servesD(6) [OF assms(3)] e(1) by simp
  moreover have "v (w_env w') = ?s"
    using w'(4) store_silent [OF assms(1)] e(2) by (simp add: silent_def)
  ultimately show ?thesis using w' assms(2) by (simp add: in_sync_def emits_def only_reads_def)
qed

lemma in_sync_readyz:
  assumes "object_store x req v" "in_sync cfg req v g c raw stored w" "serves x c raw stored g"
  shows "in_sync cfg req v g c raw stored (snd (run_state (DataplaneReady x cfg) w))
    \<and> emits (only_reads req c) w (snd (run_state (DataplaneReady x cfg) w))"
proof -
  let ?w' = "snd (run_state (Ping x c) w)"
  have "run_state (getOrCreateClient x cfg) w = (Inr c, w)"
    using assms(2) by (simp add: getOrCreateClient_def in_sync_def)
  then have r: "snd (run_state (DataplaneReady x cfg) w) = ?w'"
    by (simp add: DataplaneReady_def case_prod_beta)
  obtain n w1 where "run_state (getConfigVersion x c) w = (Inr n, w1)" "idles x c g w w1"
    by (rule version_answered [OF servesD(1) [OF assms(3)] serves_quiet [OF assms(3)]])
  then have i: "idles x c g w ?w'" by (simp add: Ping_def)
  have "rel (calls (version_read c)) (Ping x c)"
    unfolding Ping_def by (intro calls.rel_control getConfigVersion_calls)
  then have "emits (version_read c) w ?w'" by (blast intro: calls_emits relD)
  then have "emits (only_reads req c) w ?w'"
    by (rule emits_mono) (auto simp: only_reads_def sends_def split: effect.splits)
  moreover from i store_silent [OF assms(1)] have "v (w_env ?w') = v (w_env w)" "g (w_env ?w') = g (w_env w)"
    "hclient ?w' = hclient w"
    unfolding idles_def by blast+
  ultimately show ?thesis using r assms(2) by (simp add: in_sync_def)
qed

lemma calm_in_sync:
  assumes "object_store x req v" "serves x c raw stored g"
    "snd req \<notin> set (CertsSecretNames cfg)" "SecretName cfg = [] \<or> SecretName cfg = snd req"
    "(calm_step x cfg req v g)\<^sup>*\<^sup>* w w'" "in_sync cfg req v g c raw stored w"
  shows "in_sync cfg req v g c raw stored w' \<and> emits (only_reads req c) w w'"
  using assms(5,6)
proof (induction rule: rtranclp_induct)
  case base
  then show ?case by (simp add: emits_refl)
next
  case (step w1 w2)
  then have i: "in_sync cfg req v g c raw stored w1" "emits (only_reads req c) w w1" by simp_all
  have "in_sync cfg req v g c raw stored w2 \<and> emits (only_reads req c) w1 w2"
    using step.hyps(2)
  proof (cases rule: calm_step.cases)
    case (requeued r)
    with in_sync_requeued [OF assms(1) i(1) assms(2-4)] show ?thesis by auto
  next
    case (readyz err)
    with in_sync_readyz [OF assms(1) i(1) assms(2)] show ?thesis by simp
  next
    case (elsewhere e t)
    with i(1) show ?thesis by (simp add: in_sync_def emits_def)
  qed
  with i(2) show ?case by (blast intro: emits_trans)
qed

text \<open>C4: the operator settles. New bytes on a Secret without managed certificates; the gateway accepts them
  and from the apply on runs what it makes of them, and the API server stores what is patched. Then the
  reconcile has the bytes validated and applied and leaves a Secret that records what runs. After it,
  in every history of reconciles, probes and outside changes that leave the Secret and the gateway's
  configuration alone, the operator only reads, the gateway goes on running the new configuration,
  the Secret goes on saying so, and every further reconcile schedules the regular interval.\<close>

theorem config_settles:
  assumes "object_store x req v" "serves x c raw stored g" "raw \<noteq> []" "CertsSecretNames cfg = []"
    "SecretName cfg = [] \<or> SecretName cfg = snd req" "hclient w = Some c"
    "key_of (v (w_env w)) = req" "go_lookup (s_data (v (w_env w))) (SecretKey cfg) = Some raw"
    "HashBytes raw \<noteq> annotation (v (w_env w)) LastAppliedHashAnnotation"
    "HashBytes raw \<noteq> annotation (v (w_env w)) LastFailedHashAnnotation" "patches_succeed x"
    "run_state (Reconcile x cfg req) w = (r, w1)" "(calm_step x cfg req v g)\<^sup>*\<^sup>* w1 w2"
  shows "(\<exists>es new s'. w_trace w1 = w_trace w @ KubeGet req (Inr (v (w_env w))) # es @ [KubePatch (v (w_env w)) new (Inr s')]
      \<and> pushes c raw stored es)
    \<and> recorded_applied (v (w_env w2)) (HashBytes raw) (HashBytes stored) \<and> g (w_env w2) = stored
    \<and> emits (only_reads req c) w1 w2
    \<and> fst (run_state (Reconcile x cfg req) w2) = RequeueAfter RequeueInterval"
proof -
  let ?s = "v (w_env w)" and ?h = "HashBytes raw"
  let ?w0 = "after_get x req ?s w"
  have ev: "config_event x cfg req ?s raw w"
    using assms(4,5,7,8) store_get(1) [OF assms(1,7)] by (auto simp: config_event_def key_of_def)
  have c0: "hclient ?w0 = Some c" using assms(6) by simp
  from push_config_applied [OF c0 assms(10,3,4,2,11)]
  obtain w1' es s' new e where p': "run_state (push_config x cfg ?s ?h raw) ?w0 = (RequeueAfter RequeueInterval, w1')"
    "w_trace w1' = w_trace ?w0 @ es @ [KubePatch ?s new (Inr s')]" "pushes c raw stored es"
    "\<exists>t. new = mutated (record_applied ?h (HashBytes stored) t) ?s" "hclient w1' = Some c" "g (w_env w1') = stored"
    "x_patch x ?s new e = (Inr s', w_env w1')" "\<forall>v. silent x v \<longrightarrow> v e = v (w_env ?w0)"
    by metis
  have "w1' = w1" using p'(1) assms(9,12) by (auto simp: config_event_run [OF ev])
  note p = p' [unfolded this]
  obtain t where t: "new = mutated (record_applied ?h (HashBytes stored) t) ?s" using p(4) by blast
  have "v e = v (w_env ?w0)" using p(8) store_silent [OF assms(1)] by blast
  then have e: "v e = ?s" using store_get(2) [OF assms(1,7)] by (simp add: after_get_def)
  have "x_patch x (v e) (mutated (record_applied ?h (HashBytes stored) t) (v e)) e = (Inr s', w_env w1)"
    using p(7) by (simp only: e t)
  from store_patch [OF assms(1) this] have v1: "v (w_env w1) = s'" "stored_as s' new"
    by (simp_all only: e t)
  then have "in_sync cfg req v g c raw stored w1"
    using p(5,6) assms(7,8) record_applied_annotations [of ?h "HashBytes stored" t ?s]
    by (simp add: t in_sync_def stored_as_def recorded_applied_def key_of_def mutated_def)
  with calm_in_sync [OF assms(1,2) _ assms(5,13)] assms(4)
  have s: "in_sync cfg req v g c raw stored w2" "emits (only_reads req c) w1 w2" by simp_all
  from in_sync_requeued [OF assms(1) s(1) assms(2) _ assms(5)] assms(4)
  have "fst (run_state (Reconcile x cfg req) w2) = RequeueAfter RequeueInterval" by auto
  moreover have "w_trace w1 = w_trace w @ KubeGet req (Inr ?s) # es @ [KubePatch ?s new (Inr s')]"
    using p(2) by simp
  ultimately show ?thesis using s p(3) unfolding in_sync_def by blast
qed

section \<open>Example\<close>

lemma patch_untouched: "\<not> patch_touches k orig new \<Longrightarrow> go_lookup (s_annotations orig) k = go_lookup (s_annotations new) k"
  by (simp add: patch_touches_def)

lemma merged_stored: "stored_as (merged s (s\<lparr>s_annotations := ann\<rparr>) s) (s\<lparr>s_annotations := ann\<rparr>)"
proof -
  let ?new = "s\<lparr>s_annotations := ann\<rparr>"
  have "go_lookup (s_annotations (merged s ?new s)) k = go_lookup ann k" for k
    using patch_untouched [of k s ?new]
    by (cases "patch_touches k s ?new") (auto simp: merged_def go_lookup_def go_map_def split: option.splits)
  then show ?thesis by (simp add: stored_as_def go_get_def key_of_def merged_def)
qed

lemma serving_store: "object_store (serving_ext stored) config_key cl_config"
proof -
  have "silent (serving_ext stored) cl_config"
    by (simp add: silent_def serving_http_def cluster_http_def)
  moreover have "cluster_patch (cl_config e) ((cl_config e)\<lparr>s_annotations := ann\<rparr>) e =
      (Inr (merged (cl_config e) ((cl_config e)\<lparr>s_annotations := ann\<rparr>) (cl_config e)),
       e\<lparr>cl_config := merged (cl_config e) ((cl_config e)\<lparr>s_annotations := ann\<rparr>) (cl_config e)\<rparr>)" for e ann
    by (simp add: cluster_patch_def)
  ultimately show ?thesis
    by (simp add: object_store_def Let_def cluster_get_def merged_stored)
qed

text \<open>Two more reconciles after the one that applied.\<close>

definition settled_world :: "cluster world" where
  "settled_world = (let w1 = snd (run_state (Reconcile (serving_ext ''y'') demo_settings config_key) (running_world ''x'' fmempty));
     w2 = snd (run_state (Reconcile (serving_ext ''y'') demo_settings config_key) w1)
   in snd (run_state (DataplaneReady (serving_ext ''y'') demo_settings) w2))"

theorem config_settles_witness:
  "fst (run_state (Reconcile (serving_ext ''y'') demo_settings config_key) settled_world) = RequeueAfter RequeueInterval
   \<and> recorded_applied (cl_config (w_env settled_world)) (HashBytes ''x'') (HashBytes ''y'')
   \<and> cl_running (w_env settled_world) = ''y''"
proof -
  let ?x = "serving_ext ''y''" and ?w = "running_world ''x'' fmempty"
  let ?step = "calm_step ?x demo_settings config_key cl_config cl_running"
  define w1 where "w1 = snd (run_state (Reconcile ?x demo_settings config_key) ?w)"
  define w2 where "w2 = snd (run_state (Reconcile ?x demo_settings config_key) w1)"
  have "?step w1 w2" unfolding w2_def
    by (rule requeued [OF prod.collapse [symmetric]])
  moreover have "?step w2 settled_world"
    unfolding settled_world_def Let_def w2_def w1_def by (rule readyz [OF prod.collapse [symmetric]])
  ultimately have steps: "?step\<^sup>*\<^sup>* w1 settled_world" by simp
  have run: "run_state (Reconcile ?x demo_settings config_key) ?w = (fst (run_state (Reconcile ?x demo_settings config_key) ?w), w1)"
    by (simp add: w1_def)
  have c: "cl_config (w_env ?w) = config_secret ''x'' fmempty"
    by (simp add: running_world_def initial_world_def demo_cluster_def)
  have s: "CertsSecretNames demo_settings = []" "SecretName demo_settings = [] \<or> SecretName demo_settings = snd config_key"
    "hclient ?w = Some demo_client" "key_of (cl_config (w_env ?w)) = config_key"
    "go_lookup (s_data (cl_config (w_env ?w))) (SecretKey demo_settings) = Some ''x''"
    unfolding c by (simp_all add: demo_settings_def config_key_def running_world_def config_secret_def key_of_def)
  have h: "HashBytes ''x'' \<noteq> annotation (cl_config (w_env ?w)) k" for k
    using sha.hash_nonempty [of "''x''"] by (simp add: c)
  show ?thesis
    using config_settles [OF serving_store serving_serves _ s h h serving_patches run steps] by simp
qed

end
