(* ===== verification/Client_Cache.thy ===== *)
theory Client_Cache
  imports Cluster
begin

text \<open>
  The cached client under concurrent callers. \<open>Cert_Sync\<close> has \<^verbatim>\<open>getOrCreateClient\<close> as one
  step; the reconciler's worker and the probes of the kubelet really call it at the same time, and
  the closer of the SPIRE source reads a field of it without the mutex. Here its statements are the
  steps of threads that interleave. Each call turns out to be one run of the sequential definition
  at the moment it stops changing the cache, which is what lets the histories of \<open>Operator\<close> take
  reconciles and probes as steps.
\<close>

section \<open>Threads\<close>

text \<open>Where a thread is in the function: outside it, at \<^verbatim>\<open>Lock\<close>, holding the mutex, with a new SPIRE
  source, with a client that is not stored yet, and with its result before and after the deferred
  \<^verbatim>\<open>Unlock\<close>.\<close>

datatype stage = Idle | Calling | Locked | HasSource nat | Built client | Leaving "goerr + client" | Done "goerr + client"

definition inside :: "stage \<Rightarrow> bool" where
  "inside p = (case p of Idle \<Rightarrow> False | Calling \<Rightarrow> False | Done r \<Rightarrow> False | _ \<Rightarrow> True)"

lemma inside_simps [simp]:
  "\<not> inside Idle" "\<not> inside Calling" "inside Locked" "inside (HasSource n)" "inside (Built c)"
  "inside (Leaving r)" "\<not> inside (Done r)"
  by (simp_all add: inside_def)

text \<open>The mutex, the two fields it guards, and the SPIRE sources: how many were made, which of them were
  closed, and whether the closer has run.\<close>

record cache =
  clientMu :: "nat option"
  cc_client :: "client option"
  cc_source :: "nat option"
  cc_made :: nat
  cc_closed :: "nat set"
  cc_shut :: bool
  cc_stage :: "nat \<Rightarrow> stage"

definition empty_cache :: cache where
  "empty_cache = \<lparr>clientMu = None, cc_client = None, cc_source = None, cc_made = 0, cc_closed = {},
     cc_shut = False, cc_stage = (\<lambda>t. Idle)\<rparr>"

abbreviation goto :: "nat \<Rightarrow> stage \<Rightarrow> cache \<Rightarrow> cache" where
  "goto t p s \<equiv> s\<lparr>cc_stage := (cc_stage s)(t := p)\<rparr>"

text \<open>What the two ways of building a client answer in the environment of the moment.\<close>

definition connect :: "'e ext \<Rightarrow> settings \<Rightarrow> 'e \<Rightarrow> goerr option" where
  "connect x cfg e = fst (run_state (TLSTransport x (SpireSocketPath cfg)) (initial_world e))"

definition build :: "'e ext \<Rightarrow> settings \<Rightarrow> 'e \<Rightarrow> goerr + client" where
  "build x cfg e = fst (run_state (NewClient x (APIConfig cfg)) (initial_world e))"

inductive cache_step :: "'e ext \<Rightarrow> settings \<Rightarrow> cache \<Rightarrow> cache \<Rightarrow> bool" for x :: "'e ext" and cfg :: settings where
  calls: "\<not> inside (cc_stage s t) \<Longrightarrow> cache_step x cfg s (goto t Calling s)"
| locks: "cc_stage s t = Calling \<Longrightarrow> clientMu s = None \<Longrightarrow> cache_step x cfg s (goto t Locked (s\<lparr>clientMu := Some t\<rparr>))"
| hit: "cc_stage s t = Locked \<Longrightarrow> cc_client s = Some c \<Longrightarrow> cache_step x cfg s (goto t (Leaving (Inr c)) s)"
| no_source: "cc_stage s t = Locked \<Longrightarrow> cc_client s = None \<Longrightarrow> SpireSocketPath cfg \<noteq> [] \<Longrightarrow> connect x cfg e = Some err \<Longrightarrow>
    cache_step x cfg s (goto t (Leaving (Inl (Wrap ''SPIRE transport: '' err []))) s)"
| new_source: "cc_stage s t = Locked \<Longrightarrow> cc_client s = None \<Longrightarrow> SpireSocketPath cfg \<noteq> [] \<Longrightarrow> connect x cfg e = None \<Longrightarrow>
    cache_step x cfg s (goto t (HasSource (cc_made s)) (s\<lparr>cc_made := Suc (cc_made s)\<rparr>))"
| drops_source: "cc_stage s t = HasSource n \<Longrightarrow> NewClientWithTransport x (APIConfig cfg) SpireTransport = Inl err \<Longrightarrow>
    cache_step x cfg s (goto t (Leaving (Inl err)) (s\<lparr>cc_closed := insert n (cc_closed s)\<rparr>))"
| keeps_source: "cc_stage s t = HasSource n \<Longrightarrow> NewClientWithTransport x (APIConfig cfg) SpireTransport = Inr c \<Longrightarrow>
    cache_step x cfg s (goto t (Built c) (s\<lparr>cc_source := Some n\<rparr>))"
| no_client: "cc_stage s t = Locked \<Longrightarrow> cc_client s = None \<Longrightarrow> SpireSocketPath cfg = [] \<Longrightarrow> build x cfg e = Inl err \<Longrightarrow>
    cache_step x cfg s (goto t (Leaving (Inl err)) s)"
| new_client: "cc_stage s t = Locked \<Longrightarrow> cc_client s = None \<Longrightarrow> SpireSocketPath cfg = [] \<Longrightarrow> build x cfg e = Inr c \<Longrightarrow>
    cache_step x cfg s (goto t (Built c) s)"
| stores: "cc_stage s t = Built c \<Longrightarrow> cache_step x cfg s (goto t (Leaving (Inr c)) (s\<lparr>cc_client := Some c\<rparr>))"
| unlocks: "cc_stage s t = Leaving r \<Longrightarrow> cache_step x cfg s (goto t (Done r) (s\<lparr>clientMu := None\<rparr>))"
| shuts: "\<not> cc_shut s \<Longrightarrow> cache_step x cfg s (s\<lparr>cc_shut := True,
    cc_closed := (case cc_source s of None \<Rightarrow> cc_closed s | Some n \<Rightarrow> insert n (cc_closed s))\<rparr>)"

inductive cache_reach :: "'e ext \<Rightarrow> settings \<Rightarrow> cache \<Rightarrow> bool" for x :: "'e ext" and cfg :: settings where
  cache_start: "cache_reach x cfg empty_cache"
| cache_next: "cache_reach x cfg s \<Longrightarrow> cache_step x cfg s s' \<Longrightarrow> cache_reach x cfg s'"

section \<open>The sequential function\<close>

text \<open>The two fields as the sequential definition has them, and its runs between them.\<close>

type_synonym fields = "client option \<times> bool"

definition fields_of :: "'e world \<Rightarrow> fields" where
  "fields_of w = (haproxyClient (w_rec w), spireSource (w_rec w))"

definition atomic_get :: "'e ext \<Rightarrow> settings \<Rightarrow> fields \<Rightarrow> goerr + client \<Rightarrow> fields \<Rightarrow> bool" where
  "atomic_get x cfg f r f' \<longleftrightarrow>
    (\<exists>w w'. run_state (getOrCreateClient x cfg) w = (r, w') \<and> fields_of w = f \<and> fields_of w' = f')"

definition fields_world :: "fields \<Rightarrow> 'e \<Rightarrow> 'e world" where
  "fields_world f e = (initial_world e)\<lparr>w_rec := initial_reconciler\<lparr>haproxyClient := fst f, spireSource := snd f\<rparr>\<rparr>"

lemma fields_world_empty: "fields_world (None, False) e = initial_world e"
  by (simp add: fields_world_def initial_world_def initial_reconciler_def)

lemma fields_world_of [simp]: "fields_of (fields_world f e) = f"
  by (simp add: fields_of_def fields_world_def)

lemma atomic_getI:
  assumes "run_state (getOrCreateClient x cfg) (fields_world f e) = (r, w')" "fields_of w' = f'"
  shows "atomic_get x cfg f r f'"
  unfolding atomic_get_def by (intro exI conjI, rule assms(1), rule fields_world_of, rule assms(2))

lemma atomic_hit: "atomic_get x cfg (Some c, b) (Inr c) (Some c, b)"
proof (rule atomic_getI)
  fix e
  show "run_state (getOrCreateClient x cfg) (fields_world (Some c, b) e) = (Inr c, fields_world (Some c, b) e)"
    by (simp add: getOrCreateClient_def fields_world_def)
  show "fields_of (fields_world (Some c, b) e) = (Some c, b)" by simp
qed

lemma connect_rec: "run_state (TLSTransport x (SpireSocketPath cfg)) (initial_world e) = (a, w) \<Longrightarrow> w_rec w = initial_reconciler"
  by (auto simp: TLSTransport_def env_call_def initial_world_def split: prod.splits)

lemma start_empty: "haproxyClient (w_rec (initial_world e)) = None" "fields_of (initial_world e) = (None, False)"
  by (simp_all add: initial_world_def initial_reconciler_def fields_of_def)

lemma atomic_spire:
  assumes "SpireSocketPath cfg \<noteq> []" "connect x cfg e = a"
  shows "case a of
      Some err \<Rightarrow> atomic_get x cfg (None, False) (Inl (Wrap ''SPIRE transport: '' err [])) (None, False)
    | None \<Rightarrow> (case NewClientWithTransport x (APIConfig cfg) SpireTransport of
        Inl err \<Rightarrow> atomic_get x cfg (None, False) (Inl err) (None, False)
      | Inr c \<Rightarrow> atomic_get x cfg (None, False) (Inr c) (Some c, True))"
proof -
  obtain w where w: "run_state (TLSTransport x (SpireSocketPath cfg)) (initial_world e) = (a, w)"
    using assms(2) by (metis connect_def prod.collapse)
  note r = connect_rec [OF w]
  show ?thesis
    using assms(1) w r
    by (auto split: option.split sum.split intro!: atomic_getI [where e = e]
        simp: getOrCreateClient_def fields_world_empty start_empty fields_of_def initial_reconciler_def)
qed

lemma NewClient_rec: "w_rec (snd (run_state (NewClient x a) w)) = w_rec w"
proof -
  have "rel (calls (\<lambda>_. False)) (NewClient x a)"
    unfolding NewClient_def Let_def loadCAPool_def by (intro calls.rel_control env_call_calls)
  from relD [OF this, of w] show ?thesis by (simp add: calls_def)
qed

lemma atomic_files:
  assumes "SpireSocketPath cfg = []" "build x cfg e = r"
  shows "case r of
      Inl err \<Rightarrow> atomic_get x cfg (None, False) (Inl err) (None, False)
    | Inr c \<Rightarrow> atomic_get x cfg (None, False) (Inr c) (Some c, False)"
proof -
  obtain w where w: "run_state (NewClient x (APIConfig cfg)) (initial_world e) = (r, w)"
    using assms(2) by (metis build_def prod.collapse)
  then have "w_rec w = w_rec (initial_world e)" using NewClient_rec by (metis snd_conv)
  with w assms(1) show ?thesis
    by (auto split: sum.split intro!: atomic_getI [where e = e]
        simp: getOrCreateClient_def fields_world_empty start_empty fields_of_def initial_world_def initial_reconciler_def)
qed

section \<open>Invariants\<close>

text \<open>The threads inside the function are the holder of the mutex.\<close>

definition owner_ok :: "cache \<Rightarrow> bool" where
  "owner_ok s \<longleftrightarrow> (\<forall>t. inside (cc_stage s t) \<longleftrightarrow> clientMu s = Some t)"

definition holder :: "cache \<Rightarrow> stage" where
  "holder s = (case clientMu s of None \<Rightarrow> Idle | Some t \<Rightarrow> cc_stage s t)"

lemma inside_holder: "owner_ok s \<Longrightarrow> cc_stage s t = p \<Longrightarrow> inside p \<Longrightarrow> clientMu s = Some t"
  by (auto simp: owner_ok_def)

text \<open>A step of the thread that holds the mutex, to a stage that still holds it.\<close>

lemma owner_ok_goto:
  assumes "owner_ok s" "clientMu s = Some t" "inside p" "clientMu s' = clientMu s" "cc_stage s' = (cc_stage s)(t := p)"
  shows "owner_ok s'" "holder s' = p"
  using assms by (auto simp: owner_ok_def holder_def)

text \<open>What the stage of the holder says about the fields and the sources.\<close>

definition stage_ok :: "'e ext \<Rightarrow> settings \<Rightarrow> cache \<Rightarrow> stage \<Rightarrow> bool" where
  "stage_ok x cfg s p =
    (case p of
       HasSource n \<Rightarrow> cc_client s = None \<and> SpireSocketPath cfg \<noteq> [] \<and> (\<exists>e. connect x cfg e = None)
     | Built c \<Rightarrow> cc_client s = None \<and> atomic_get x cfg (None, False) (Inr c) (Some c, cc_source s \<noteq> None)
     | Leaving (Inr c) \<Rightarrow> cc_client s = Some c
     | _ \<Rightarrow> True)"

lemma stage_ok_simps [simp]:
  "stage_ok x cfg s Idle" "stage_ok x cfg s Calling" "stage_ok x cfg s Locked"
  "stage_ok x cfg s (Leaving (Inl err))" "stage_ok x cfg s (Done r)"
  "stage_ok x cfg s (Leaving (Inr c)) = (cc_client s = Some c)"
  "stage_ok x cfg s (HasSource n) =
    (cc_client s = None \<and> SpireSocketPath cfg \<noteq> [] \<and> (\<exists>e. connect x cfg e = None))"
  "stage_ok x cfg s (Built c) = (cc_client s = None \<and> atomic_get x cfg (None, False) (Inr c) (Some c, cc_source s \<noteq> None))"
  by (simp_all add: stage_ok_def)

definition fields_ok :: "'e ext \<Rightarrow> settings \<Rightarrow> cache \<Rightarrow> stage \<Rightarrow> bool" where
  "fields_ok x cfg s p \<longleftrightarrow> stage_ok x cfg s p
     \<and> (cc_source s \<noteq> None \<and> cc_client s = None \<longrightarrow> (\<exists>c. p = Built c))
     \<and> (\<forall>n < cc_made s. n \<in> cc_closed s \<or> cc_source s = Some n \<or> p = HasSource n)"

lemma fields_ok_stages [simp]: "fields_ok x cfg (s\<lparr>cc_stage := f\<rparr>) p = fields_ok x cfg s p"
  by (simp add: fields_ok_def stage_ok_def split: stage.split sum.split)

text \<open>A step of the holder that stays inside: its new stage fits the new fields.\<close>

definition moves :: "'e ext \<Rightarrow> settings \<Rightarrow> cache \<Rightarrow> cache \<Rightarrow> nat \<Rightarrow> stage \<Rightarrow> bool" where
  "moves x cfg s s' t q \<longleftrightarrow> inside (cc_stage s t) \<and> inside q \<and> clientMu s' = clientMu s
     \<and> cc_stage s' = (cc_stage s)(t := q)
     \<and> (fields_ok x cfg s (cc_stage s t) \<longrightarrow>
          (cc_client s \<noteq> None \<longrightarrow> cc_client s' = cc_client s) \<and> fields_ok x cfg s' q)"

text \<open>The steps are of five kinds: the call, taking and releasing the mutex, the closer, and moves.\<close>

lemma step_kinds:
  assumes "cache_step x cfg s s'"
  obtains (calls) t where "s' = goto t Calling s" "\<not> inside (cc_stage s t)"
  | (locks) t where "s' = goto t Locked (s\<lparr>clientMu := Some t\<rparr>)" "cc_stage s t = Calling" "clientMu s = None"
  | (unlocks) t r where "s' = goto t (Done r) (s\<lparr>clientMu := None\<rparr>)" "cc_stage s t = Leaving r"
  | (shuts) "s' = s\<lparr>cc_shut := True, cc_closed := (case cc_source s of None \<Rightarrow> cc_closed s | Some n \<Rightarrow> insert n (cc_closed s))\<rparr>"
  | (moves) t q where "moves x cfg s s' t q"
  using assms
proof (cases rule: cache_step.cases)
  case (hit t c)
  then show thesis by (intro that(5) [of t "Leaving (Inr c)"]) (auto simp: moves_def fields_ok_def)
next
  case (no_source t e err)
  then show thesis
    by (intro that(5) [of t "Leaving (Inl (Wrap ''SPIRE transport: '' err []))"]) (auto simp: moves_def fields_ok_def)
next
  case (new_source t e)
  then show thesis by (intro that(5) [of t "HasSource (cc_made s)"]) (auto simp: moves_def fields_ok_def less_Suc_eq)
next
  case (drops_source t n err)
  then show thesis by (intro that(5) [of t "Leaving (Inl err)"]) (auto simp: moves_def fields_ok_def)
next
  case (keeps_source t n c)
  have "atomic_get x cfg (None, False) (Inr c) (Some c, True)"
    if "connect x cfg e = None" "SpireSocketPath cfg \<noteq> []" for e
    using atomic_spire [OF that(2,1)] keeps_source(3) by simp
  with keeps_source show thesis by (intro that(5) [of t "Built c"]) (auto simp: moves_def fields_ok_def)
next
  case (no_client t e err)
  then show thesis by (intro that(5) [of t "Leaving (Inl err)"]) (auto simp: moves_def fields_ok_def)
next
  case (new_client t e c)
  with atomic_files [OF new_client(4,5)] show thesis
    by (intro that(5) [of t "Built c"]) (auto simp: moves_def fields_ok_def)
next
  case (stores t c)
  then show thesis by (intro that(5) [of t "Leaving (Inr c)"]) (auto simp: moves_def fields_ok_def)
qed (erule (1) that(1) that(2) that(3) that(4) | assumption)+

definition cache_ok :: "'e ext \<Rightarrow> settings \<Rightarrow> cache \<Rightarrow> bool" where
  "cache_ok x cfg s \<longleftrightarrow> owner_ok s \<and> fields_ok x cfg s (holder s)
     \<and> (\<forall>t c. cc_stage s t = Done (Inr c) \<longrightarrow> cc_client s = Some c)"

lemma cache_ok_holder:
  assumes "cache_ok x cfg s" "cc_stage s t = p" "inside p"
  shows "clientMu s = Some t" "fields_ok x cfg s p"
  using assms inside_holder [of s t p] by (auto simp: cache_ok_def holder_def)

lemma moves_ok:
  assumes "cache_ok x cfg s" "moves x cfg s s' t q"
  shows "cache_ok x cfg s'"
proof -
  have m: "inside (cc_stage s t)" "inside q" "clientMu s' = clientMu s" "cc_stage s' = (cc_stage s)(t := q)"
    using assms(2) by (simp_all add: moves_def)
  note h = cache_ok_holder [OF assms(1) refl m(1)]
  have f: "cc_client s \<noteq> None \<longrightarrow> cc_client s' = cc_client s" "fields_ok x cfg s' q"
    using assms(2) h(2) by (auto simp: moves_def)
  have o: "owner_ok s" using assms(1) by (simp add: cache_ok_def)
  have "cc_client s' = Some c" if "cc_stage s' t' = Done (Inr c)" for t' c
    using that assms(1) m(2,4) f(1) by (auto simp: cache_ok_def split: if_splits)
  with owner_ok_goto [OF o h(1) m(2-4)] f(2) show ?thesis by (simp add: cache_ok_def)
qed

lemma cache_step_ok:
  assumes "cache_step x cfg s s'" "cache_ok x cfg s"
  shows "cache_ok x cfg s'"
proof -
  have o: "owner_ok s" using assms(2) by (simp add: cache_ok_def)
  show ?thesis
    using assms(1)
  proof (cases rule: step_kinds)
    case (calls t)
    with o have "owner_ok s'" "holder s' = holder s"
      by (fastforce simp: owner_ok_def) (use calls o in \<open>auto simp: holder_def owner_ok_def split: option.split\<close>)
    with calls assms(2) show ?thesis by (auto simp: cache_ok_def)
  next
    case (locks t)
    with o have "owner_ok s'" by (fastforce simp: owner_ok_def)
    with locks assms(2) show ?thesis by (auto simp: cache_ok_def fields_ok_def holder_def)
  next
    case (unlocks t r)
    have h: "clientMu s = Some t" "fields_ok x cfg s (Leaving r)"
      using cache_ok_holder [OF assms(2) unlocks(2)] by simp_all
    then have "fields_ok x cfg s' Idle" "owner_ok s'" "r = Inr c \<Longrightarrow> cc_client s = Some c" for c
      using unlocks o by (auto simp: fields_ok_def owner_ok_def)
    with unlocks assms(2) show ?thesis by (auto simp: cache_ok_def holder_def)
  next
    case shuts
    then have "holder s' = holder s" by (simp add: holder_def split: option.split)
    moreover have "fields_ok x cfg s' p" if "fields_ok x cfg s p" for p
      using that shuts by (auto simp: fields_ok_def stage_ok_def split: stage.split sum.split option.split)
    ultimately show ?thesis using shuts assms(2) o by (auto simp: cache_ok_def owner_ok_def)
  next
    case (moves t q)
    with assms(2) show ?thesis by (rule moves_ok)
  qed
qed

lemma cache_reach_ok: "cache_reach x cfg s \<Longrightarrow> cache_ok x cfg s"
proof (induction rule: cache_reach.induct)
  case cache_start
  show ?case by (simp add: cache_ok_def owner_ok_def fields_ok_def holder_def empty_cache_def)
qed (rule cache_step_ok)

section \<open>What the mutex guarantees\<close>

text \<open>C11: however the callers interleave, at most one of them is inside the function, all that got a client
  got the same one, which is the cached one, and when none is inside, every SPIRE source that was ever
  made is closed or is the one the reconciler holds, so at most one is open.\<close>

theorem one_client_one_source:
  assumes "cache_reach x cfg s"
  shows "(inside (cc_stage s t) \<and> inside (cc_stage s t') \<longrightarrow> t = t')
    \<and> (cc_stage s t = Done (Inr c) \<longrightarrow> cc_client s = Some c)
    \<and> (clientMu s = None \<longrightarrow> {n. n < cc_made s} - cc_closed s \<subseteq> set_option (cc_source s))"
proof -
  note ok = cache_reach_ok [OF assms]
  then have "inside (cc_stage s t) \<and> inside (cc_stage s t') \<longrightarrow> t = t'"
    by (auto simp: cache_ok_def owner_ok_def)
  moreover have "{n. n < cc_made s} - cc_closed s \<subseteq> set_option (cc_source s)" if "clientMu s = None"
    using ok that by (auto simp: cache_ok_def holder_def fields_ok_def)
  ultimately show ?thesis using ok by (simp add: cache_ok_def)
qed

text \<open>The cache as the sequential function sees it: a source belongs to it from the moment its client is
  stored.\<close>

definition fields_seen :: "cache \<Rightarrow> fields" where
  "fields_seen s = (cc_client s, cc_client s \<noteq> None \<and> cc_source s \<noteq> None)"

text \<open>C10: the calls are linearizable. Every step of the interleaved function leaves what the sequential
  function sees of the cache, unless it is the step at which one thread gets its result; that step is a
  whole run of the sequential function, with that result, from what it saw before to what it sees after.\<close>

theorem calls_linearizable:
  assumes "cache_reach x cfg s" "cache_step x cfg s s'"
  shows "(\<forall>t r. cc_stage s' t = Leaving r \<longrightarrow> cc_stage s t = Leaving r) \<and> fields_seen s' = fields_seen s
    \<or> (\<exists>t r. cc_stage s' t = Leaving r \<and> inside (cc_stage s t) \<and> atomic_get x cfg (fields_seen s) r (fields_seen s'))"
proof -
  note ok = cache_reach_ok [OF assms(1)]
  show ?thesis
    using assms(2)
  proof (cases rule: cache_step.cases)
    case (hit t c)
    then have "atomic_get x cfg (fields_seen s) (Inr c) (fields_seen s')"
      using atomic_hit [of x cfg c "cc_source s \<noteq> None"] by (simp add: fields_seen_def)
    with hit show ?thesis by (intro disjI2 exI [of _ t] exI [of _ "Inr c"]) simp
  next
    case (no_source t e err)
    then have "atomic_get x cfg (fields_seen s) (Inl (Wrap ''SPIRE transport: '' err [])) (fields_seen s')"
      using atomic_spire [OF no_source(4,5)] by (simp add: fields_seen_def)
    with no_source show ?thesis
      by (intro disjI2 exI [of _ t] exI [of _ "Inl (Wrap ''SPIRE transport: '' err [])"]) simp
  next
    case (drops_source t n err)
    then obtain e where "cc_client s = None" "SpireSocketPath cfg \<noteq> []" "connect x cfg e = None"
      using cache_ok_holder(2) [OF ok drops_source(2)] by (auto simp: fields_ok_def)
    then have "atomic_get x cfg (fields_seen s) (Inl err) (fields_seen s')"
      using atomic_spire [of cfg x e None] drops_source(1,3) by (simp add: fields_seen_def)
    with drops_source show ?thesis by (intro disjI2 exI [of _ t] exI [of _ "Inl err"]) simp
  next
    case (no_client t e err)
    then have "atomic_get x cfg (fields_seen s) (Inl err) (fields_seen s')"
      using atomic_files [OF no_client(4,5)] by (simp add: fields_seen_def)
    with no_client show ?thesis by (intro disjI2 exI [of _ t] exI [of _ "Inl err"]) simp
  next
    case (stores t c)
    then have "cc_client s = None" "atomic_get x cfg (None, False) (Inr c) (Some c, cc_source s \<noteq> None)"
      using cache_ok_holder(2) [OF ok stores(2)] by (auto simp: fields_ok_def)
    then have "atomic_get x cfg (fields_seen s) (Inr c) (fields_seen s')"
      using stores(1) by (simp add: fields_seen_def)
    with stores show ?thesis by (intro disjI2 exI [of _ t] exI [of _ "Inr c"]) simp
  next
    case (keeps_source t n c)
    then have "cc_client s = None"
      using cache_ok_holder(2) [OF ok keeps_source(2)] by (auto simp: fields_ok_def)
    with keeps_source show ?thesis by (intro disjI1) (simp add: fields_seen_def)
  qed (intro disjI1, simp add: fields_seen_def)+
qed

text \<open>The mutex is released on every path: from every point the holder can finish by steps of its own.\<close>

lemma holder_leaves:
  assumes "cc_stage s t = Leaving r"
  shows "\<exists>s'. (cache_step x cfg)\<^sup>*\<^sup>* s s' \<and> clientMu s' = None"
proof -
  have "cache_step x cfg s (goto t (Done r) (s\<lparr>clientMu := None\<rparr>))" using assms by (rule unlocks)
  then show ?thesis by (intro exI conjI, rule r_into_rtranclp) simp_all
qed

lemma holder_built:
  assumes "cc_stage s t = Built c"
  shows "\<exists>s'. (cache_step x cfg)\<^sup>*\<^sup>* s s' \<and> clientMu s' = None"
proof -
  let ?s = "goto t (Leaving (Inr c)) (s\<lparr>cc_client := Some c\<rparr>)"
  have "cache_step x cfg s ?s" using assms by (rule stores)
  moreover obtain s' where "(cache_step x cfg)\<^sup>*\<^sup>* ?s s'" "clientMu s' = None"
    using holder_leaves [of ?s t "Inr c"] by auto
  ultimately show ?thesis by (blast intro: converse_rtranclp_into_rtranclp)
qed

lemma holder_sourced:
  assumes "cc_stage s t = HasSource n"
  shows "\<exists>s'. (cache_step x cfg)\<^sup>*\<^sup>* s s' \<and> clientMu s' = None"
proof (cases "NewClientWithTransport x (APIConfig cfg) SpireTransport")
  case (Inl err)
  let ?s = "goto t (Leaving (Inl err)) (s\<lparr>cc_closed := insert n (cc_closed s)\<rparr>)"
  have "cache_step x cfg s ?s" using assms Inl by (rule drops_source)
  moreover obtain s' where "(cache_step x cfg)\<^sup>*\<^sup>* ?s s'" "clientMu s' = None"
    using holder_leaves [of ?s t "Inl err"] by auto
  ultimately show ?thesis by (blast intro: converse_rtranclp_into_rtranclp)
next
  case (Inr c)
  let ?s = "goto t (Built c) (s\<lparr>cc_source := Some n\<rparr>)"
  have "cache_step x cfg s ?s" using assms Inr by (rule keeps_source)
  moreover obtain s' where "(cache_step x cfg)\<^sup>*\<^sup>* ?s s'" "clientMu s' = None"
    using holder_built [of ?s t c] by auto
  ultimately show ?thesis by (blast intro: converse_rtranclp_into_rtranclp)
qed

lemma holder_locked:
  assumes "cc_stage s t = Locked"
  shows "\<exists>s'. (cache_step x cfg)\<^sup>*\<^sup>* s s' \<and> clientMu s' = None"
proof -
  have "\<exists>s1. cache_step x cfg s s1 \<and> ((\<exists>r. cc_stage s1 t = Leaving r) \<or> (\<exists>c. cc_stage s1 t = Built c) \<or> (\<exists>n. cc_stage s1 t = HasSource n))"
  proof (cases "cc_client s")
    case (Some c)
    with assms show ?thesis by (intro exI conjI, rule hit) auto
  next
    case None
    show ?thesis
    proof (cases "SpireSocketPath cfg = []")
      case True
      show ?thesis
      proof (cases "build x cfg undefined")
        case (Inl err)
        with assms None True show ?thesis by (intro exI conjI, rule no_client) auto
      next
        case (Inr c)
        with assms None True show ?thesis by (intro exI conjI, rule new_client) auto
      qed
    next
      case False
      show ?thesis
      proof (cases "connect x cfg undefined")
        case None
        with assms \<open>cc_client s = None\<close> False show ?thesis by (intro exI conjI, rule new_source) auto
      next
        case (Some err)
        with assms None False show ?thesis by (intro exI conjI, rule no_source) auto
      qed
    qed
  qed
  then show ?thesis
    using holder_leaves [of _ t] holder_built [of _ t] holder_sourced [of _ t]
    by (blast intro: converse_rtranclp_into_rtranclp)
qed

theorem mutex_released:
  assumes "cache_reach x cfg s"
  shows "\<exists>s'. (cache_step x cfg)\<^sup>*\<^sup>* s s' \<and> clientMu s' = None"
proof (cases "clientMu s")
  case (Some t)
  then have "inside (cc_stage s t)"
    using cache_reach_ok [OF assms] by (simp add: cache_ok_def owner_ok_def)
  then show ?thesis
  proof (cases "cc_stage s t")
    case Locked
    then show ?thesis by (rule holder_locked)
  qed (auto intro: holder_sourced holder_built holder_leaves)
qed auto

section \<open>The closer\<close>

text \<open>With SPIRE, a shutdown while the first caller waits for its source: the closer finds no source, the
  caller then stores one, and nothing closes it.\<close>

definition spire_settings :: settings where
  "spire_settings = demo_settings\<lparr>SpireSocketPath := ''sock''\<rparr>"

definition spire_made :: client where
  "spire_made = newClient demo_config \<lparr>u_scheme = ''http'', u_host = ''gw'', u_path = ''/v3'', u_query = []\<rparr> SpireTransport"

definition missed_at :: "stage \<Rightarrow> cache" where
  "missed_at p = \<lparr>clientMu = Some 0, cc_client = None, cc_source = None, cc_made = 1, cc_closed = {}, cc_shut = True,
     cc_stage = (\<lambda>t. Idle)(0 := p)\<rparr>"

lemma spire_answers:
  "connect (cluster_ext ''y'') spire_settings e = None"
  "NewClientWithTransport (cluster_ext ''y'') (APIConfig spire_settings) SpireTransport = Inr spire_made"
  by (simp_all add: connect_def TLSTransport_def env_call_def cluster_ext_def plain_ext_def spire_settings_def
      demo_settings_def NewClientWithTransport_def spire_made_def)

lemma missed_sourced: "cache_reach (cluster_ext ''y'') spire_settings (missed_at (HasSource 0))"
proof -
  let ?s1 = "goto 0 Calling empty_cache"
  let ?s2 = "goto 0 Locked (?s1\<lparr>clientMu := Some 0\<rparr>)"
  let ?s3 = "goto 0 (HasSource (cc_made ?s2)) (?s2\<lparr>cc_made := Suc (cc_made ?s2)\<rparr>)"
  have "cache_reach (cluster_ext ''y'') spire_settings ?s1"
    by (rule cache_next [OF cache_start calls]) (simp add: empty_cache_def)
  then have "cache_reach (cluster_ext ''y'') spire_settings ?s2"
    by (rule cache_next [OF _ locks]) (simp_all add: empty_cache_def)
  then have "cache_reach (cluster_ext ''y'') spire_settings ?s3"
    by (rule cache_next [OF _ new_source [OF _ _ _ spire_answers(1)]])
      (simp_all add: empty_cache_def spire_settings_def)
  from cache_next [OF this shuts] show ?thesis
    by (simp add: missed_at_def empty_cache_def)
qed

lemma missed_step:
  "cache_reach (cluster_ext ''y'') spire_settings ((missed_at (Built spire_made))\<lparr>cc_source := Some 0\<rparr>)"
  "cache_step (cluster_ext ''y'') spire_settings ((missed_at (Built spire_made))\<lparr>cc_source := Some 0\<rparr>)
     ((missed_at (Leaving (Inr spire_made)))\<lparr>cc_source := Some 0, cc_client := Some spire_made\<rparr>)"
proof -
  show "cache_reach (cluster_ext ''y'') spire_settings ((missed_at (Built spire_made))\<lparr>cc_source := Some 0\<rparr>)"
    using cache_next [OF missed_sourced keeps_source [OF _ spire_answers(2), of _ 0 0]]
    by (simp add: missed_at_def)
  show "cache_step (cluster_ext ''y'') spire_settings ((missed_at (Built spire_made))\<lparr>cc_source := Some 0\<rparr>)
     ((missed_at (Leaving (Inr spire_made)))\<lparr>cc_source := Some 0, cc_client := Some spire_made\<rparr>)"
    using stores [of "(missed_at (Built spire_made))\<lparr>cc_source := Some 0\<rparr>" 0 spire_made "cluster_ext ''y''" spire_settings]
    by (simp add: missed_at_def)
qed

definition missed :: cache where
  "missed = (missed_at (Done (Inr spire_made)))\<lparr>cc_source := Some 0, cc_client := Some spire_made, clientMu := None\<rparr>"

lemma missed_reach: "cache_reach (cluster_ext ''y'') spire_settings missed"
  using cache_next [OF cache_next [OF missed_step] unlocks [of _ 0 "Inr spire_made"]]
  by (simp add: missed_at_def missed_def)

lemma close_misses_source:
  "\<exists>s. cache_reach (cluster_ext ''y'') spire_settings s \<and> cc_shut s \<and> clientMu s = None \<and> cc_made s = 1 \<and> cc_closed s = {}"
  using missed_reach by (intro exI [of _ missed]) (simp add: missed_def missed_at_def)

section \<open>Witnesses\<close>

theorem one_client_one_source_witness:
  "cc_client missed = Some spire_made \<and> {n. n < cc_made missed} - cc_closed missed \<subseteq> set_option (cc_source missed)"
  using one_client_one_source [OF missed_reach, of 0 0 spire_made] by (simp add: missed_def missed_at_def)

theorem calls_linearizable_witness:
  "\<exists>t r. atomic_get (cluster_ext ''y'') spire_settings (None, False) r (Some spire_made, True)"
  using calls_linearizable [OF missed_step] by (auto simp: missed_at_def fields_seen_def)

end
