(* ===== verification/Spec2Isabelle.thy ===== *)
theory Spec2Isabelle
  imports Url Scenarios Tls_Trust Cert_Expiry Local_Laws Lifecycle Startup Stale_Status Cert_Memory Settling Client_Cache
begin

text \<open>
  A verification library of the HAProxy operator (Go, \<^verbatim>\<open>src/\<close>): a Kubernetes controller
  that takes \<^verbatim>\<open>haproxy.cfg\<close> from a Secret, validates and applies it through the HAProxy
  Data Plane API, keeps TLS certificates in the gateway's storage, looks for drift of the live
  configuration, and reports through annotations, Events and metrics.

  How the parts interact. \<^verbatim>\<open>main.go\<close> reads flags and starts either the local runner or
  the manager. The manager calls \<^verbatim>\<open>Reconcile\<close> for Secrets whose events pass the filter,
  one at a time, and \<^verbatim>\<open>DataplaneReady\<close> for its readiness endpoint; both share one
  cached Data Plane client. A reconcile first handles a certificate event, then compares the
  desired bytes with the recorded hashes, looks for drift, pushes certificates, validates, applies
  and records. Every failure is classified by \<^verbatim>\<open>errors.go\<close>; the class decides the Event,
  the status, and whether the bytes are suppressed or retried with a backoff.

  The model. A Go string or byte slice is a list of bytes, a Go map a finite map with nil told
  apart, a duration a 64-bit word, the failure counter an integer wrapped at 64 bits. Code that
  calls out is a state monad over a world: the state of the environment, the clock, the trace of
  effects, the metrics and the reconciler's fields. What is not the repository's code (the HTTP
  exchange, the API server, files, URL, PEM and X.509 parsing, chain verification, SPIRE, the
  manager, the file watcher) is a parameter in the records \<open>ext\<close>, \<open>tls_env\<close>,
  \<open>local_env\<close>, \<open>manager\<close> and \<open>cluster_api\<close>: functions of the environment's
  state that the theorems quantify over. Errors are values of one datatype that mirrors the chain
  Go wraps; a nil map write is a panic, an outcome of its own.

  Theories and the code they model:
  \<^item> \<open>Go_Prelude\<close>, \<open>Utf8\<close>, \<open>Url\<close>, \<open>Json\<close>: what the code uses of the standard
    library (strings, UTF-8 iteration, query strings and paths, JSON).
  \<^item> \<open>Errors\<close>: \<^verbatim>\<open>internal/haproxy/errors.go\<close>. \<open>Status\<close>:
    \<^verbatim>\<open>internal/status/reporter.go\<close>. \<open>Hashing\<close>: \<^verbatim>\<open>HashBytes\<close> of
    \<^verbatim>\<open>internal/config/loader.go\<close>, with SHA-256 written out.
  \<^item> \<open>World\<close>: the world, the environment, \<^verbatim>\<open>internal/metrics/metrics.go\<close>, and the two
    calculi for what a computation may do (weakest preconditions; reflexive and transitive
    summaries pushed through the control structure).
  \<^item> \<open>Dataplane\<close>: \<^verbatim>\<open>internal/haproxy/dataplane_client.go\<close>. \<open>Tls_Trust\<close>: its TLS
    callbacks and \<^verbatim>\<open>internal/spire/transport.go\<close>.
  \<^item> \<open>Secrets\<close>: settings, annotations, delays and writes of
    \<^verbatim>\<open>internal/controller/secret_controller.go\<close>. \<open>Cert_Sync\<close>: the cached client, the
    probe and \<^verbatim>\<open>certs.go\<close>. \<open>Reconcile\<close>: \<^verbatim>\<open>Reconcile\<close> by stages, with
    \<^verbatim>\<open>internal/config/validator.go\<close>. \<open>Operator\<close>: the event filter,
    \<^verbatim>\<open>SetupWithManager\<close>, \<^verbatim>\<open>Close\<close> and the histories of a process.
  \<^item> \<open>Cert_Expiry\<close>: \<^verbatim>\<open>internal/metrics/cert_expiry.go\<close>. \<open>Local_Runner\<close>:
    \<^verbatim>\<open>internal/local/runner.go\<close> and \<^verbatim>\<open>LoadFromFile\<close>. \<open>Metrics_Laws\<close>: the
    collectors and their registration.
  \<^item> \<open>Flags\<close>: the flags of \<^verbatim>\<open>main.go\<close> and \<^verbatim>\<open>flag.Parse\<close>. \<open>Startup\<close>: the rest of
    \<^verbatim>\<open>main.go\<close>, with the goroutines it starts.
  \<^item> \<open>Client_Cache\<close>: \<^verbatim>\<open>getOrCreateClient\<close> once more, statement by statement, as threads that
    interleave around \<^verbatim>\<open>clientMu\<close>.

  What the lemmas show:
  \<^item> \<open>Gateway\<close>, \<open>Client_Laws\<close>, \<open>Readiness\<close>, \<open>Cert_Laws\<close>: the client's requests,
    the meaning of its answers, that a version read never yields a verdict, how long the readiness
    loop takes, that no https client is built without verification. \<open>Tls_Trust\<close>: what stands
    behind a server that a handshake accepts, with mounted files and over SPIRE.
  \<^item> \<open>Reconcile_Frame\<close>: one summary of every stage, with the allowed requests and effects as
    parameters; \<open>Effects\<close> (safe writes, only the client's known requests, only the config Secret), \<open>Ordering\<close> (validated
    before applied), \<open>Verdicts\<close> (recorded hashes are justified), \<open>Cert_Order\<close> (certificates
    before the configuration) are its instances.
  \<^item> \<open>Stages\<close>, \<open>Convergence\<close>, \<open>Recovery\<close>: what single situations lead to; that a
    reconcile with everything working has the bytes validated, applied, read back and recorded, and is
    quiet when in sync; what a refused
    configuration, an unavailable gateway, a drifted one and a missing baseline lead to.
    \<open>Stale_Status\<close>: a status that outlives its cause.
  \<^item> \<open>State_Laws\<close>, \<open>Operator\<close>, \<open>Lifecycle\<close>: invariants of the reconciler's memory over
    every history of reconciles, probes and outside changes (by rule induction), and the
    refinement of a specified lifecycle of the status annotations.
  \<^item> \<open>Settling\<close>: end to end, that the operator comes to rest: after the reconcile that applies a
    configuration only reads follow, as long as nothing else changes the Secret or what the gateway
    runs (a gateway that drifts is repaired, which \<open>Recovery\<close> shows). \<open>Metrics_Laws\<close>,
    \<open>Cert_Memory\<close>: what the counters and the remembered certificate hashes mean at every point of
    every history, and that a certificate push is skipped only with such a record. \<open>Cert_Expiry\<close>:
    the expiry gauge follows the mounted file tick by tick. \<open>Client_Cache\<close>: concurrent calls are linearizable, which is
    what lets a history take reconciles and probes as whole steps.
  \<^item> \<open>Local_Laws\<close>: validation before apply, bounded attempts and the remembered hash of the
    local runner. \<open>Flags\<close>, \<open>Startup\<close>: what a command line decides, and the flags tied to the
    guarantees of what they start.
  \<^item> \<open>Json_Roundtrip\<close>: the certificate record is read back as written, for every well-formed UTF-8
    text in it, escapes included. \<open>Cluster\<close>,
    \<open>Scenarios\<close>: a concrete environment in which the hypotheses hold, and two whole reconciles
    that end badly (a rejection that survives the apply it preceded; a panic on a record holding
    null).

  Bounds and fuel. The JSON parser gets twice the input's length plus two, which its nesting and
  length cannot exceed; the search for the first certificate gets the input's length plus one, and
  \<open>leaf_serial_total\<close> shows that this suffices when decoding shortens its input. The readiness
  loop is a total function: its measure is the time left, since a poll waits a quarter of a second.
  The loops that run until the process ends (the watcher of the local runner, the ticks of the
  expiry gauge and of the warning) take the number of rounds as an argument, and their theorems hold for every
  number. Go's \<^verbatim>\<open>pem.Decode\<close>, chain verification and the standard handshake are
  parameters; hypotheses about them (\<open>pem_shrinks\<close>, \<open>honest\<close>, \<open>faithful_names\<close>,
  \<open>timely\<close>) state what their documentation promises and have instances.

  Not modelled: logging, except the times of the recurring warning; the registration of types with
  the scheme; the manager's queue, leader election and caches (any order of reconciles is a
  history); the flags that imported packages add to the command line and the syntax of durations
  (parameters of \<open>parse_args\<close>); the Prometheus registry (a parameter of \<open>metrics_init\<close>);
  signal handling; closing response bodies and watchers; the texts of JSON errors; Kubernetes'
  treatment of a merge patch, which is a parameter (\<open>object_store\<close> says what \<open>Settling\<close> needs
  of it) and concrete only in \<open>Cluster\<close>. Likewise the gateway: where a result depends on what it runs,
  \<open>serves\<close> of \<open>Convergence\<close> says that an accepted apply changes it and that the live read shows it. The parsers of URLs, PEM and X.509 stay parameters too:
  what they accept of malformed input differs between releases of Go. Concurrency is modelled where
  the code shares state: the cached client. The reconciler's other fields belong to the one worker.
\<close>

end
